theory Spec2Isabelle
  imports Main "HOL-Library.Sublist"
begin

section \<open>Data model\<close>

text \<open>
  The crawler (\<^verbatim>\<open>crawler.py\<close>) works on three kinds of data: spreadsheet cells, Python
  dictionaries with string keys (one per extraction result) and pandas dataframes (the
  input list, the output store). Strings are byte sequences in UTF-8; the only string
  operations modelled are equality, concatenation and the substring test, which agree
  on code points and on UTF-8 bytes.

  A cell is a number, a string, Python's \<^verbatim>\<open>None\<close> or pandas' NaN. \<^verbatim>\<open>None\<close> and NaN are both
  missing values for \<^verbatim>\<open>notna()\<close>, and both are written to a spreadsheet as an empty cell,
  but \<^verbatim>\<open>x is None\<close> holds of \<^verbatim>\<open>None\<close> only.
\<close>

datatype cell = PyNone | NaN | Num int | Str string

definition isna :: "cell \<Rightarrow> bool" where
  "isna c = (c = PyNone \<or> c = NaN)"

type_synonym pdict = "string \<rightharpoonup> cell"

text \<open>The "not available" sentinel of the result rows.\<close>

definition NA :: cell where
  "NA = Str ''NA''"

subsection \<open>Pages and responses\<close>

text \<open>
  What the source reads from Playwright after a navigation. Every call on the page may
  raise; \<open>Inl e\<close> is the exception with message \<open>e\<close>.
  \<^item> \<open>resp_status\<close>, \<open>resp_ok\<close>: \<^verbatim>\<open>response.status\<close> and \<^verbatim>\<open>response.ok\<close>;
  \<^item> \<open>page_content\<close>: \<^verbatim>\<open>page.content()\<close>;
  \<^item> \<open>page_count sel\<close>: \<^verbatim>\<open>page.locator(sel).count()\<close>;
  \<^item> \<open>page_title\<close>: \<^verbatim>\<open>page.title()\<close>.
\<close>

record response =
  resp_status :: int
  resp_ok :: bool

record page =
  page_content :: "string + string"
  page_count :: "string \<Rightarrow> string + nat"
  page_title :: "string + string"

section \<open>Block detection (DataExtractor.detect\_block)\<close>

text \<open>Python's \<^verbatim>\<open>sub in s\<close> on strings.\<close>

fun str_contains :: "string \<Rightarrow> string \<Rightarrow> bool" where
  "str_contains [] sub = (sub = [])"
| "str_contains (c # cs) sub = (prefix sub (c # cs) \<or> str_contains cs sub)"

text \<open>
  The seven hard-coded block phrases. The first is \<^verbatim>\<open>access denied\<close>; the others are Korean
  phrases, given here by their UTF-8 bytes in the order of the source list.
\<close>

definition block_patterns :: "string list" where
  "block_patterns =
    [''access denied'',
     [CHR 0xEC, CHR 0x95, CHR 0xA1, CHR 0xEC, CHR 0x84, CHR 0xB8, CHR 0xEC, CHR 0x8A, CHR 0xA4,
      CHR 0xEA, CHR 0xB0, CHR 0x80, CHR 0x20, CHR 0xEC, CHR 0xB0, CHR 0xA8, CHR 0xEB, CHR 0x8B,
      CHR 0xA8, CHR 0xEB, CHR 0x90, CHR 0x98, CHR 0xEC, CHR 0x97, CHR 0x88, CHR 0xEC, CHR 0x8A,
      CHR 0xB5, CHR 0xEB, CHR 0x8B, CHR 0x88, CHR 0xEB, CHR 0x8B, CHR 0xA4],
     [CHR 0xEB, CHR 0xB9, CHR 0x84, CHR 0xEC, CHR 0xA0, CHR 0x95, CHR 0xEC, CHR 0x83, CHR 0x81,
      CHR 0xEC, CHR 0xA0, CHR 0x81, CHR 0xEC, CHR 0x9D, CHR 0xB8, CHR 0x20, CHR 0xEC, CHR 0xA0,
      CHR 0x91, CHR 0xEA, CHR 0xB7, CHR 0xBC],
     [CHR 0xEC, CHR 0xB0, CHR 0xA8, CHR 0xEB, CHR 0x8B, CHR 0xA8, CHR 0xEB, CHR 0x90, CHR 0x98,
      CHR 0xEC, CHR 0x97, CHR 0x88, CHR 0xEC, CHR 0x8A, CHR 0xB5, CHR 0xEB, CHR 0x8B, CHR 0x88,
      CHR 0xEB, CHR 0x8B, CHR 0xA4],
     [CHR 0xEA, CHR 0xB6, CHR 0x8C, CHR 0xED, CHR 0x95, CHR 0x9C, CHR 0xEC, CHR 0x9D, CHR 0xB4,
      CHR 0x20, CHR 0xEC, CHR 0x97, CHR 0x86, CHR 0xEC, CHR 0x8A, CHR 0xB5, CHR 0xEB, CHR 0x8B,
      CHR 0x88, CHR 0xEB, CHR 0x8B, CHR 0xA4],
     [CHR 0xEC, CHR 0x84, CHR 0x9C, CHR 0xEB, CHR 0xB9, CHR 0x84, CHR 0xEC, CHR 0x8A, CHR 0xA4,
      CHR 0x20, CHR 0xEC, CHR 0x9D, CHR 0xB4, CHR 0xEC, CHR 0x9A, CHR 0xA9, CHR 0xEC, CHR 0x97,
      CHR 0x90, CHR 0x20, CHR 0xEB, CHR 0xB6, CHR 0x88, CHR 0xED, CHR 0x8E, CHR 0xB8, CHR 0xEC,
      CHR 0x9D, CHR 0x84, CHR 0x20, CHR 0xEB, CHR 0x93, CHR 0x9C, CHR 0xEB, CHR 0xA0, CHR 0xA4],
     [CHR 0xEB, CHR 0xB9, CHR 0x84, CHR 0xEC, CHR 0xA0, CHR 0x95, CHR 0xEC, CHR 0x83, CHR 0x81,
      CHR 0xEC, CHR 0xA0, CHR 0x81, CHR 0xEC, CHR 0x9D, CHR 0xB8, CHR 0x20, CHR 0xED, CHR 0x8A,
      CHR 0xB8, CHR 0xEB, CHR 0x9E, CHR 0x98, CHR 0xED, CHR 0x94, CHR 0xBD]]"

text \<open>
  The three title keywords (Korean for "robot", "blocked", "access restricted"), by
  their UTF-8 bytes.
\<close>

definition title_keywords :: "string list" where
  "title_keywords =
    [[CHR 0xEB, CHR 0xA1, CHR 0x9C, CHR 0xEB, CHR 0xB4, CHR 0x87],
     [CHR 0xEC, CHR 0xB0, CHR 0xA8, CHR 0xEB, CHR 0x8B, CHR 0xA8],
     [CHR 0xEC, CHR 0xA0, CHR 0x91, CHR 0xEA, CHR 0xB7, CHR 0xBC, CHR 0x20, CHR 0xEC, CHR 0xA0,
      CHR 0x9C, CHR 0xED, CHR 0x95, CHR 0x9C]]"

definition default_block_indicators :: "string list" where
  "default_block_indicators =
     [''#contents'', ''.prod-buy-header'', ''.prod-price'', ''.prod-sale-price'']"

text \<open>\<^verbatim>\<open>response and response.status in [403, 429, 503]\<close>\<close>

definition status_blocked :: "response option \<Rightarrow> bool" where
  "status_blocked resp =
     (case resp of None \<Rightarrow> False | Some r \<Rightarrow> resp_status r \<in> set [403, 429, 503])"

text \<open>
  The loop over the block phrases. Python's \<^verbatim>\<open>str.lower\<close> is a table of the Unicode
  standard, not code of this repository: it is the parameter \<open>lower\<close>.
\<close>

fun pattern_found :: "(string \<Rightarrow> string) \<Rightarrow> string list \<Rightarrow> string \<Rightarrow> bool" where
  "pattern_found lower [] html_content = False"
| "pattern_found lower (pattern # rest) html_content =
     (if str_contains (lower html_content) (lower pattern) then True
      else pattern_found lower rest html_content)"

text \<open>
  The loop over the block-indicator selectors: a selector is counted as missing when its
  locator matches no element, and also when counting raises (the bare \<^verbatim>\<open>except\<close>).
\<close>

fun count_missing :: "page \<Rightarrow> string list \<Rightarrow> nat \<Rightarrow> nat" where
  "count_missing pg [] missing_elements = missing_elements"
| "count_missing pg (selector # rest) missing_elements =
     count_missing pg rest
       (case page_count pg selector of
          Inl e \<Rightarrow> missing_elements + 1
        | Inr n \<Rightarrow> if n = 0 then missing_elements + 1 else missing_elements)"

text \<open>\<^verbatim>\<open>k1 in title or k2 in title or k3 in title\<close>\<close>

definition title_suspicious :: "string \<Rightarrow> bool" where
  "title_suspicious t =
     (str_contains t (title_keywords ! 0) \<or> str_contains t (title_keywords ! 1)
      \<or> str_contains t (title_keywords ! 2))"

text \<open>
  \<open>selectors\<close> is the selector configuration (\<^verbatim>\<open>selectors.json\<close>), a dictionary from
  field names to selector lists. The test \<^verbatim>\<open>missing >= len(selectors) / 2\<close> uses true
  division; on naturals it is \<open>len \<le> 2 * missing\<close>.
\<close>

definition detect_block ::
  "(string \<Rightarrow> string) \<Rightarrow> (string \<rightharpoonup> string list) \<Rightarrow> page \<Rightarrow> response option \<Rightarrow> bool" where
  "detect_block lower selectors pg resp =
     (if status_blocked resp then True
      else
        (case page_content pg of
           Inl e \<Rightarrow> False
         | Inr html_content \<Rightarrow>
             if pattern_found lower block_patterns html_content then True
             else
               (let sels = (case selectors ''block_indicators'' of
                              None \<Rightarrow> default_block_indicators | Some l \<Rightarrow> l);
                    missing_elements = count_missing pg sels 0
                in if length sels \<le> 2 * missing_elements then True
                   else
                     (case page_title pg of
                        Inl e \<Rightarrow> False
                      | Inr t \<Rightarrow> if title_suspicious t then True else False))))"

text \<open>
  The verdict as the specification words it, for comparison with \<open>detect_block\<close>: true
  exactly when the status is 403, 429 or 503, or the page text contains a block phrase
  (case-insensitively), or at least half of the block-indicator selectors match no
  element, or the title contains a suspicious keyword.
\<close>

definition block_indicators :: "(string \<rightharpoonup> string list) \<Rightarrow> string list" where
  "block_indicators selectors =
     (case selectors ''block_indicators'' of None \<Rightarrow> default_block_indicators | Some l \<Rightarrow> l)"

definition matches_no_element :: "page \<Rightarrow> string \<Rightarrow> bool" where
  "matches_no_element pg selector = (page_count pg selector = Inr 0)"

definition spec_block_verdict ::
  "(string \<Rightarrow> string) \<Rightarrow> (string \<rightharpoonup> string list) \<Rightarrow> page \<Rightarrow> response option \<Rightarrow> bool" where
  "spec_block_verdict lower selectors pg resp =
     ((case resp of None \<Rightarrow> False | Some r \<Rightarrow> resp_status r = 403 \<or> resp_status r = 429 \<or> resp_status r = 503)
      \<or> (case page_content pg of Inl e \<Rightarrow> False
          | Inr html \<Rightarrow> list_ex (\<lambda>p. str_contains (lower html) (lower p)) block_patterns)
      \<or> length (block_indicators selectors)
           \<le> 2 * length (filter (matches_no_element pg) (block_indicators selectors))
      \<or> (case page_title pg of Inl e \<Rightarrow> False
          | Inr t \<Rightarrow> list_ex (str_contains t) title_keywords))"

text \<open>A selector counts as missing for the code when it matches nothing or cannot be counted.\<close>

definition counted_missing :: "page \<Rightarrow> string \<Rightarrow> bool" where
  "counted_missing pg selector =
     (case page_count pg selector of Inl e \<Rightarrow> True | Inr n \<Rightarrow> n = 0)"


subsection \<open>Sample pages\<close>

definition all_counts :: "nat \<Rightarrow> string \<Rightarrow> string + nat" where
  "all_counts n selector = Inr n"

definition failing_counts :: "string \<Rightarrow> string \<Rightarrow> string + nat" where
  "failing_counts e selector = Inl e"

definition response_200 :: response where
  "response_200 = \<lparr>resp_status = 200, resp_ok = True\<rparr>"

text \<open>A page whose markup cannot be read and on which no block indicator is present.\<close>

definition unreadable_page :: page where
  "unreadable_page =
     \<lparr>page_content = Inl ''Target closed'', page_count = all_counts 0,
      page_title = Inr ''Coupang''\<rparr>"

text \<open>A readable, harmless page on which every locator count raises.\<close>

definition uncountable_page :: page where
  "uncountable_page =
     \<lparr>page_content = Inr ''<html><body>ok</body></html>'',
      page_count = failing_counts ''Timeout'', page_title = Inr ''Coupang''\<rparr>"

text \<open>A page on which every inspection raises.\<close>

definition broken_page :: page where
  "broken_page =
     \<lparr>page_content = Inl ''Target closed'', page_count = failing_counts ''Target closed'',
      page_title = Inl ''Target closed''\<rparr>"

section \<open>Dataframes\<close>

text \<open>
  A pandas dataframe: its column names, its rows in order, and the index label of each
  row (\<^verbatim>\<open>df.index\<close>; the source reads the labels only in the re-crawl, through
  \<^verbatim>\<open>iterrows()\<close>). A row gives every column a cell. Column order plays no part in the source
  and is not kept.
\<close>

record dataframe =
  columns :: "string set"
  rows :: "(string \<Rightarrow> cell) list"
  row_labels :: "int list"

text \<open>The labels of a fresh index (\<^verbatim>\<open>RangeIndex\<close>): 0, 1, 2, ...\<close>

definition range_index :: "nat \<Rightarrow> int list" where
  "range_index n = map int [0..<n]"

text \<open>\<^verbatim>\<open>pd.DataFrame()\<close>\<close>

definition empty_dataframe :: dataframe where
  "empty_dataframe = \<lparr>columns = {}, rows = [], row_labels = []\<rparr>"

text \<open>
  \<^verbatim>\<open>df[c].notna()\<close> and \<^verbatim>\<open>df[c] == v\<close>: boolean masks, one entry per row. In an elementwise
  comparison a missing value equals nothing, not even a missing value.
\<close>

definition cell_eq :: "cell \<Rightarrow> cell \<Rightarrow> bool" where
  "cell_eq a b = (\<not> isna a \<and> \<not> isna b \<and> a = b)"

definition col_notna :: "dataframe \<Rightarrow> string \<Rightarrow> bool list" where
  "col_notna df c = map (\<lambda>r. \<not> isna (r c)) (rows df)"

definition col_eq :: "dataframe \<Rightarrow> string \<Rightarrow> cell \<Rightarrow> bool list" where
  "col_eq df c v = map (\<lambda>r. cell_eq (r c) v) (rows df)"

text \<open>\<^verbatim>\<open>m1 | m2\<close> on masks, \<^verbatim>\<open>mask.any()\<close>, and the selection \<^verbatim>\<open>df[mask]\<close>, which keeps the labels.\<close>

definition mask_or :: "bool list \<Rightarrow> bool list \<Rightarrow> bool list" where
  "mask_or m1 m2 = map (\<lambda>(a, b). a \<or> b) (zip m1 m2)"

definition mask_any :: "bool list \<Rightarrow> bool" where
  "mask_any m = list_ex id m"

definition select_rows :: "dataframe \<Rightarrow> bool list \<Rightarrow> dataframe" where
  "select_rows df row_mask =
     df\<lparr>rows := map fst (filter snd (zip (rows df) row_mask)),
        row_labels := map fst (filter snd (zip (row_labels df) row_mask))\<rparr>"

text \<open>
  \<^verbatim>\<open>pd.DataFrame(list_of_dicts)\<close>: the columns are the keys that occur, a key missing from a
  dictionary reads as NaN. \<^verbatim>\<open>row.to_dict()\<close> goes back.
\<close>

definition row_of_dict :: "pdict \<Rightarrow> string \<Rightarrow> cell" where
  "row_of_dict d c = (case d c of None \<Rightarrow> NaN | Some v \<Rightarrow> v)"

definition dataframe_of_dicts :: "pdict list \<Rightarrow> dataframe" where
  "dataframe_of_dicts ds =
     \<lparr>columns = \<Union> (set (map dom ds)), rows = map row_of_dict ds,
      row_labels = range_index (length ds)\<rparr>"

definition to_dict :: "string set \<Rightarrow> (string \<Rightarrow> cell) \<Rightarrow> pdict" where
  "to_dict cols r c = (if c \<in> cols then Some (r c) else None)"

text \<open>
  \<^verbatim>\<open>pd.concat([a, b], ignore_index=True)\<close>: the rows of both, under the columns of both; a
  row has NaN in the columns that only the other frame has.
\<close>

definition within :: "string set \<Rightarrow> (string \<Rightarrow> cell) \<Rightarrow> string \<Rightarrow> cell" where
  "within cols r c = (if c \<in> cols then r c else NaN)"

definition concat_frames :: "dataframe \<Rightarrow> dataframe \<Rightarrow> dataframe" where
  "concat_frames a b =
     \<lparr>columns = columns a \<union> columns b,
      rows = map (within (columns a)) (rows a) @ map (within (columns b)) (rows b),
      row_labels = range_index (length (rows a) + length (rows b))\<rparr>"

subsection \<open>Spreadsheet files\<close>

text \<open>
  A spreadsheet file holds, for every row and column, a number, a text, or nothing; the
  empty cell is written \<open>NaN\<close> here. \<^verbatim>\<open>df.to_excel(path, index=False)\<close> writes the cells of the
  columns, a missing value (\<^verbatim>\<open>None\<close> or NaN) as an empty cell, and no labels.

  \<^verbatim>\<open>pd.read_excel(path)\<close> is called with its defaults everywhere in the source. With them an
  empty cell is read as NaN, and so is a text cell that holds one of the library's default
  missing-value tokens, among them \<^verbatim>\<open>NA\<close>; the rows get a fresh index. The tokens are
  those documented for pandas 2 (earlier versions have the same list without \<^verbatim>\<open>None\<close>).
  Every other text is read as it is: what the library infers from a text that spells a
  number is not modelled, and no property below depends on it.
\<close>

definition default_na_values :: "string list" where
  "default_na_values =
     ['''', ''#N/A'', ''#N/A N/A'', ''#NA'', ''-1.#IND'', ''-1.#QNAN'', ''-NaN'', ''-nan'',
      ''1.#IND'', ''1.#QNAN'', ''<NA>'', ''N/A'', ''NA'', ''NULL'', ''NaN'', ''None'', ''n/a'',
      ''nan'', ''null'']"

definition write_cell :: "cell \<Rightarrow> cell" where
  "write_cell c = (if isna c then NaN else c)"

definition read_cell :: "cell \<Rightarrow> cell" where
  "read_cell c =
     (case c of
        Str s \<Rightarrow> if s \<in> set default_na_values then NaN else Str s
      | Num n \<Rightarrow> Num n
      | PyNone \<Rightarrow> NaN
      | NaN \<Rightarrow> NaN)"

definition to_excel :: "dataframe \<Rightarrow> dataframe" where
  "to_excel df =
     \<lparr>columns = columns df,
      rows = map (\<lambda>r c. if c \<in> columns df then write_cell (r c) else NaN) (rows df),
      row_labels = range_index (length (rows df))\<rparr>"

definition read_excel :: "dataframe \<Rightarrow> dataframe" where
  "read_excel sheet =
     \<lparr>columns = columns sheet,
      rows = map (\<lambda>r c. if c \<in> columns sheet then read_cell (r c) else NaN) (rows sheet),
      row_labels = range_index (length (rows sheet))\<rparr>"

section \<open>The checkpoint (ConfigManager.save\_status, load\_status)\<close>

text \<open>
  The status document. Its \<^verbatim>\<open>timestamp\<close> field holds the wall-clock time of the write and
  is read by nothing; it is left out.
\<close>

record checkpoint =
  file_path :: string
  last_batch :: int
  last_index :: int
  blocked_url_idx :: "int option"

text \<open>
  The start of the window (process\_urls, "auto restart"). \<open>saved_status\<close> is what
  \<^verbatim>\<open>load_status()\<close> returned; it is consulted only when \<open>auto_restart\<close> is set.
\<close>

definition resolve_start_index :: "bool \<Rightarrow> checkpoint option \<Rightarrow> string \<Rightarrow> int \<Rightarrow> int" where
  "resolve_start_index auto_restart saved_status xlsx_file_path start_index =
     (if auto_restart then
        (case saved_status of
           None \<Rightarrow> start_index
         | Some st \<Rightarrow>
             if file_path st = xlsx_file_path then
               (case blocked_url_idx st of
                  Some b \<Rightarrow> b
                | None \<Rightarrow> if last_index st > start_index then last_index st else start_index)
             else start_index)
      else start_index)"

section \<open>Validation: error records and the merge (ResultValidator)\<close>

definition critical_fields :: "string list" where
  "critical_fields = [''PRICE'', ''ORIGIN_PRICE'', ''COUPANG_PROD_NAME'']"

text \<open>
  \_identify\_error\_records: the list of conditions is built column by column, combined
  with \<^verbatim>\<open>|\<close> from its first element on, and used to select rows.
\<close>

definition error_conditions :: "dataframe \<Rightarrow> bool list list" where
  "error_conditions df =
     fold (\<lambda>field conds. if field \<in> columns df then conds @ [col_eq df field NA] else conds)
       critical_fields
       (if ''ERROR'' \<in> columns df then [col_notna df ''ERROR''] else [])"

definition identify_error_records :: "dataframe \<Rightarrow> dataframe" where
  "identify_error_records df =
     (case error_conditions df of
        [] \<Rightarrow> empty_dataframe
      | c # cs \<Rightarrow> select_rows df (fold (\<lambda>condition error_mask. mask_or error_mask condition) cs c))"

text \<open>
  An error record as the specification defines it: the ERROR column is set (it holds a
  value that is not missing), or a critical field equals the sentinel, each test
  restricted to the columns the dataframe has.
\<close>

definition spec_error_record :: "string set \<Rightarrow> (string \<Rightarrow> cell) \<Rightarrow> bool" where
  "spec_error_record cols r =
     ((''ERROR'' \<in> cols \<and> \<not> isna (r ''ERROR''))
      \<or> (''PRICE'' \<in> cols \<and> r ''PRICE'' = Str ''NA'')
      \<or> (''ORIGIN_PRICE'' \<in> cols \<and> r ''ORIGIN_PRICE'' = Str ''NA'')
      \<or> (''COUPANG_PROD_NAME'' \<in> cols \<and> r ''COUPANG_PROD_NAME'' = Str ''NA''))"

text \<open>
  \_update\_dataframe, one re-crawled result at a time (the body of its loop). The result
  is skipped when it has no ORIGINAL\_INDEX entry or the entry \<^verbatim>\<open>is None\<close>;
  \<^verbatim>\<open>original_df["ORIGINAL_INDEX"]\<close> raises KeyError when the column is missing. The rows are
  updated when the result has no ERROR entry or the entry \<^verbatim>\<open>is None\<close>: the inner loop assigns
  \<^verbatim>\<open>original_df.loc[mask, col] = value\<close> for every key of the result that is a column (the
  keys are distinct, so the order of the assignments does not matter and the rows under
  the mask become \<open>overwrite_row\<close>), then the ERROR column, if there is one, is set to
  \<^verbatim>\<open>None\<close> under the mask.
\<close>

definition overwrite_row :: "string set \<Rightarrow> pdict \<Rightarrow> (string \<Rightarrow> cell) \<Rightarrow> string \<Rightarrow> cell" where
  "overwrite_row cols fixed_record r c =
     (case fixed_record c of None \<Rightarrow> r c | Some v \<Rightarrow> if c \<in> cols then v else r c)"

definition clear_error :: "string set \<Rightarrow> (string \<Rightarrow> cell) \<Rightarrow> string \<Rightarrow> cell" where
  "clear_error cols r c = (if c = ''ERROR'' \<and> ''ERROR'' \<in> cols then PyNone else r c)"

definition assign_under_mask ::
  "bool list \<Rightarrow> ((string \<Rightarrow> cell) \<Rightarrow> string \<Rightarrow> cell) \<Rightarrow> dataframe \<Rightarrow> dataframe" where
  "assign_under_mask row_mask f df =
     df\<lparr>rows := map (\<lambda>(r, m). if m then f r else r) (zip (rows df) row_mask)\<rparr>"

definition update_record :: "dataframe \<Rightarrow> pdict \<Rightarrow> string + dataframe" where
  "update_record original_df fixed_record =
     (case fixed_record ''ORIGINAL_INDEX'' of
        None \<Rightarrow> Inr original_df
      | Some orig_idx \<Rightarrow>
          if orig_idx = PyNone then Inr original_df
          else if ''ORIGINAL_INDEX'' \<notin> columns original_df then Inl ''KeyError: ORIGINAL_INDEX''
          else
            (let row_mask = col_eq original_df ''ORIGINAL_INDEX'' orig_idx
             in if mask_any row_mask then
                  (if fixed_record ''ERROR'' = None \<or> fixed_record ''ERROR'' = Some PyNone then
                     Inr (assign_under_mask row_mask (clear_error (columns original_df))
                            (assign_under_mask row_mask
                               (overwrite_row (columns original_df) fixed_record) original_df))
                   else Inr original_df)
                else Inr original_df))"

fun update_dataframe :: "dataframe \<Rightarrow> pdict list \<Rightarrow> string + dataframe" where
  "update_dataframe original_df [] = Inr original_df"
| "update_dataframe original_df (fixed_record # rest) =
     (case update_record original_df fixed_record of
        Inl e \<Rightarrow> Inl e
      | Inr df' \<Rightarrow> update_dataframe df' rest)"

text \<open>
  The merge policy in the specification's words. A result carries an error marker when it
  has an ERROR entry that is not \<^verbatim>\<open>None\<close> (a NaN entry is a marker); it corresponds to the rows
  whose ORIGINAL\_INDEX equals its own; a merged row takes the result's value in every
  column the result names and has its ERROR marker cleared.
\<close>

definition has_error_marker :: "pdict \<Rightarrow> bool" where
  "has_error_marker fixed_record =
     (case fixed_record ''ERROR'' of None \<Rightarrow> False | Some e \<Rightarrow> e \<noteq> PyNone)"

definition corresponds :: "pdict \<Rightarrow> (string \<Rightarrow> cell) \<Rightarrow> bool" where
  "corresponds fixed_record r =
     (case fixed_record ''ORIGINAL_INDEX'' of
        None \<Rightarrow> False
      | Some orig_idx \<Rightarrow> cell_eq (r ''ORIGINAL_INDEX'') orig_idx)"

definition spec_merged_row :: "string set \<Rightarrow> pdict \<Rightarrow> (string \<Rightarrow> cell) \<Rightarrow> string \<Rightarrow> cell" where
  "spec_merged_row cols fixed_record r c =
     (if c \<notin> cols then r c
      else if c = ''ERROR'' then PyNone
      else (case fixed_record c of None \<Rightarrow> r c | Some v \<Rightarrow> v))"

text \<open>The effect of one re-crawled result on one row of the output store.\<close>

definition merge_row :: "string set \<Rightarrow> pdict \<Rightarrow> (string \<Rightarrow> cell) \<Rightarrow> string \<Rightarrow> cell" where
  "merge_row cols fixed_record r =
     (if \<not> has_error_marker fixed_record \<and> corresponds fixed_record r
      then spec_merged_row cols fixed_record r else r)"

subsection \<open>A sample output store\<close>

text \<open>
  Two rows: record 1 carries an error, record 2 is complete. \<open>sample_failed\<close> is a re-crawl
  of record 1 that failed again, \<open>sample_fixed\<close> a re-crawl of record 1 that succeeded,
  \<open>sample_nan_error\<close> a result for record 2 whose ERROR entry is NaN.
\<close>

definition sample_columns :: "string set" where
  "sample_columns = {''URL'', ''ORIGINAL_INDEX'', ''PRICE'', ''ERROR''}"

definition sample_row_1 :: "string \<Rightarrow> cell" where
  "sample_row_1 =
     row_of_dict [''URL'' \<mapsto> Str ''https://shop.example/1'', ''ORIGINAL_INDEX'' \<mapsto> Num 1,
                  ''PRICE'' \<mapsto> Str ''NA'', ''ERROR'' \<mapsto> Str ''Timeout'']"

definition sample_row_2 :: "string \<Rightarrow> cell" where
  "sample_row_2 =
     row_of_dict [''URL'' \<mapsto> Str ''https://shop.example/2'', ''ORIGINAL_INDEX'' \<mapsto> Num 2,
                  ''PRICE'' \<mapsto> Num 5000]"

definition sample_store :: dataframe where
  "sample_store =
     \<lparr>columns = sample_columns, rows = [sample_row_1, sample_row_2], row_labels = [0, 1]\<rparr>"

definition sample_failed :: pdict where
  "sample_failed =
     [''URL'' \<mapsto> Str ''https://shop.example/1'', ''ORIGINAL_INDEX'' \<mapsto> Num 1,
      ''PRICE'' \<mapsto> Str ''NA'', ''ERROR'' \<mapsto> Str ''Timeout again'']"

definition sample_fixed :: pdict where
  "sample_fixed =
     [''URL'' \<mapsto> Str ''https://shop.example/1'', ''ORIGINAL_INDEX'' \<mapsto> Num 1,
      ''PRICE'' \<mapsto> Num 4200]"

definition sample_nan_error :: pdict where
  "sample_nan_error =
     [''URL'' \<mapsto> Str ''https://shop.example/2'', ''ORIGINAL_INDEX'' \<mapsto> Num 2,
      ''PRICE'' \<mapsto> Num 1, ''ERROR'' \<mapsto> NaN]"

section \<open>The environment of a run\<close>

text \<open>
  What the extraction finds on a loaded page. The searches run selector by selector and
  catch the exceptions of each selector, so every one of them ends with a value or with
  nothing; two steps read the page outside such a handler and may raise (\<open>Inl e\<close>).
  \<^item> \<open>found_name\<close>: the product name found by the configured selectors or, failing them, by
    the longest \<^verbatim>\<open>h2\<close> text; the search with \<^verbatim>\<open>h2\<close> may raise;
  \<^item> \<open>found_price\<close>, \<open>found_origin_price\<close>, \<open>found_coupon_price\<close>, \<open>found_ac_price\<close>: the results
    of \<^verbatim>\<open>extract_price_safely\<close> for the four groups of selectors;
  \<^item> \<open>coupon_exists\<close>: \<^verbatim>\<open>check_coupon_exists()\<close>, which reads \<^verbatim>\<open>page.content()\<close> and may raise;
  \<^item> \<open>ac_regex_price\<close>: the search for an AppleCare price in the markup by regular expression,
    inside its own \<^verbatim>\<open>try\<close>.
\<close>

record findings =
  found_name :: "string + string option"
  found_price :: "int option"
  found_origin_price :: "int option"
  coupon_exists :: "string + bool"
  found_coupon_price :: "int option"
  found_ac_price :: "int option"
  ac_regex_price :: "string + int option"

text \<open>
  One visit of a record: what happens when the record is driven.
  \<^item> \<open>setup_error\<close>: the exception raised while the context and the page are created, if any;
  \<^item> \<open>goto_result n\<close>: what \<^verbatim>\<open>page.goto\<close> does on attempt \<open>n\<close> (counted from 0): it raises, or
    returns a response or \<^verbatim>\<open>None\<close>;
  \<^item> \<open>loaded_page\<close>: the page once the navigation has succeeded;
  \<^item> \<open>page_findings\<close>: what the extraction finds on it;
  \<^item> \<open>wait_error\<close>: the exception raised by the wait that follows the record
    (\<^verbatim>\<open>get_random_wait_time("url")\<close> and \<^verbatim>\<open>time.sleep\<close>, which raises on a negative time), if any.
\<close>

record visit =
  setup_error :: "string option"
  goto_result :: "nat \<Rightarrow> string + response option"
  loaded_page :: page
  page_findings :: findings
  wait_error :: "string option"

text \<open>
  What a run takes from outside the repository's code: the Unicode lower-casing, the
  clock (one reading per run: \<open>rt_now\<close> is \<^verbatim>\<open>%Y-%m-%d %H:%M:%S\<close>, \<open>rt_today\<close> is
  \<^verbatim>\<open>%Y-%m-%d\<close>), the selector configuration, the directory of \<^verbatim>\<open>crawler.py\<close>, the working
  directory of the process, and the web: \<open>rt_site idx\<close> is the visit of the record at
  position \<open>idx\<close> of the window during the crawl, \<open>rt_resite n\<close> the visit of the \<open>n\<close>-th
  record during validation. Logging has no effect that is modelled; the launch and the
  shutdown of the browser, the waits between batches and the reads and writes of files are
  taken to succeed.
\<close>

record runtime =
  rt_lower :: "string \<Rightarrow> string"
  rt_now :: string
  rt_today :: string
  rt_selectors :: "string \<rightharpoonup> string list"
  rt_base_dir :: string
  rt_cwd :: string
  rt_site :: "int \<Rightarrow> visit"
  rt_resite :: "nat \<Rightarrow> visit"

text \<open>The entries of \<^verbatim>\<open>crawler_config.json\<close> that decide what the orchestration does.\<close>

record config =
  cfg_batch_size :: "int option"
  cfg_output_basename :: "string option"

section \<open>Navigation with retries\<close>

text \<open>Python's \<^verbatim>\<open>str\<close> of an integer, for the status code in the error message.\<close>

function str_of_nat :: "nat \<Rightarrow> string" where
  "str_of_nat n =
     (if n < 10 then [char_of (48 + n)] else str_of_nat (n div 10) @ [char_of (48 + n mod 10)])"
  by pat_completeness auto
termination
  by (relation "measure (\<lambda>n. n)") auto

declare str_of_nat.simps [simp del]

definition str_of_int :: "int \<Rightarrow> string" where
  "str_of_int i = (if i < 0 then ''-'' @ str_of_nat (nat (- i)) else str_of_nat (nat i))"

text \<open>
  The message of the exception raised for a response that is missing or not ok: a Korean
  prefix ("page load failed: status code", by its UTF-8 bytes) followed by the status or
  by \<^verbatim>\<open>No response\<close>.
\<close>

definition load_failed_prefix :: string where
  "load_failed_prefix =
     [CHR 0xED, CHR 0x8E, CHR 0x98, CHR 0xEC, CHR 0x9D, CHR 0xB4, CHR 0xEC, CHR 0xA7, CHR 0x80,
      CHR 0x20, CHR 0xEB, CHR 0xA1, CHR 0x9C, CHR 0xEB, CHR 0x93, CHR 0x9C, CHR 0x20, CHR 0xEC,
      CHR 0x8B, CHR 0xA4, CHR 0xED, CHR 0x8C, CHR 0xA8, CHR 0x3A, CHR 0x20, CHR 0xEC, CHR 0x83,
      CHR 0x81, CHR 0xED, CHR 0x83, CHR 0x9C, CHR 0x20, CHR 0xEC, CHR 0xBD, CHR 0x94, CHR 0xEB,
      CHR 0x93, CHR 0x9C, CHR 0x20]"

definition load_failed_message :: "response option \<Rightarrow> string" where
  "load_failed_message resp =
     load_failed_prefix
     @ (case resp of None \<Rightarrow> ''No response'' | Some r \<Rightarrow> str_of_int (resp_status r))"

text \<open>
  One attempt: the inner \<^verbatim>\<open>try\<close> of the retry loop. It yields the response when there is
  one and it is ok, and the exception otherwise.
\<close>

definition attempt_goto :: "(nat \<Rightarrow> string + response option) \<Rightarrow> nat \<Rightarrow> string + response" where
  "attempt_goto goto goto_retry_count =
     (case goto goto_retry_count of
        Inl e \<Rightarrow> Inl e
      | Inr None \<Rightarrow> Inl (load_failed_message None)
      | Inr (Some r) \<Rightarrow> if resp_ok r then Inr r else Inl (load_failed_message (Some r)))"

text \<open>
  The retry loop (at most three attempts). The loop is entered with the counter at 0 and
  re-entered only while the counter is below 3, so its \<^verbatim>\<open>while\<close> test holds whenever it is
  evaluated; the last failure is raised again.
\<close>

function goto_loop :: "(nat \<Rightarrow> string + response option) \<Rightarrow> nat \<Rightarrow> string + response" where
  "goto_loop goto goto_retry_count =
     (case attempt_goto goto goto_retry_count of
        Inr r \<Rightarrow> Inr r
      | Inl goto_error \<Rightarrow>
          if goto_retry_count + 1 < 3 then goto_loop goto (goto_retry_count + 1)
          else Inl goto_error)"
  by pat_completeness auto
termination
  by (relation "measure (\<lambda>(goto, goto_retry_count). 3 - goto_retry_count)") auto

declare goto_loop.simps [simp del]

section \<open>Field extraction (DataExtractor.extract\_product\_info)\<close>

text \<open>
  \_extract\_product\_name: the name that was found, or the sentinel; the handler around
  the whole body writes the sentinel too.
\<close>

definition extract_product_name :: "findings \<Rightarrow> pdict \<Rightarrow> pdict" where
  "extract_product_name fd product_data =
     (case found_name fd of
        Inr (Some name) \<Rightarrow> product_data(''COUPANG_PROD_NAME'' \<mapsto> Str name)
      | Inr None \<Rightarrow> product_data(''COUPANG_PROD_NAME'' \<mapsto> Str ''NA'')
      | Inl e \<Rightarrow> product_data(''COUPANG_PROD_NAME'' \<mapsto> Str ''NA''))"

text \<open>
  \_extract\_price\_info. The price and the origin price are written first (the origin
  price falls back on the price); then the coupon is looked for, and a coupon without a
  coupon price is no coupon; then the AppleCare price, by selector or by regular
  expression. When the coupon check raises, the handler around the whole body overwrites
  all five entries.
\<close>

definition extract_price_info :: "findings \<Rightarrow> pdict \<Rightarrow> pdict" where
  "extract_price_info fd product_data =
     (case coupon_exists fd of
        Inl e \<Rightarrow>
          product_data(''PRICE'' \<mapsto> Str ''NA'', ''ORIGIN_PRICE'' \<mapsto> Str ''NA'',
            ''COUPON'' \<mapsto> Num 0, ''COUPON_PRICE'' \<mapsto> Str ''NA'', ''AC_PRICE'' \<mapsto> Str ''NA'')
      | Inr has_coupon \<Rightarrow>
          (let price = found_price fd;
               origin_price = found_origin_price fd;
               d1 = product_data(''PRICE'' \<mapsto> (case price of Some p \<Rightarrow> Num p | None \<Rightarrow> Str ''NA''));
               d2 = d1(''ORIGIN_PRICE'' \<mapsto>
                         (case origin_price of
                            Some op \<Rightarrow> Num op
                          | None \<Rightarrow> (case price of Some p \<Rightarrow> Num p | None \<Rightarrow> Str ''NA'')));
               d3 = (if has_coupon then
                       (case found_coupon_price fd of
                          Some cp \<Rightarrow> d2(''COUPON'' \<mapsto> Num 1, ''COUPON_PRICE'' \<mapsto> Num cp)
                        | None \<Rightarrow> d2(''COUPON_PRICE'' \<mapsto> PyNone, ''COUPON'' \<mapsto> Num 0))
                     else d2(''COUPON'' \<mapsto> Num 0, ''COUPON_PRICE'' \<mapsto> PyNone))
           in d3(''AC_PRICE'' \<mapsto>
                   (case found_ac_price fd of
                      Some ac \<Rightarrow> Num ac
                    | None \<Rightarrow>
                        (case ac_regex_price fd of
                           Inr (Some ac) \<Rightarrow> Num ac
                         | Inr None \<Rightarrow> Str ''NA''
                         | Inl e \<Rightarrow> Str ''NA'')))))"

text \<open>
  The \<^verbatim>\<open>try\<close> body of extract\_product\_info: the two helpers, then the two time stamps.
  Both helpers catch every exception raised inside them, and nothing else in the body
  raises, so the body always runs to its \<^verbatim>\<open>return\<close>.
\<close>

definition extract_try :: "runtime \<Rightarrow> findings \<Rightarrow> pdict \<Rightarrow> string + pdict" where
  "extract_try rt fd product_data =
     Inr ((extract_price_info fd (extract_product_name fd product_data))
            (''EXTRACTION_TIME'' \<mapsto> Str (rt_now rt), ''DATE'' \<mapsto> Str (rt_today rt)))"

text \<open>\<^verbatim>\<open>d.setdefault(k, v)\<close>\<close>

definition setdefault :: "pdict \<Rightarrow> string \<Rightarrow> cell \<Rightarrow> pdict" where
  "setdefault d k v = (case d k of None \<Rightarrow> d(k \<mapsto> v) | Some old \<Rightarrow> d)"

text \<open>The \<^verbatim>\<open>except\<close> branch on the last attempt: "return at least the minimal information".\<close>

definition exhausted_data :: "string \<Rightarrow> pdict \<Rightarrow> string \<Rightarrow> pdict" where
  "exhausted_data now product_data e =
     (setdefault (setdefault (setdefault (setdefault (setdefault (setdefault product_data
        ''COUPANG_PROD_NAME'' PyNone) ''PRICE'' PyNone) ''ORIGIN_PRICE'' PyNone) ''COUPON'' (Num 0))
        ''COUPON_PRICE'' PyNone) ''AC_PRICE'' PyNone)
     (''EXTRACTION_TIME'' \<mapsto> Str now, ''ERROR'' \<mapsto> Str e)"

text \<open>
  The retry loop of extract\_product\_info (at most three attempts). Its \<^verbatim>\<open>while\<close> test
  holds whenever it is evaluated.
\<close>

function extract_loop :: "runtime \<Rightarrow> findings \<Rightarrow> nat \<Rightarrow> pdict \<Rightarrow> pdict" where
  "extract_loop rt fd retry_count product_data =
     (case extract_try rt fd product_data of
        Inr extracted \<Rightarrow> extracted
      | Inl e \<Rightarrow>
          if retry_count + 1 < 3 then extract_loop rt fd (retry_count + 1) product_data
          else exhausted_data (rt_now rt) product_data e)"
  by pat_completeness auto
termination
  by (relation "measure (\<lambda>(rt, fd, retry_count, product_data). 3 - retry_count)") auto

declare extract_loop.simps [simp del]

text \<open>\<^verbatim>\<open>if prod_id is not None: d["PROD_ID"] = prod_id\<close>\<close>

definition add_prod_id :: "cell \<Rightarrow> pdict \<Rightarrow> pdict" where
  "add_prod_id prod_id d = (if prod_id \<noteq> PyNone then d(''PROD_ID'' \<mapsto> prod_id) else d)"

definition extract_product_info :: "runtime \<Rightarrow> findings \<Rightarrow> cell \<Rightarrow> cell \<Rightarrow> cell \<Rightarrow> pdict" where
  "extract_product_info rt fd url original_index prod_id =
     extract_loop rt fd 0
       (add_prod_id prod_id [''URL'' \<mapsto> url, ''ORIGINAL_INDEX'' \<mapsto> original_index])"

section \<open>One batch (CoupangCrawler.\_process\_batch)\<close>

text \<open>The two error rows built in \_process\_batch.\<close>

definition error_data :: "runtime \<Rightarrow> cell \<Rightarrow> int \<Rightarrow> cell \<Rightarrow> string \<Rightarrow> pdict" where
  "error_data rt url original_index prod_id e =
     add_prod_id prod_id
       [''URL'' \<mapsto> url, ''ORIGINAL_INDEX'' \<mapsto> Num original_index,
        ''COUPANG_PROD_NAME'' \<mapsto> Str ''NA'', ''PRICE'' \<mapsto> Str ''NA'',
        ''ORIGIN_PRICE'' \<mapsto> Str ''NA'', ''COUPON'' \<mapsto> Num 0,
        ''COUPON_PRICE'' \<mapsto> Str ''NA'', ''AC_PRICE'' \<mapsto> Str ''NA'',
        ''EXTRACTION_TIME'' \<mapsto> Str (rt_now rt), ''ERROR'' \<mapsto> Str e]"

definition load_failed_data :: "runtime \<Rightarrow> cell \<Rightarrow> int \<Rightarrow> cell \<Rightarrow> pdict" where
  "load_failed_data rt url original_index prod_id =
     add_prod_id prod_id
       [''URL'' \<mapsto> url, ''ORIGINAL_INDEX'' \<mapsto> Num original_index,
        ''ERROR'' \<mapsto> Str ''Page load failed after retries'',
        ''COUPANG_PROD_NAME'' \<mapsto> Str ''NA'', ''PRICE'' \<mapsto> Str ''NA'',
        ''ORIGIN_PRICE'' \<mapsto> Str ''NA'', ''COUPON'' \<mapsto> Num 0,
        ''COUPON_PRICE'' \<mapsto> Str ''NA'', ''AC_PRICE'' \<mapsto> Str ''NA'',
        ''EXTRACTION_TIME'' \<mapsto> Str (rt_now rt)]"

text \<open>
  The body of the loop over the records of a batch, from the creation of the context to
  the \<^verbatim>\<open>except\<close> handler: the rows it appends to the results, or the detection of a block,
  which leaves the loop. \<open>wait_follows\<close> is the test \<^verbatim>\<open>idx < batch_end - 1\<close>.

  The handler is reached from the creation of the context and from the navigation, and
  then the error row is the only row of the record; block detection and extraction catch
  their own exceptions. The wait before the next record stands inside the same \<^verbatim>\<open>try\<close>,
  after the row of the record has been appended: when it raises, the handler appends an
  error row for the same record.
\<close>

datatype outcome = Rows "pdict list" | Blocked

definition process_url :: "runtime \<Rightarrow> visit \<Rightarrow> bool \<Rightarrow> cell \<Rightarrow> int \<Rightarrow> cell \<Rightarrow> outcome" where
  "process_url rt v wait_follows url original_index prod_id =
     (case setup_error v of
        Some e \<Rightarrow> Rows [error_data rt url original_index prod_id e]
      | None \<Rightarrow>
          (case goto_loop (goto_result v) 0 of
             Inl e \<Rightarrow> Rows [error_data rt url original_index prod_id e]
           | Inr resp \<Rightarrow>
               if \<not> resp_ok resp then Rows [load_failed_data rt url original_index prod_id]
               else if detect_block (rt_lower rt) (rt_selectors rt) (loaded_page v) (Some resp)
               then Blocked
               else
                 (let product_data =
                        extract_product_info rt (page_findings v) url (Num original_index) prod_id
                  in if wait_follows then
                       (case wait_error v of
                          None \<Rightarrow> Rows [product_data]
                        | Some e \<Rightarrow>
                            Rows [product_data, error_data rt url original_index prod_id e])
                     else Rows [product_data])))"

text \<open>\<^verbatim>\<open>df.iloc[idx]\<close>: a negative position counts from the end, a position out of range raises.\<close>

definition iloc :: "'a list \<Rightarrow> int \<Rightarrow> string + 'a" where
  "iloc xs idx =
     (if 0 \<le> idx \<and> idx < int (length xs) then Inr (xs ! nat idx)
      else if idx < 0 \<and> - int (length xs) \<le> idx then Inr (xs ! nat (idx + int (length xs)))
      else Inl ''IndexError: single positional indexer is out-of-bounds'')"

text \<open>
  The loop \<^verbatim>\<open>for idx in range(batch_start, batch_end)\<close>, with the results gathered so far.
  It returns \<^verbatim>\<open>(blocked, batch_results, blocked_idx)\<close>, or the exception that leaves it:
  reading the row (\<^verbatim>\<open>iloc\<close>, \<^verbatim>\<open>row['URL']\<close>) happens before the \<^verbatim>\<open>try\<close>.
\<close>

function process_batch_loop ::
  "runtime \<Rightarrow> dataframe \<Rightarrow> int \<Rightarrow> int \<Rightarrow> int \<Rightarrow> int \<Rightarrow> pdict list
     \<Rightarrow> string + (bool \<times> pdict list \<times> int option)" where
  "process_batch_loop rt df_to_process start_index batch_start batch_end idx batch_results =
     (if idx < batch_end then
        (let relative_idx = idx - batch_start in
         if relative_idx \<ge> int (length (rows df_to_process)) then Inr (False, batch_results, None)
         else
           (case iloc (rows df_to_process) idx of
              Inl e \<Rightarrow> Inl e
            | Inr r \<Rightarrow>
                if ''URL'' \<notin> columns df_to_process then Inl ''KeyError: URL''
                else
                  (let url = r ''URL'';
                       original_index = start_index + idx;
                       prod_id = (if ''PROD_ID'' \<in> columns df_to_process
                                  then r ''PROD_ID'' else PyNone)
                   in case process_url rt (rt_site rt idx) (idx < batch_end - 1) url
                             original_index prod_id of
                        Blocked \<Rightarrow> Inr (True, batch_results, Some relative_idx)
                      | Rows appended \<Rightarrow>
                          process_batch_loop rt df_to_process start_index batch_start batch_end
                            (idx + 1) (batch_results @ appended))))
      else Inr (False, batch_results, None))"
  by pat_completeness auto
termination
  by (relation "measure (\<lambda>(rt, df_to_process, start_index, batch_start, batch_end, idx, batch_results).
                           nat (batch_end - idx))") auto

declare process_batch_loop.simps [simp del]

definition process_batch ::
  "runtime \<Rightarrow> dataframe \<Rightarrow> int \<Rightarrow> int \<Rightarrow> int \<Rightarrow> string + (bool \<times> pdict list \<times> int option)" where
  "process_batch rt df_to_process batch_start batch_end start_index =
     process_batch_loop rt df_to_process start_index batch_start batch_end batch_start []"

section \<open>Files\<close>

text \<open>
  The files a run reads and writes: the JSON status documents, by absolute path, and the
  spreadsheets, by the path the program uses (all of them relative to the same working
  directory). \<open>sheets\<close> gives the cells that a spreadsheet file holds; the program sees
  them through \<^verbatim>\<open>pd.read_excel\<close>. \<open>status_log\<close> is the sequence of documents written by
  save\_status, which the source logs after each write.
\<close>

record world =
  status_docs :: "string \<rightharpoonup> checkpoint"
  sheets :: "string \<rightharpoonup> dataframe"
  status_log :: "checkpoint list"

text \<open>\<^verbatim>\<open>pd.read_excel(path)\<close> on an existing file, and \<^verbatim>\<open>df.to_excel(path, index=False)\<close>.\<close>

definition read_sheet :: "world \<Rightarrow> string \<Rightarrow> dataframe option" where
  "read_sheet w path = map_option read_excel (sheets w path)"

definition write_sheet :: "world \<Rightarrow> string \<Rightarrow> dataframe \<Rightarrow> world" where
  "write_sheet w path df = w\<lparr>sheets := (sheets w)(path \<mapsto> to_excel df)\<rparr>"

definition STATUS_FILE :: string where
  "STATUS_FILE = ''crawler_status.json''"

text \<open>
  \<^verbatim>\<open>ConfigManager.status_path = os.path.join(base_dir, "config", STATUS_FILE)\<close>, where
  \<^verbatim>\<open>base_dir\<close> is the directory of \<^verbatim>\<open>crawler.py\<close>, an absolute path.
\<close>

definition status_path :: "runtime \<Rightarrow> string" where
  "status_path rt = rt_base_dir rt @ ''/config/'' @ STATUS_FILE"

text \<open>A relative path names a file in the working directory of the process.\<close>

definition in_cwd :: "runtime \<Rightarrow> string \<Rightarrow> string" where
  "in_cwd rt relative_path = rt_cwd rt @ ''/'' @ relative_path"

definition save_status :: "runtime \<Rightarrow> world \<Rightarrow> string \<Rightarrow> int \<Rightarrow> int \<Rightarrow> int option \<Rightarrow> world" where
  "save_status rt w fp batch_idx overall_idx blocked =
     (let status = \<lparr>file_path = fp, last_batch = batch_idx, last_index = overall_idx,
                     blocked_url_idx = blocked\<rparr>
      in w\<lparr>status_docs := (status_docs w)(status_path rt \<mapsto> status),
           status_log := status_log w @ [status]\<rparr>)"

definition load_status :: "runtime \<Rightarrow> world \<Rightarrow> checkpoint option" where
  "load_status rt w = status_docs w (status_path rt)"

text \<open>
  The reset at the end of a completed run (process\_urls): it tests and opens the path
  \<^verbatim>\<open>self.config_manager.STATUS_FILE\<close>, the bare file name.
\<close>

definition initial_status :: checkpoint where
  "initial_status = \<lparr>file_path = '''', last_batch = 0, last_index = 0, blocked_url_idx = None\<rparr>"

definition reset_status :: "runtime \<Rightarrow> world \<Rightarrow> world" where
  "reset_status rt w =
     (if in_cwd rt STATUS_FILE \<in> dom (status_docs w)
      then w\<lparr>status_docs := (status_docs w)(in_cwd rt STATUS_FILE \<mapsto> initial_status)\<rparr>
      else w)"

text \<open>
  \_save\_results\_to\_single\_file: append the new rows to the output store. An existing
  store is read back, joined with the new rows and written again.
\<close>

definition save_results_to_single_file :: "world \<Rightarrow> pdict list \<Rightarrow> string \<Rightarrow> world" where
  "save_results_to_single_file w new_results output_file =
     (if new_results = [] then w
      else
        (let new_df = dataframe_of_dicts new_results
         in case read_sheet w output_file of
              Some existing_df \<Rightarrow> write_sheet w output_file (concat_frames existing_df new_df)
            | None \<Rightarrow> write_sheet w output_file new_df))"

section \<open>Re-crawl and validation (ResultValidator)\<close>

text \<open>Python's \<^verbatim>\<open>s.replace(old, new)\<close>.\<close>

function str_replace :: "string \<Rightarrow> string \<Rightarrow> string \<Rightarrow> string" where
  "str_replace old new s =
     (if old = [] then new @ concat (map (\<lambda>c. c # new) s)
      else if s = [] then []
      else if prefix old s then new @ str_replace old new (drop (length old) s)
      else hd s # str_replace old new (tl s))"
  by pat_completeness auto
termination
  by (relation "measure (\<lambda>(old, new, s). length s)") auto

declare str_replace.simps [simp del]

text \<open>
  The messages of the re-crawl, by their UTF-8 bytes: the prefix put before the text of a
  failure ("re-crawl failed:") and the text of the exception raised on a block ("block
  detected").
\<close>

definition recrawl_failed_prefix :: string where
  "recrawl_failed_prefix =
     [CHR 0xEC, CHR 0x9E, CHR 0xAC, CHR 0xEC, CHR 0x88, CHR 0x98, CHR 0xEC, CHR 0xA7, CHR 0x91,
      CHR 0x20, CHR 0xEC, CHR 0x8B, CHR 0xA4, CHR 0xED, CHR 0x8C, CHR 0xA8, CHR 0x3A, CHR 0x20]"

definition block_detected_message :: string where
  "block_detected_message =
     [CHR 0xEC, CHR 0xB0, CHR 0xA8, CHR 0xEB, CHR 0x8B, CHR 0xA8, CHR 0x20, CHR 0xEA, CHR 0xB0,
      CHR 0x90, CHR 0xEC, CHR 0xA7, CHR 0x80, CHR 0xEB, CHR 0x90, CHR 0xA8]"

text \<open>
  The \<^verbatim>\<open>try\<close> body of the re-crawl of one record up to the extraction: the product data, or
  the exception that reaches the handler. A detected block is raised as an exception here.
\<close>

definition recrawl_try :: "runtime \<Rightarrow> visit \<Rightarrow> cell \<Rightarrow> cell \<Rightarrow> cell \<Rightarrow> string + pdict" where
  "recrawl_try rt v url original_index prod_id =
     (case setup_error v of
        Some e \<Rightarrow> Inl e
      | None \<Rightarrow>
          (case goto_loop (goto_result v) 0 of
             Inl e \<Rightarrow> Inl e
           | Inr resp \<Rightarrow>
               if detect_block (rt_lower rt) (rt_selectors rt) (loaded_page v) (Some resp)
               then Inl block_detected_message
               else Inr (extract_product_info rt (page_findings v) url original_index prod_id)))"

text \<open>
  The handler keeps the original data: the first row of \<open>error_df\<close> with the record's
  ORIGINAL\_INDEX, as a dictionary, with a new ERROR text. \<^verbatim>\<open>.iloc[0]\<close> raises when no row
  compares equal (a missing index equals nothing), and this exception leaves the re-crawl.
\<close>

definition recrawl_error_row :: "dataframe \<Rightarrow> cell \<Rightarrow> string \<Rightarrow> string + pdict" where
  "recrawl_error_row error_df original_index e =
     (case find (\<lambda>x. cell_eq (x ''ORIGINAL_INDEX'') original_index) (rows error_df) of
        None \<Rightarrow> Inl ''IndexError: single positional indexer is out-of-bounds''
      | Some first_row \<Rightarrow>
          Inr ((to_dict (columns error_df) first_row)(''ERROR'' \<mapsto> Str (recrawl_failed_prefix @ e))))"

text \<open>
  The body of the loop over the records of a re-crawl batch: the results it appends. As in
  the crawl, the wait before the next record stands inside the \<^verbatim>\<open>try\<close>, after the product
  data have been appended; \<open>wait_follows\<close> is the test \<^verbatim>\<open>idx < len(batch_df) - 1\<close> on the label
  of the row.
\<close>

definition recrawl_record ::
  "runtime \<Rightarrow> dataframe \<Rightarrow> visit \<Rightarrow> bool \<Rightarrow> (string \<Rightarrow> cell) \<Rightarrow> string + pdict list" where
  "recrawl_record rt error_df v wait_follows r =
     (let url = r ''URL'';
          original_index = r ''ORIGINAL_INDEX'';
          prod_id = (if ''PROD_ID'' \<in> columns error_df then r ''PROD_ID'' else PyNone)
      in case recrawl_try rt v url original_index prod_id of
           Inl e \<Rightarrow>
             (case recrawl_error_row error_df original_index e of
                Inl x \<Rightarrow> Inl x
              | Inr error_row \<Rightarrow> Inr [error_row])
         | Inr product_data \<Rightarrow>
             if wait_follows then
               (case wait_error v of
                  None \<Rightarrow> Inr [product_data]
                | Some e \<Rightarrow>
                    (case recrawl_error_row error_df original_index e of
                       Inl x \<Rightarrow> Inl x
                     | Inr error_row \<Rightarrow> Inr [product_data, error_row]))
             else Inr [product_data])"

text \<open>
  The records of one re-crawl batch, in order, each with its label; \<open>pos\<close> counts the
  records re-crawled so far, \<open>batch_len\<close> is \<^verbatim>\<open>len(batch_df)\<close>.
\<close>

fun recrawl_rows ::
  "runtime \<Rightarrow> dataframe \<Rightarrow> int \<Rightarrow> nat \<Rightarrow> (int \<times> (string \<Rightarrow> cell)) list \<Rightarrow> pdict list
     \<Rightarrow> string + pdict list" where
  "recrawl_rows rt error_df batch_len pos [] batch_results = Inr batch_results"
| "recrawl_rows rt error_df batch_len pos ((idx, r) # rest) batch_results =
     (case recrawl_record rt error_df (rt_resite rt pos) (idx < batch_len - 1) r of
        Inl e \<Rightarrow> Inl e
      | Inr appended \<Rightarrow>
          recrawl_rows rt error_df batch_len (pos + 1) rest (batch_results @ appended))"

text \<open>
  The loop \<^verbatim>\<open>for i in range(0, len(recrawl_df), batch_size)\<close>; \<^verbatim>\<open>range\<close> raises for a step of 0
  and is empty for a negative step.
\<close>

function recrawl_batches ::
  "runtime \<Rightarrow> dataframe \<Rightarrow> int \<Rightarrow> nat \<Rightarrow> pdict list \<Rightarrow> string + pdict list" where
  "recrawl_batches rt error_df batch_size i recrawled_results =
     (if batch_size \<le> 0 then Inr recrawled_results
      else if i < length (rows error_df) then
        (let batch_df = take (nat batch_size)
                          (drop i (zip (row_labels error_df) (rows error_df)))
         in case recrawl_rows rt error_df (int (length batch_df)) i batch_df [] of
              Inl e \<Rightarrow> Inl e
            | Inr batch_results \<Rightarrow>
                recrawl_batches rt error_df batch_size (i + nat batch_size)
                  (recrawled_results @ batch_results))
      else Inr recrawled_results)"
  by pat_completeness auto
termination
  by (relation "measure (\<lambda>(rt, error_df, batch_size, i, recrawled_results).
                           length (rows error_df) - i)") auto

declare recrawl_batches.simps [simp del]

definition recrawl_error_urls :: "runtime \<Rightarrow> dataframe \<Rightarrow> int \<Rightarrow> string + pdict list" where
  "recrawl_error_urls rt error_df batch_size =
     (if length (rows error_df) = 0 then Inr []
      else if ''URL'' \<notin> columns error_df then Inl ''KeyError: URL''
      else if ''ORIGINAL_INDEX'' \<notin> columns error_df then Inl ''KeyError: ORIGINAL_INDEX''
      else if batch_size = 0 then Inl ''ValueError''
      else recrawl_batches rt error_df batch_size 0 [])"

text \<open>The statistics kept by the validator; all are 0 when it is created.\<close>

record validator_stats =
  n_total_records :: nat
  n_error_records :: nat
  n_recrawled_records :: nat
  n_fixed_records :: nat
  n_remaining_errors :: nat

definition initial_stats :: validator_stats where
  "initial_stats =
     \<lparr>n_total_records = 0, n_error_records = 0, n_recrawled_records = 0, n_fixed_records = 0,
      n_remaining_errors = 0\<rparr>"

text \<open>
  validate\_and\_recrawl: the returned flag, the files afterwards and the statistics. The
  store is read with \<^verbatim>\<open>pd.read_excel\<close>, and what was read is written to the backup and,
  merged or not, to the validated file. Every exception inside ends the validation with
  \<^verbatim>\<open>False\<close>.
\<close>

definition validate_and_recrawl ::
  "runtime \<Rightarrow> world \<Rightarrow> string \<Rightarrow> int \<Rightarrow> bool \<times> world \<times> validator_stats" where
  "validate_and_recrawl rt w result_file batch_size =
     (case read_sheet w result_file of
        None \<Rightarrow> (False, w, initial_stats)
      | Some df \<Rightarrow>
          (let stats1 = initial_stats\<lparr>n_total_records := length (rows df)\<rparr>;
               orig_backup_file = str_replace ''.xlsx'' ''_original.xlsx'' result_file;
               w1 = write_sheet w orig_backup_file df;
               error_df = identify_error_records df;
               stats2 = stats1\<lparr>n_error_records := length (rows error_df)\<rparr>
           in if n_error_records stats2 = 0 then
                (let validated_file = str_replace ''.xlsx'' ''_validated.xlsx'' result_file
                 in (True, write_sheet w1 validated_file df, stats2))
              else
                (case recrawl_error_urls rt error_df batch_size of
                   Inl e \<Rightarrow> (False, w1, stats2)
                 | Inr recrawled \<Rightarrow>
                     (let fixed_count = length (filter (\<lambda>r. \<not> has_error_marker r) recrawled);
                          stats3 = stats2\<lparr>n_recrawled_records := length recrawled,
                                          n_fixed_records := fixed_count,
                                          n_remaining_errors := length recrawled - fixed_count\<rparr>
                      in case update_dataframe df recrawled of
                           Inl e \<Rightarrow> (False, w1, stats3)
                         | Inr updated_df \<Rightarrow>
                             (let validated_file =
                                    str_replace ''.xlsx'' (''_validated_'' @ rt_today rt @ ''.xlsx'')
                                      result_file
                              in (True, write_sheet w1 validated_file updated_df, stats3))))))"

section \<open>The run (CoupangCrawler.process\_urls)\<close>

text \<open>\<^verbatim>\<open>df.iloc[start:stop]\<close>: negative bounds count from the end, all bounds are clamped.\<close>

definition py_slice :: "'a list \<Rightarrow> int \<Rightarrow> int \<Rightarrow> 'a list" where
  "py_slice xs start stop =
     (let n = int (length xs);
          lo = (if start < 0 then max 0 (start + n) else min start n);
          hi = (if stop < 0 then max 0 (stop + n) else min stop n)
      in take (nat (hi - lo)) (drop (nat lo) xs))"

text \<open>\<^verbatim>\<open>batch_size or config.get("batch_size", 15)\<close>: \<^verbatim>\<open>None\<close> and 0 are both false.\<close>

definition resolve_batch_size :: "config \<Rightarrow> int option \<Rightarrow> int" where
  "resolve_batch_size cfg batch_size =
     (case batch_size of
        Some b \<Rightarrow> if b \<noteq> 0 then b
                  else (case cfg_batch_size cfg of None \<Rightarrow> 15 | Some c \<Rightarrow> c)
      | None \<Rightarrow> (case cfg_batch_size cfg of None \<Rightarrow> 15 | Some c \<Rightarrow> c))"

definition output_path :: "runtime \<Rightarrow> config \<Rightarrow> string" where
  "output_path rt cfg =
     ''RAW/'' @ rt_today rt @ ''_''
     @ (case cfg_output_basename cfg of None \<Rightarrow> ''coupang_results'' | Some b \<Rightarrow> b) @ ''.xlsx''"

text \<open>
  The end of a completed run: the reset of the status file, then the validation of the
  output store when it is enabled and the store exists.
\<close>

definition finish_run :: "runtime \<Rightarrow> world \<Rightarrow> string \<Rightarrow> bool \<Rightarrow> world" where
  "finish_run rt w output_file auto_validate =
     (let w1 = reset_status rt w
      in if auto_validate \<and> output_file \<in> dom (sheets w1)
         then fst (snd (validate_and_recrawl rt w1 output_file 5))
         else w1)"

text \<open>
  One pass through the body of the batch loop, up to the exit on a block: the checkpoint
  for the batch about to run, the batch, the append to the output store, then the
  checkpoint after the batch or the checkpoint of the block. An exception that leaves
  \_process\_batch is caught by the handler around the whole run, which ends it.
\<close>

datatype step = Continue world | Stop world

definition batch_step ::
  "runtime \<Rightarrow> string \<Rightarrow> int \<Rightarrow> int \<Rightarrow> dataframe \<Rightarrow> string \<Rightarrow> int \<Rightarrow> world \<Rightarrow> step" where
  "batch_step rt xlsx_file_path batch_size start_index df_to_process output_file batch_idx w =
     (let total_urls = int (length (rows df_to_process));
          batch_start = batch_idx * batch_size;
          batch_end = min (batch_start + batch_size) total_urls;
          w1 = save_status rt w xlsx_file_path batch_idx (start_index + batch_start) None
      in case process_batch rt df_to_process batch_start batch_end start_index of
           Inl e \<Rightarrow> Stop w1
         | Inr (blocked, batch_results, blocked_idx) \<Rightarrow>
             (let w2 = (if batch_results \<noteq> []
                        then save_results_to_single_file w1 batch_results output_file else w1)
              in if \<not> blocked then
                   Continue (save_status rt w2 xlsx_file_path (batch_idx + 1)
                               (start_index + batch_end) None)
                 else
                   (case blocked_idx of
                      Some b \<Rightarrow>
                        Stop (save_status rt w2 xlsx_file_path batch_idx (start_index + batch_start)
                                (Some (start_index + batch_start + b)))
                    | None \<Rightarrow> Stop w2)))"

text \<open>
  The batch loop. With a batch size that is not positive the loop of the source does not
  end; the value \<open>None\<close> stands for a run that does not return.
\<close>

partial_function (option) batch_loop ::
  "runtime \<Rightarrow> string \<Rightarrow> int \<Rightarrow> int \<Rightarrow> dataframe \<Rightarrow> string \<Rightarrow> bool \<Rightarrow> int \<Rightarrow> world \<Rightarrow> world option"
where
  "batch_loop rt xlsx_file_path batch_size start_index df_to_process output_file auto_validate
       batch_idx w =
     (if batch_idx * batch_size < int (length (rows df_to_process)) then
        (case batch_step rt xlsx_file_path batch_size start_index df_to_process output_file
                batch_idx w of
           Stop w' \<Rightarrow> Some w'
         | Continue w' \<Rightarrow>
             if (batch_idx + 1) * batch_size \<ge> int (length (rows df_to_process))
             then Some (finish_run rt w' output_file auto_validate)
             else batch_loop rt xlsx_file_path batch_size start_index df_to_process output_file
                    auto_validate (batch_idx + 1) w')
      else Some w)"

text \<open>
  process\_urls: the files after the run. It returns early when the input file is missing
  or has no URL column. The window keeps the columns of the input list; its index is reset.
\<close>

definition process_urls ::
  "runtime \<Rightarrow> config \<Rightarrow> world \<Rightarrow> string \<Rightarrow> int option \<Rightarrow> int \<Rightarrow> int option \<Rightarrow> bool \<Rightarrow> bool
     \<Rightarrow> world option" where
  "process_urls rt cfg w xlsx_file_path batch_size start_index end_index auto_restart auto_validate =
     (case read_sheet w xlsx_file_path of
        None \<Rightarrow> Some w
      | Some df \<Rightarrow>
          if ''URL'' \<notin> columns df then Some w
          else
            (let end_index' = (case end_index of
                                 None \<Rightarrow> int (length (rows df))
                               | Some e \<Rightarrow> min e (int (length (rows df))));
                 start_index' = resolve_start_index auto_restart
                                  (if auto_restart then load_status rt w else None)
                                  xlsx_file_path start_index;
                 sliced = py_slice (rows df) start_index' end_index';
                 df_to_process = df\<lparr>rows := sliced, row_labels := range_index (length sliced)\<rparr>
             in batch_loop rt xlsx_file_path (resolve_batch_size cfg batch_size) start_index'
                  df_to_process (output_path rt cfg) auto_validate 0 w))"

subsection \<open>Notions used in the properties\<close>

text \<open>
  The outcome of the loop body for the record at position \<open>idx\<close> of the window
  \<open>df_to_process\<close>, in a batch that ends before \<open>batch_end\<close>, and the rows it appends.
\<close>

definition record_outcome :: "runtime \<Rightarrow> dataframe \<Rightarrow> int \<Rightarrow> int \<Rightarrow> int \<Rightarrow> outcome" where
  "record_outcome rt df_to_process start_index batch_end idx =
     (let r = rows df_to_process ! nat idx
      in process_url rt (rt_site rt idx) (idx < batch_end - 1) (r ''URL'') (start_index + idx)
           (if ''PROD_ID'' \<in> columns df_to_process then r ''PROD_ID'' else PyNone))"

fun the_rows :: "outcome \<Rightarrow> pdict list" where
  "the_rows (Rows appended) = appended"
| "the_rows Blocked = []"

definition record_rows :: "runtime \<Rightarrow> dataframe \<Rightarrow> int \<Rightarrow> int \<Rightarrow> int \<Rightarrow> pdict list" where
  "record_rows rt df_to_process start_index batch_end idx =
     the_rows (record_outcome rt df_to_process start_index batch_end idx)"

text \<open>
  The same in a run with batches of \<open>batch_size\<close> records: position \<open>idx\<close> lies in the batch
  numbered \<open>idx div batch_size\<close>, which ends at the next multiple of the batch size or at
  the end of the window.
\<close>

definition batch_end_at :: "dataframe \<Rightarrow> int \<Rightarrow> int \<Rightarrow> int" where
  "batch_end_at df_to_process batch_size idx =
     min ((idx div batch_size) * batch_size + batch_size) (int (length (rows df_to_process)))"

definition run_outcome :: "runtime \<Rightarrow> dataframe \<Rightarrow> int \<Rightarrow> int \<Rightarrow> int \<Rightarrow> outcome" where
  "run_outcome rt df_to_process start_index batch_size idx =
     record_outcome rt df_to_process start_index (batch_end_at df_to_process batch_size idx) idx"

definition run_rows :: "runtime \<Rightarrow> dataframe \<Rightarrow> int \<Rightarrow> int \<Rightarrow> int \<Rightarrow> pdict list" where
  "run_rows rt df_to_process start_index batch_size idx = the_rows (run_outcome rt df_to_process start_index batch_size idx)"

text \<open>
  The rows that a spreadsheet file holds, and the rows that the program reads from it;
  none when the file does not exist. \<open>read_dict\<close> is a result row as it is read back from a
  file it was written to.
\<close>

definition stored_rows :: "world \<Rightarrow> string \<Rightarrow> (string \<Rightarrow> cell) list" where
  "stored_rows w path = (case sheets w path of None \<Rightarrow> [] | Some sheet \<Rightarrow> rows sheet)"

definition read_rows :: "world \<Rightarrow> string \<Rightarrow> (string \<Rightarrow> cell) list" where
  "read_rows w path = (case read_sheet w path of None \<Rightarrow> [] | Some df \<Rightarrow> rows df)"

definition read_dict :: "pdict \<Rightarrow> string \<Rightarrow> cell" where
  "read_dict d c = read_cell (row_of_dict d c)"

text \<open>
  The checkpoints of batch \<open>k\<close> as the specification describes them: the one written before
  the batch runs, the one written after it has completed (with the window end as upper
  bound), and the one written when a block is detected at relative position \<open>i\<close>.
\<close>

definition pre_doc :: "string \<Rightarrow> int \<Rightarrow> int \<Rightarrow> int \<Rightarrow> checkpoint" where
  "pre_doc f start_index batch_size k =
     \<lparr>file_path = f, last_batch = k, last_index = start_index + k * batch_size,
      blocked_url_idx = None\<rparr>"

definition post_doc :: "string \<Rightarrow> int \<Rightarrow> int \<Rightarrow> int \<Rightarrow> int \<Rightarrow> checkpoint" where
  "post_doc f start_index batch_size total_urls k =
     \<lparr>file_path = f, last_batch = k + 1,
      last_index = start_index + min ((k + 1) * batch_size) total_urls, blocked_url_idx = None\<rparr>"

definition blocked_doc :: "string \<Rightarrow> int \<Rightarrow> int \<Rightarrow> int \<Rightarrow> int \<Rightarrow> checkpoint" where
  "blocked_doc f start_index batch_size k i =
     \<lparr>file_path = f, last_batch = k, last_index = start_index + k * batch_size,
      blocked_url_idx = Some (start_index + k * batch_size + i)\<rparr>"

text \<open>
  The files after the first \<open>m\<close> passes through the body of the batch loop, when each of
  them completed its batch; \<open>None\<close> when one of them ended the run.
\<close>

primrec after_batches ::
  "runtime \<Rightarrow> string \<Rightarrow> int \<Rightarrow> int \<Rightarrow> dataframe \<Rightarrow> string \<Rightarrow> nat \<Rightarrow> world \<Rightarrow> world option" where
  "after_batches rt xlsx_file_path batch_size start_index df_to_process output_file 0 w = Some w"
| "after_batches rt xlsx_file_path batch_size start_index df_to_process output_file (Suc m) w =
     (case after_batches rt xlsx_file_path batch_size start_index df_to_process output_file m w of
        None \<Rightarrow> None
      | Some w' \<Rightarrow>
          (case batch_step rt xlsx_file_path batch_size start_index df_to_process output_file
                  (int m) w' of
             Continue w'' \<Rightarrow> Some w''
           | Stop w'' \<Rightarrow> None))"




definition result_keys :: "string set" where
  "result_keys =
     {''URL'', ''ORIGINAL_INDEX'', ''COUPANG_PROD_NAME'', ''PRICE'', ''ORIGIN_PRICE'', ''COUPON'',
      ''COUPON_PRICE'', ''AC_PRICE'', ''EXTRACTION_TIME'', ''ERROR''}"


definition sentinel_filled :: "pdict \<Rightarrow> bool" where
  "sentinel_filled r =
     (r ''COUPANG_PROD_NAME'' = Some (Str ''NA'') \<and> r ''PRICE'' = Some (Str ''NA'')
      \<and> r ''ORIGIN_PRICE'' = Some (Str ''NA'') \<and> r ''COUPON'' = Some (Num 0)
      \<and> r ''COUPON_PRICE'' = Some (Str ''NA'') \<and> r ''AC_PRICE'' = Some (Str ''NA''))"

text \<open>
  The window of a run: its resolved start index and the slice of the input list that the
  run processes, as process\_urls computes them.
\<close>

definition window_start :: "runtime \<Rightarrow> world \<Rightarrow> string \<Rightarrow> int \<Rightarrow> bool \<Rightarrow> int" where
  "window_start rt w xlsx_file_path start_index auto_restart =
     resolve_start_index auto_restart (if auto_restart then load_status rt w else None)
       xlsx_file_path start_index"

definition window :: "dataframe \<Rightarrow> int \<Rightarrow> int option \<Rightarrow> dataframe" where
  "window df start end_index =
     (let sliced = py_slice (rows df) start
                     (case end_index of
                        None \<Rightarrow> int (length (rows df))
                      | Some e \<Rightarrow> min e (int (length (rows df))))
      in df\<lparr>rows := sliced, row_labels := range_index (length sliced)\<rparr>)"

subsection \<open>A sample environment\<close>

text \<open>
  A visit that succeeds at once: the page loads with status 200, shows every block
  indicator, and the extraction finds a name and a price, no coupon and no AppleCare
  price.
\<close>

definition good_page :: page where
  "good_page =
     \<lparr>page_content = Inr ''<html><body>ok</body></html>'', page_count = all_counts 1,
      page_title = Inr ''Coupang''\<rparr>"

definition good_goto :: "nat \<Rightarrow> string + response option" where
  "good_goto n = Inr (Some response_200)"

definition good_findings :: findings where
  "good_findings =
     \<lparr>found_name = Inr (Some ''Phone''), found_price = Some 4200, found_origin_price = None,
      coupon_exists = Inr False, found_coupon_price = None, found_ac_price = None,
      ac_regex_price = Inr None\<rparr>"

definition good_visit :: visit where
  "good_visit =
     \<lparr>setup_error = None, goto_result = good_goto, loaded_page = good_page,
      page_findings = good_findings, wait_error = None\<rparr>"

text \<open>A visit on which the site answers with its block page (status 200, nothing to see).\<close>

definition blocked_visit :: visit where
  "blocked_visit =
     \<lparr>setup_error = None, goto_result = good_goto,
      loaded_page = \<lparr>page_content = Inr ''<html>access denied</html>'', page_count = all_counts 0,
                     page_title = Inr ''Coupang''\<rparr>,
      page_findings = good_findings, wait_error = None\<rparr>"






definition all_good :: "int \<Rightarrow> visit" where
  "all_good idx = good_visit"

definition all_good_again :: "nat \<Rightarrow> visit" where
  "all_good_again n = good_visit"

text \<open>The process runs in the directory of \<^verbatim>\<open>crawler.py\<close>, as \<^verbatim>\<open>python crawler.py\<close> does.\<close>

definition sample_runtime :: runtime where
  "sample_runtime =
     \<lparr>rt_lower = id, rt_now = ''2025-04-25 10:00:00'', rt_today = ''2025-04-25'',
      rt_selectors = Map.empty, rt_base_dir = ''/app'', rt_cwd = ''/app'',
      rt_site = all_good, rt_resite = all_good_again\<rparr>"

text \<open>
  An output store as the crawl writes it for one record visited by \<open>good_visit\<close>: the product
  has no AppleCare price, so its AC\_PRICE cell holds the text \<^verbatim>\<open>NA\<close>. The store has no
  error record. \<open>crawled_world\<close> holds only this store.
\<close>

definition crawled_row :: pdict where
  "crawled_row =
     [''URL'' \<mapsto> Str ''https://shop.example/a'', ''ORIGINAL_INDEX'' \<mapsto> Num 0,
      ''COUPANG_PROD_NAME'' \<mapsto> Str ''Phone'', ''PRICE'' \<mapsto> Num 4200,
      ''ORIGIN_PRICE'' \<mapsto> Num 4200, ''COUPON'' \<mapsto> Num 0, ''COUPON_PRICE'' \<mapsto> PyNone,
      ''AC_PRICE'' \<mapsto> Str ''NA'', ''EXTRACTION_TIME'' \<mapsto> Str ''2025-04-25 10:00:00'',
      ''DATE'' \<mapsto> Str ''2025-04-25'']"

definition crawled_store :: dataframe where
  "crawled_store = to_excel (dataframe_of_dicts [crawled_row])"

definition crawled_world :: world where
  "crawled_world =
     \<lparr>status_docs = Map.empty, sheets = [''RAW/out.xlsx'' \<mapsto> crawled_store], status_log = []\<rparr>"

subsection \<open>A sample run\<close>

text \<open>
  An input list of five records, a configuration with batches of two, and the files before
  the first run: the input list, and the status document in \<^verbatim>\<open>config/\<close> in its empty state
  (the module reads it when it is imported, so it exists).
\<close>

definition urls_sheet :: dataframe where
  "urls_sheet =
     \<lparr>columns = {''URL''},
      rows = [row_of_dict [''URL'' \<mapsto> Str ''https://shop.example/a''],
              row_of_dict [''URL'' \<mapsto> Str ''https://shop.example/b''],
              row_of_dict [''URL'' \<mapsto> Str ''https://shop.example/c''],
              row_of_dict [''URL'' \<mapsto> Str ''https://shop.example/d''],
              row_of_dict [''URL'' \<mapsto> Str ''https://shop.example/e'']],
      row_labels = [0, 1, 2, 3, 4]\<rparr>"

definition sample_config :: config where
  "sample_config = \<lparr>cfg_batch_size = Some 2, cfg_output_basename = None\<rparr>"

definition start_world :: world where
  "start_world =
     \<lparr>status_docs = [''/app/config/crawler_status.json'' \<mapsto> initial_status],
      sheets = [''urls.xlsx'' \<mapsto> urls_sheet], status_log = []\<rparr>"

text \<open>The same site, except that it answers the fourth record (position 3) with its block page.\<close>

definition block_at_3 :: "int \<Rightarrow> visit" where
  "block_at_3 idx = (if idx = 3 then blocked_visit else good_visit)"

definition blocking_runtime :: runtime where
  "blocking_runtime = sample_runtime\<lparr>rt_site := block_at_3\<rparr>"

section \<open>Properties of block detection\<close>

lemma str_contains_iff: "str_contains s sub \<longleftrightarrow> (\<exists>a b. s = a @ sub @ b)"
proof (induction s)
  case Nil
  then show ?case by simp
next
  case (Cons c cs)
  show ?case
  proof
    assume "str_contains (c # cs) sub"
    then consider "prefix sub (c # cs)" | "str_contains cs sub" by auto
    then show "\<exists>a b. c # cs = a @ sub @ b"
    proof cases
      case 1
      then obtain b where "c # cs = sub @ b" by (auto simp: prefix_def)
      then have "c # cs = [] @ sub @ b" by simp
      then show ?thesis by blast
    next
      case 2
      with Cons.IH obtain a b where "cs = a @ sub @ b" by blast
      then have "c # cs = (c # a) @ sub @ b" by simp
      then show ?thesis by blast
    qed
  next
    assume "\<exists>a b. c # cs = a @ sub @ b"
    then obtain a b where ab: "c # cs = a @ sub @ b" by blast
    show "str_contains (c # cs) sub"
    proof (cases a)
      case Nil
      with ab have "prefix sub (c # cs)" by (simp add: prefix_def)
      then show ?thesis by simp
    next
      case (Cons x a')
      with ab have "cs = a' @ sub @ b" by simp
      with Cons.IH have "str_contains cs sub" by blast
      then show ?thesis by simp
    qed
  qed
qed

lemma pattern_found_iff:
  "pattern_found lower ps html = list_ex (\<lambda>p. str_contains (lower html) (lower p)) ps"
  by (induction ps) auto

lemma count_missing_eq:
  "count_missing pg sels m = m + length (filter (counted_missing pg) sels)"
  by (induction sels arbitrary: m) (auto simp: counted_missing_def split: sum.splits)

lemma title_suspicious_iff: "title_suspicious t = list_ex (str_contains t) title_keywords"
  by (simp add: title_suspicious_def title_keywords_def)

lemma detect_block_unfold:
  "detect_block lower selectors pg resp =
     (status_blocked resp \<or>
      (case page_content pg of
         Inl e \<Rightarrow> False
       | Inr html \<Rightarrow>
           pattern_found lower block_patterns html
           \<or> length (block_indicators selectors)
                \<le> 2 * length (filter (counted_missing pg) (block_indicators selectors))
           \<or> (case page_title pg of Inl e \<Rightarrow> False | Inr t \<Rightarrow> title_suspicious t)))"
  by (auto simp: detect_block_def block_indicators_def count_missing_eq Let_def
           split: sum.splits option.splits)

lemma status_blocked_iff:
  "status_blocked resp \<longleftrightarrow>
     (\<exists>r. resp = Some r \<and> (resp_status r = 403 \<or> resp_status r = 429 \<or> resp_status r = 503))"
  by (cases resp) (auto simp: status_blocked_def)

text \<open>
  Claim C4, as stated, fails: when reading the page markup raises, the verdict is false even
  though every block-indicator selector matches no element.
\<close>

theorem detect_block_spec_verdict_counterexample:
  "detect_block id Map.empty unreadable_page (Some response_200) = False
   \<and> spec_block_verdict id Map.empty unreadable_page (Some response_200) = True"
  by (simp add: detect_block_unfold status_blocked_def response_200_def unreadable_page_def
        spec_block_verdict_def block_indicators_def default_block_indicators_def
        matches_no_element_def all_counts_def)

text \<open>
  Claim C4, amended: the verdict of block detection is true if and only if the HTTP status
  is 403, 429 or 503, or the page markup can be read and one of these holds: the
  lower-cased markup contains a lower-cased block phrase; at least half of the configured
  block-indicator selectors match no element or cannot be counted; the title can be read
  and contains a suspicious keyword.
\<close>

theorem detect_block_verdict:
  "detect_block lower selectors pg resp \<longleftrightarrow>
     (\<exists>r. resp = Some r \<and> (resp_status r = 403 \<or> resp_status r = 429 \<or> resp_status r = 503))
     \<or> (\<exists>html. page_content pg = Inr html \<and>
           ((\<exists>p \<in> set block_patterns. \<exists>a b. lower html = a @ lower p @ b)
            \<or> length (block_indicators selectors)
                 \<le> 2 * length (filter (counted_missing pg) (block_indicators selectors))
            \<or> (\<exists>t. page_title pg = Inr t \<and>
                  (\<exists>k \<in> set title_keywords. \<exists>a b. t = a @ k @ b))))"
proof -
  have pat: "pattern_found lower block_patterns html
               \<longleftrightarrow> (\<exists>p \<in> set block_patterns. \<exists>a b. lower html = a @ lower p @ b)" for html
    by (simp add: pattern_found_iff list_ex_iff str_contains_iff)
  have tit: "title_suspicious t \<longleftrightarrow> (\<exists>k \<in> set title_keywords. \<exists>a b. t = a @ k @ b)" for t
    by (simp add: title_suspicious_iff list_ex_iff str_contains_iff)
  show ?thesis
    unfolding detect_block_unfold status_blocked_iff
    by (cases "page_content pg"; cases "page_title pg") (simp_all add: pat tit)
qed

text \<open>
  Claim C10, as stated, fails: when counting the selectors raises, each failing selector is
  counted as missing, and the verdict is true on an otherwise harmless page.
\<close>

theorem detect_block_count_error_counterexample:
  "detect_block id Map.empty uncountable_page (Some response_200) = True"
  by (simp add: detect_block_unfold status_blocked_def response_200_def uncountable_page_def
        block_indicators_def default_block_indicators_def counted_missing_def
        failing_counts_def)

text \<open>
  Claim C10, amended: an exception raised while reading the page markup is caught and the
  verdict is then the status check alone (false for any status other than 403, 429, 503);
  an exception raised while reading the title is caught and the title then contributes no
  signal; an exception raised while counting a selector is caught and the selector is
  counted as missing, so that when no selector can be counted the verdict is true as soon
  as the markup can be read.
\<close>

theorem detect_block_inspection_errors:
  "(isl (page_content pg) \<longrightarrow> detect_block lower selectors pg resp = status_blocked resp)
   \<and> (isl (page_title pg) \<longrightarrow>
        detect_block lower selectors pg resp =
          (status_blocked resp
           \<or> (\<exists>html. page_content pg = Inr html \<and>
                 (pattern_found lower block_patterns html
                  \<or> length (block_indicators selectors)
                       \<le> 2 * length (filter (counted_missing pg) (block_indicators selectors))))))
   \<and> ((\<forall>x \<in> set (block_indicators selectors). isl (page_count pg x)) \<longrightarrow>
        detect_block lower selectors pg resp = (status_blocked resp \<or> \<not> isl (page_content pg)))"
proof (intro conjI impI)
  assume "isl (page_content pg)"
  then show "detect_block lower selectors pg resp = status_blocked resp"
    by (cases "page_content pg") (simp_all add: detect_block_unfold)
next
  assume "isl (page_title pg)"
  then show "detect_block lower selectors pg resp =
          (status_blocked resp
           \<or> (\<exists>html. page_content pg = Inr html \<and>
                 (pattern_found lower block_patterns html
                  \<or> length (block_indicators selectors)
                       \<le> 2 * length (filter (counted_missing pg) (block_indicators selectors)))))"
    by (cases "page_content pg"; cases "page_title pg") (simp_all add: detect_block_unfold)
next
  assume all: "\<forall>x \<in> set (block_indicators selectors). isl (page_count pg x)"
  have "counted_missing pg x" if "x \<in> set (block_indicators selectors)" for x
  proof -
    from all that have "isl (page_count pg x)" by blast
    then show ?thesis
      by (cases "page_count pg x") (simp_all add: counted_missing_def)
  qed
  then have "filter (counted_missing pg) (block_indicators selectors) = block_indicators selectors"
    by simp
  then show "detect_block lower selectors pg resp = (status_blocked resp \<or> \<not> isl (page_content pg))"
    by (cases "page_content pg") (simp_all add: detect_block_unfold)
qed

theorem detect_block_inspection_errors_witness:
  "isl (page_content broken_page) \<and> isl (page_title broken_page)
   \<and> list_all isl (map (page_count broken_page) (block_indicators Map.empty))
   \<and> detect_block id Map.empty broken_page (Some response_200) = False"
  using detect_block_inspection_errors [of broken_page id Map.empty "Some response_200"]
  by (simp add: broken_page_def failing_counts_def status_blocked_def response_200_def
        block_indicators_def default_block_indicators_def)

section \<open>Properties of the checkpoint\<close>

text \<open>
  Claim C9: with auto-resume enabled and a saved checkpoint for the requested source file,
  the resolved starting index is the checkpoint's blocked\_url\_idx when that is present,
  otherwise its last\_index when that strictly exceeds the requested start index,
  otherwise the requested start index; with auto-resume disabled, with no checkpoint, or
  with a checkpoint for a different file, the requested start index is used unchanged.
\<close>

theorem resolve_start_index_cases:
  "(file_path st = f \<longrightarrow>
      resolve_start_index True (Some st) f s =
        (case blocked_url_idx st of
           Some b \<Rightarrow> b
         | None \<Rightarrow> if s < last_index st then last_index st else s))
   \<and> resolve_start_index False saved f s = s
   \<and> resolve_start_index auto_restart None f s = s
   \<and> (file_path st' \<noteq> f \<longrightarrow> resolve_start_index auto_restart (Some st') f s = s)"
  by (simp add: resolve_start_index_def)

theorem resolve_start_index_cases_witness:
  "file_path \<lparr>file_path = ''urls.xlsx'', last_batch = 2, last_index = 30, blocked_url_idx = None\<rparr>
     = ''urls.xlsx''
   \<and> file_path \<lparr>file_path = ''other.xlsx'', last_batch = 2, last_index = 30, blocked_url_idx = Some 17\<rparr>
     \<noteq> ''urls.xlsx''
   \<and> resolve_start_index True
        (Some \<lparr>file_path = ''urls.xlsx'', last_batch = 2, last_index = 30, blocked_url_idx = None\<rparr>)
        ''urls.xlsx'' 10 = 30
   \<and> resolve_start_index True
        (Some \<lparr>file_path = ''other.xlsx'', last_batch = 2, last_index = 30, blocked_url_idx = Some 17\<rparr>)
        ''urls.xlsx'' 10 = 10"
  using resolve_start_index_cases
    [of "\<lparr>file_path = ''urls.xlsx'', last_batch = 2, last_index = 30, blocked_url_idx = None\<rparr>"
        "''urls.xlsx''" 10 None
        True
        "\<lparr>file_path = ''other.xlsx'', last_batch = 2, last_index = 30, blocked_url_idx = Some 17\<rparr>"]
  by simp


section \<open>Properties of validation\<close>

lemma cell_eq_Str [simp]: "cell_eq x (Str s) \<longleftrightarrow> x = Str s"
  by (auto simp: cell_eq_def isna_def)

lemma select_map: "map fst (filter snd (zip xs (map P xs))) = filter P xs"
  by (induction xs) auto

lemma mask_or_map: "mask_or (map P xs) (map Q xs) = map (\<lambda>r. P r \<or> Q r) xs"
  by (induction xs) (auto simp: mask_or_def)

lemma rows_select_rows: "rows (select_rows df (map P (rows df))) = filter P (rows df)"
  by (simp add: select_rows_def select_map)

lemma rows_identify_error_records:
  "rows (identify_error_records df) = filter (spec_error_record (columns df)) (rows df)"
  unfolding identify_error_records_def error_conditions_def critical_fields_def
    col_notna_def col_eq_def
  apply (simp add: mask_or_map rows_select_rows empty_dataframe_def)
  apply (auto simp: spec_error_record_def NA_def intro: filter_cong)
  done

text \<open>
  Claim C1: the validator selects a row of the output store as an error record if and only
  if its ERROR column is set (holds a value that is not missing), or its PRICE,
  ORIGIN\_PRICE or COUPANG\_PROD\_NAME equals "NA", each test restricted to the columns
  the dataframe has; the selected rows are exactly these, in their order, so a row
  satisfying none of the tests is never selected for re-crawl.
\<close>

theorem identify_error_records_exact:
  "rows (identify_error_records df) = filter (spec_error_record (columns df)) (rows df)"
  by (rule rows_identify_error_records)

lemma assign_map:
  "map (\<lambda>(r, m). if m then f r else r) (zip xs (map P xs)) = map (\<lambda>r. if P r then f r else r) xs"
  by (induction xs) auto

lemma assign_map2:
  "map (\<lambda>(r, m). if m then f r else r) (zip (map g xs) (map P xs))
     = map (\<lambda>r. if P r then f (g r) else g r) xs"
  by (induction xs) auto

lemma assign_twice:
  "assign_under_mask (map P (rows df)) f2 (assign_under_mask (map P (rows df)) f1 df)
     = df\<lparr>rows := map (\<lambda>r. if P r then f2 (f1 r) else r) (rows df)\<rparr>"
proof -
  have "map (\<lambda>(r, m). if m then f2 r else r)
          (zip (map (\<lambda>r. if P r then f1 r else r) (rows df)) (map P (rows df)))
        = map (\<lambda>r. if P r then f2 (f1 r) else r) (rows df)"
    by (simp add: assign_map2)
  then show ?thesis
    by (simp add: assign_under_mask_def assign_map)
qed

lemma clear_overwrite:
  "clear_error cols (overwrite_row cols fixed_record r) = spec_merged_row cols fixed_record r"
  by (auto simp: fun_eq_iff clear_error_def overwrite_row_def spec_merged_row_def
           split: option.splits)

lemma mask_any_map: "mask_any (map P xs) \<longleftrightarrow> (\<exists>x \<in> set xs. P x)"
  by (simp add: mask_any_def list_ex_iff)

lemma update_record_rows:
  assumes "''ORIGINAL_INDEX'' \<in> columns df"
  shows "update_record df fixed_record =
           Inr (df\<lparr>rows := map (merge_row (columns df) fixed_record) (rows df)\<rparr>)"
proof (cases "fixed_record ''ORIGINAL_INDEX''")
  case None
  then have "merge_row (columns df) fixed_record = (\<lambda>r. r)"
    by (simp add: fun_eq_iff merge_row_def corresponds_def)
  with None show ?thesis by (simp add: update_record_def)
next
  case (Some oi)
  show ?thesis
  proof (cases "oi = PyNone")
    case True
    with Some have "merge_row (columns df) fixed_record = (\<lambda>r. r)"
      by (simp add: fun_eq_iff merge_row_def corresponds_def cell_eq_def isna_def)
    with Some True show ?thesis by (simp add: update_record_def)
  next
    case False
    have corr: "corresponds fixed_record r \<longleftrightarrow> cell_eq (r ''ORIGINAL_INDEX'') oi" for r
      using Some by (simp add: corresponds_def)
    show ?thesis
    proof (cases "has_error_marker fixed_record")
      case True
      then have "merge_row (columns df) fixed_record = (\<lambda>r. r)"
        by (simp add: fun_eq_iff merge_row_def)
      moreover from True
      have "\<not> (fixed_record ''ERROR'' = None \<or> fixed_record ''ERROR'' = Some PyNone)"
        by (auto simp: has_error_marker_def split: option.splits)
      ultimately show ?thesis
        using Some False assms by (auto simp: update_record_def Let_def)
    next
      case noerr: False
      then have ne: "fixed_record ''ERROR'' = None \<or> fixed_record ''ERROR'' = Some PyNone"
        by (auto simp: has_error_marker_def split: option.splits)
      show ?thesis
      proof (cases "\<exists>r \<in> set (rows df). cell_eq (r ''ORIGINAL_INDEX'') oi")
        case True
        have "map (\<lambda>r. if cell_eq (r ''ORIGINAL_INDEX'') oi
                then clear_error (columns df) (overwrite_row (columns df) fixed_record r)
                else r) (rows df)
              = map (merge_row (columns df) fixed_record) (rows df)"
          using noerr by (auto simp: merge_row_def corr clear_overwrite)
        with True ne Some False assms show ?thesis
          by (auto simp: update_record_def Let_def col_eq_def mask_any_map assign_twice)
      next
        case none: False
        then have "map (merge_row (columns df) fixed_record) (rows df) = rows df"
          by (auto simp: merge_row_def corr intro: map_idI)
        with none Some False assms show ?thesis
          by (simp add: update_record_def Let_def col_eq_def mask_any_map)
      qed
    qed
  qed
qed

lemma update_dataframe_rows:
  assumes "''ORIGINAL_INDEX'' \<in> columns df"
  shows "update_dataframe df fixed_records =
           Inr (df\<lparr>rows := map (\<lambda>r. fold (merge_row (columns df)) fixed_records r) (rows df)\<rparr>)"
  using assms
proof (induction fixed_records arbitrary: df)
  case Nil
  then show ?case by simp
next
  case (Cons a fixed_records)
  let ?df1 = "df\<lparr>rows := map (merge_row (columns df) a) (rows df)\<rparr>"
  have "''ORIGINAL_INDEX'' \<in> columns ?df1" using Cons.prems by simp
  from Cons.IH[OF this] Cons.prems show ?case
    by (simp add: update_record_rows o_def)
qed

lemma fold_merge_row_untouched:
  assumes "\<forall>fr \<in> set fixed_records. has_error_marker fr \<or> \<not> corresponds fr r"
  shows "fold (merge_row cols) fixed_records r = r"
  using assms
proof (induction fixed_records)
  case Nil
  then show ?case by simp
next
  case (Cons a fixed_records)
  then have "merge_row cols a r = r" by (auto simp: merge_row_def)
  with Cons show ?case by simp
qed

text \<open>
  The row that the handler of the re-crawl builds (after a failed page load, a block, or
  any other exception) is the original row with a new ERROR text, hence a result that
  carries an error marker.
\<close>

lemma failed_recrawl_has_error_marker:
  assumes "recrawl_error_row error_df original_index e = Inr error_row"
  shows "has_error_marker error_row"
  using assms
  by (auto simp: recrawl_error_row_def has_error_marker_def split: option.splits)

text \<open>
  Claim C7: the merge step (on an output store that has the ORIGINAL\_INDEX column)
  applies the re-crawled results to every row in turn, where a result with an error marker
  leaves the row as it is, and a result without one overwrites, in the rows whose
  ORIGINAL\_INDEX equals its own, every column it names, sets their ERROR marker to null,
  and leaves the other rows as they are. So the merge of a single result with an error
  marker leaves the dataframe, and thus every field of the row it corresponds to, exactly
  as it was; the merge of a single result without an error marker overwrites and clears
  the rows it corresponds to; and over any list of results a row is left as it was when
  every result that corresponds to it carries an error marker.
\<close>

theorem update_dataframe_merge_policy:
  assumes "''ORIGINAL_INDEX'' \<in> columns df"
  shows "update_dataframe df fixed_records =
           Inr (df\<lparr>rows := map (\<lambda>r. fold (merge_row (columns df)) fixed_records r) (rows df)\<rparr>)
    \<and> (has_error_marker failed \<longrightarrow>
         update_record df failed = Inr df \<and> update_dataframe df [failed] = Inr df)
    \<and> (\<not> has_error_marker fixed \<longrightarrow>
         update_dataframe df [fixed] =
           Inr (df\<lparr>rows := map (\<lambda>r. if corresponds fixed r
                                      then spec_merged_row (columns df) fixed r else r)
                              (rows df)\<rparr>))
    \<and> (\<exists>df'. update_dataframe df fixed_records = Inr df'
          \<and> columns df' = columns df \<and> length (rows df') = length (rows df)
          \<and> (\<forall>j < length (rows df).
                (\<forall>fr \<in> set fixed_records. has_error_marker fr \<or> \<not> corresponds fr (rows df ! j))
                \<longrightarrow> rows df' ! j = rows df ! j))"
proof (intro conjI impI)
  show "update_dataframe df fixed_records =
           Inr (df\<lparr>rows := map (\<lambda>r. fold (merge_row (columns df)) fixed_records r) (rows df)\<rparr>)"
    by (rule update_dataframe_rows [OF assms])
next
  assume "has_error_marker failed"
  then have "merge_row (columns df) failed = (\<lambda>r. r)"
    by (simp add: fun_eq_iff merge_row_def)
  then show "update_record df failed = Inr df" and "update_dataframe df [failed] = Inr df"
    by (simp_all add: update_record_rows [OF assms])
next
  assume "\<not> has_error_marker fixed"
  then have "merge_row (columns df) fixed
               = (\<lambda>r. if corresponds fixed r then spec_merged_row (columns df) fixed r else r)"
    by (simp add: fun_eq_iff merge_row_def)
  then show "update_dataframe df [fixed] =
           Inr (df\<lparr>rows := map (\<lambda>r. if corresponds fixed r
                                      then spec_merged_row (columns df) fixed r else r)
                              (rows df)\<rparr>)"
    by (simp add: update_record_rows [OF assms])
next
  let ?df' = "df\<lparr>rows := map (\<lambda>r. fold (merge_row (columns df)) fixed_records r) (rows df)\<rparr>"
  have "update_dataframe df fixed_records = Inr ?df'"
    by (rule update_dataframe_rows [OF assms])
  moreover have "columns ?df' = columns df" and "length (rows ?df') = length (rows df)"
    by simp_all
  moreover have "rows ?df' ! j = rows df ! j"
    if "j < length (rows df)"
      and "\<forall>fr \<in> set fixed_records. has_error_marker fr \<or> \<not> corresponds fr (rows df ! j)" for j
    using that by (simp add: fold_merge_row_untouched)
  ultimately show "\<exists>df'. update_dataframe df fixed_records = Inr df'
          \<and> columns df' = columns df \<and> length (rows df') = length (rows df)
          \<and> (\<forall>j < length (rows df).
                (\<forall>fr \<in> set fixed_records. has_error_marker fr \<or> \<not> corresponds fr (rows df ! j))
                \<longrightarrow> rows df' ! j = rows df ! j)"
    by blast
qed

theorem update_dataframe_merge_policy_witness:
  "''ORIGINAL_INDEX'' \<in> columns sample_store
   \<and> has_error_marker sample_failed
   \<and> has_error_marker sample_nan_error
   \<and> \<not> has_error_marker sample_fixed
   \<and> update_dataframe sample_store [sample_failed] = Inr sample_store
   \<and> update_dataframe sample_store [sample_nan_error] = Inr sample_store
   \<and> (\<exists>df'. update_dataframe sample_store [sample_fixed] = Inr df'
         \<and> map (\<lambda>r. r ''PRICE'') (rows df') = [Num 4200, Num 5000]
         \<and> map (\<lambda>r. r ''ERROR'') (rows df') = [PyNone, NaN])
   \<and> (\<exists>df'. update_dataframe sample_store [sample_failed, sample_fixed, sample_nan_error] = Inr df'
         \<and> map (\<lambda>r. r ''PRICE'') (rows df') = [Num 4200, Num 5000]
         \<and> map (\<lambda>r. r ''ERROR'') (rows df') = [PyNone, NaN]
         \<and> rows df' ! 1 = rows sample_store ! 1)"
proof -
  have c: "''ORIGINAL_INDEX'' \<in> columns sample_store"
    by (simp add: sample_store_def sample_columns_def)
  have e: "has_error_marker sample_failed"
    by (simp add: has_error_marker_def sample_failed_def)
  have e': "has_error_marker sample_nan_error"
    by (simp add: has_error_marker_def sample_nan_error_def)
  have n: "\<not> has_error_marker sample_fixed"
    by (simp add: has_error_marker_def sample_fixed_def)
  note pol = update_dataframe_merge_policy [OF c]
  from pol [of "[]" sample_failed sample_fixed] e
  have 1: "update_dataframe sample_store [sample_failed] = Inr sample_store"
    by blast
  from pol [of "[]" sample_nan_error sample_fixed] e'
  have 2: "update_dataframe sample_store [sample_nan_error] = Inr sample_store"
    by blast
  from pol [of "[]" sample_failed sample_fixed] n
  have "update_dataframe sample_store [sample_fixed] =
       Inr (sample_store\<lparr>rows := map (\<lambda>r. if corresponds sample_fixed r
                                      then spec_merged_row (columns sample_store) sample_fixed r else r)
                              (rows sample_store)\<rparr>)"
    by blast
  then have 3: "\<exists>df'. update_dataframe sample_store [sample_fixed] = Inr df'
         \<and> map (\<lambda>r. r ''PRICE'') (rows df') = [Num 4200, Num 5000]
         \<and> map (\<lambda>r. r ''ERROR'') (rows df') = [PyNone, NaN]"
    by (simp add: sample_store_def sample_columns_def sample_row_1_def sample_row_2_def
          sample_fixed_def corresponds_def spec_merged_row_def row_of_dict_def cell_eq_def
          isna_def)
  from pol [of "[sample_failed, sample_fixed, sample_nan_error]" sample_failed sample_fixed]
  have "update_dataframe sample_store [sample_failed, sample_fixed, sample_nan_error] =
       Inr (sample_store\<lparr>rows := map (\<lambda>r. fold (merge_row (columns sample_store))
                                            [sample_failed, sample_fixed, sample_nan_error] r)
                              (rows sample_store)\<rparr>)"
    by blast
  then have 4: "\<exists>df'. update_dataframe sample_store [sample_failed, sample_fixed, sample_nan_error] = Inr df'
         \<and> map (\<lambda>r. r ''PRICE'') (rows df') = [Num 4200, Num 5000]
         \<and> map (\<lambda>r. r ''ERROR'') (rows df') = [PyNone, NaN]
         \<and> rows df' ! 1 = rows sample_store ! 1"
    using e e' n
    by (simp add: merge_row_def sample_store_def sample_columns_def sample_row_1_def
          sample_row_2_def sample_fixed_def corresponds_def spec_merged_row_def row_of_dict_def
          cell_eq_def isna_def)
  from c e e' n 1 2 3 4 show ?thesis by blast
qed

lemma read_sheet_write_sheet:
  "read_sheet (write_sheet w path df) path' =
     (if path' = path then Some (read_excel (to_excel df)) else read_sheet w path')"
  by (simp add: read_sheet_def write_sheet_def)

lemma sheets_write_sheet:
  "sheets (write_sheet w path df) path' = (if path' = path then Some (to_excel df) else sheets w path')"
  by (simp add: write_sheet_def)

lemma write_sheet_simps:
  "status_docs (write_sheet w path df) = status_docs w"
  "status_log (write_sheet w path df) = status_log w"
  by (simp_all add: write_sheet_def)

text \<open>
  Validation of a store in which the validator finds no error record: nothing is
  re-crawled, and the backup and the validated file receive the dataframe that was read
  from the store.
\<close>

lemma validate_without_error_records:
  assumes "read_sheet w result_file = Some df"
    and "list_all (\<lambda>r. \<not> spec_error_record (columns df) r) (rows df)"
  shows "validate_and_recrawl rt w result_file batch_size =
           (True,
            write_sheet (write_sheet w (str_replace ''.xlsx'' ''_original.xlsx'' result_file) df)
              (str_replace ''.xlsx'' ''_validated.xlsx'' result_file) df,
            initial_stats\<lparr>n_total_records := length (rows df)\<rparr>)"
proof -
  from assms(2) have "filter (spec_error_record (columns df)) (rows df) = []"
    by (induction "rows df") (auto simp: list_all_iff filter_empty_conv)
  then have none: "rows (identify_error_records df) = []"
    by (simp add: rows_identify_error_records)
  show ?thesis
    using assms(1) none
    by (simp add: validate_and_recrawl_def Let_def initial_stats_def)
qed

text \<open>
  Claim C8 fails on the code. The store \<open>crawled_store\<close>, as the crawl writes it for a
  product without an AppleCare price, has no error record. Validation re-crawls nothing
  and reports success, but the validated file it writes is not identical to the store:
  the store is loaded with \<^verbatim>\<open>pd.read_excel\<close>, which reads the text \<^verbatim>\<open>NA\<close> as a missing value,
  and the AC\_PRICE cell, which holds \<^verbatim>\<open>NA\<close> in the store, is empty in the validated file
  (and in the backup).
\<close>

theorem validated_copy_loses_sentinel:
  "list_all (\<lambda>r. \<not> spec_error_record (columns crawled_store) r) (rows crawled_store)
   \<and> fst (validate_and_recrawl sample_runtime crawled_world ''RAW/out.xlsx'' 5)
   \<and> n_error_records (snd (snd (validate_and_recrawl sample_runtime crawled_world ''RAW/out.xlsx'' 5))) = 0
   \<and> n_recrawled_records (snd (snd (validate_and_recrawl sample_runtime crawled_world ''RAW/out.xlsx'' 5))) = 0
   \<and> stored_rows crawled_world ''RAW/out.xlsx'' = rows crawled_store
   \<and> map (\<lambda>r. r ''AC_PRICE'') (rows crawled_store) = [Str ''NA'']
   \<and> map (\<lambda>r. r ''AC_PRICE'')
        (stored_rows (fst (snd (validate_and_recrawl sample_runtime crawled_world ''RAW/out.xlsx'' 5)))
           (str_replace ''.xlsx'' ''_validated.xlsx'' ''RAW/out.xlsx'')) = [NaN]
   \<and> sheets (fst (snd (validate_and_recrawl sample_runtime crawled_world ''RAW/out.xlsx'' 5)))
        (str_replace ''.xlsx'' ''_validated.xlsx'' ''RAW/out.xlsx'')
       \<noteq> sheets crawled_world ''RAW/out.xlsx''"
proof -
  let ?df = "read_excel crawled_store"
  have cols: "columns crawled_store
                = {''URL'', ''ORIGINAL_INDEX'', ''COUPANG_PROD_NAME'', ''PRICE'', ''ORIGIN_PRICE'',
                   ''COUPON'', ''COUPON_PRICE'', ''AC_PRICE'', ''EXTRACTION_TIME'', ''DATE''}"
    by (auto simp: crawled_store_def to_excel_def dataframe_of_dicts_def crawled_row_def
          split: if_splits)
  have a: "read_sheet crawled_world ''RAW/out.xlsx'' = Some ?df"
    by (simp add: read_sheet_def crawled_world_def)
  have s: "list_all (\<lambda>r. \<not> spec_error_record (columns crawled_store) r) (rows crawled_store)"
    unfolding cols
    by (simp add: crawled_store_def to_excel_def dataframe_of_dicts_def crawled_row_def
          spec_error_record_def row_of_dict_def write_cell_def isna_def)
  have b: "list_all (\<lambda>r. \<not> spec_error_record (columns ?df) r) (rows ?df)"
    by (simp add: read_excel_def cols)
       (simp add: crawled_store_def to_excel_def dataframe_of_dicts_def crawled_row_def
          spec_error_record_def row_of_dict_def write_cell_def read_cell_def isna_def
          default_na_values_def)
  note v = validate_without_error_records [OF a b, of sample_runtime 5]
  have ac: "map (\<lambda>r. r ''AC_PRICE'') (rows crawled_store) = [Str ''NA'']"
    by (simp add: crawled_store_def to_excel_def dataframe_of_dicts_def crawled_row_def
          row_of_dict_def write_cell_def isna_def)
  have ac': "map (\<lambda>r. r ''AC_PRICE'') (rows (to_excel ?df)) = [NaN]"
    by (simp add: to_excel_def read_excel_def cols)
       (simp add: crawled_store_def to_excel_def dataframe_of_dicts_def crawled_row_def
          row_of_dict_def write_cell_def read_cell_def isna_def default_na_values_def)
  have st: "stored_rows crawled_world ''RAW/out.xlsx'' = rows crawled_store"
    by (simp add: stored_rows_def crawled_world_def)
  have ne: "Some (to_excel ?df) \<noteq> sheets crawled_world ''RAW/out.xlsx''"
  proof
    assume "Some (to_excel ?df) = sheets crawled_world ''RAW/out.xlsx''"
    then have "to_excel ?df = crawled_store" by (simp add: crawled_world_def)
    with ac ac' show False by simp
  qed
  show ?thesis
    unfolding v using s ac ac' st ne
    by (simp add: stored_rows_def sheets_write_sheet initial_stats_def)
qed


section \<open>Properties of single records\<close>



text \<open>
  The extraction returns from the first pass of its retry loop: the handler that fills the
  result after three failed attempts is never reached.
\<close>

lemma extract_loop_first_pass:
  "extract_loop rt fd retry_count product_data =
     (extract_price_info fd (extract_product_name fd product_data))
       (''EXTRACTION_TIME'' \<mapsto> Str (rt_now rt), ''DATE'' \<mapsto> Str (rt_today rt))"
  by (subst extract_loop.simps) (simp add: extract_try_def)

lemma extract_price_info_other:
  assumes "k \<noteq> ''PRICE''" "k \<noteq> ''ORIGIN_PRICE''" "k \<noteq> ''COUPON''" "k \<noteq> ''COUPON_PRICE''"
    "k \<noteq> ''AC_PRICE''"
  shows "extract_price_info fd d k = d k"
  using assms by (simp add: extract_price_info_def Let_def split: sum.splits option.splits)


lemma extract_product_name_other:
  "k \<noteq> ''COUPANG_PROD_NAME'' \<Longrightarrow> extract_product_name fd d k = d k"
  by (simp add: extract_product_name_def split: sum.splits option.splits)


lemma add_prod_id_other: "k \<noteq> ''PROD_ID'' \<Longrightarrow> add_prod_id pid d k = d k"
  by (simp add: add_prod_id_def)

lemma extract_product_info_entries:
  "extract_product_info rt fd url oi pid ''URL'' = Some url"
  "extract_product_info rt fd url oi pid ''ORIGINAL_INDEX'' = Some oi"
  "extract_product_info rt fd url oi pid ''EXTRACTION_TIME'' = Some (Str (rt_now rt))"
  "extract_product_info rt fd url oi pid ''DATE'' = Some (Str (rt_today rt))"
  "extract_product_info rt fd url oi pid ''ERROR'' = None"
  by (simp_all add: extract_product_info_def extract_loop_first_pass extract_price_info_other
        extract_product_name_other add_prod_id_other)



lemma extract_product_info_no_marker:
  "\<not> has_error_marker (extract_product_info rt fd url oi pid)"
  by (simp add: has_error_marker_def extract_product_info_entries)


lemma error_data_shape:
  "result_keys \<subseteq> dom (error_data rt url oi pid e)"
  "sentinel_filled (error_data rt url oi pid e)"
  "has_error_marker (error_data rt url oi pid e)"
  "error_data rt url oi pid e ''ORIGINAL_INDEX'' = Some (Num oi)"
  "error_data rt url oi pid e ''URL'' = Some url"
  "error_data rt url oi pid e ''DATE'' = None"
  by (auto simp: error_data_def add_prod_id_def result_keys_def sentinel_filled_def
        has_error_marker_def)

lemma load_failed_data_shape:
  "load_failed_data rt url oi pid ''ORIGINAL_INDEX'' = Some (Num oi)"
  "load_failed_data rt url oi pid ''URL'' = Some url"
  by (auto simp: load_failed_data_def add_prod_id_def)

text \<open>
  The loop body appends one row or, when the wait after the record raises, two: the row of
  the extraction and an error row. Every row carries the URL and the ORIGINAL\_INDEX of
  the record. Whether the record is blocked does not depend on the wait.
\<close>

lemma process_url_cases:
  "process_url rt v wt url oi pid = Blocked
   \<or> (\<exists>r. process_url rt v wt url oi pid = Rows [r]
          \<and> r ''ORIGINAL_INDEX'' = Some (Num oi) \<and> r ''URL'' = Some url)
   \<or> (\<exists>r e. wt \<and> wait_error v = Some e
          \<and> process_url rt v wt url oi pid = Rows [r, error_data rt url oi pid e]
          \<and> r ''ORIGINAL_INDEX'' = Some (Num oi) \<and> r ''URL'' = Some url
          \<and> \<not> has_error_marker r)"
  by (auto simp: process_url_def Let_def error_data_shape load_failed_data_shape
        extract_product_info_entries extract_product_info_no_marker
        split: option.splits sum.splits)

lemma process_url_rows:
  assumes "process_url rt v wt url oi pid = Rows rs"
  shows "rs \<noteq> [] \<and> length rs \<le> 2
       \<and> list_all (\<lambda>r. r ''ORIGINAL_INDEX'' = Some (Num oi) \<and> r ''URL'' = Some url) rs
       \<and> (wait_error v = None \<or> \<not> wt \<longrightarrow> length rs = 1)"
  using process_url_cases[of rt v wt url oi pid] assms
  by (auto simp: error_data_shape)

lemma process_url_blocked_iff:
  "process_url rt v wt url oi pid = Blocked \<longleftrightarrow> process_url rt v wt' url oi pid = Blocked"
  by (auto simp: process_url_def Let_def split: option.splits sum.splits)




section \<open>Properties of a batch\<close>

lemma iloc_in_range:
  "0 \<le> idx \<Longrightarrow> idx < int (length xs) \<Longrightarrow> iloc xs idx = Inr (xs ! nat idx)"
  by (simp add: iloc_def)

lemma process_batch_loop_step:
  assumes "''URL'' \<in> columns df" "0 \<le> batch_start" "batch_start \<le> idx" "idx < batch_end"
    "batch_end \<le> int (length (rows df))"
  shows "process_batch_loop rt df start_index batch_start batch_end idx acc =
           (case record_outcome rt df start_index batch_end idx of
              Blocked \<Rightarrow> Inr (True, acc, Some (idx - batch_start))
            | Rows appended \<Rightarrow>
                process_batch_loop rt df start_index batch_start batch_end (idx + 1)
                  (acc @ appended))"
proof -
  have "idx - batch_start < int (length (rows df))" using assms by linarith
  moreover have "iloc (rows df) idx = Inr (rows df ! nat idx)"
    using assms by (intro iloc_in_range) linarith+
  ultimately show ?thesis
    using assms(1,4)
    by (subst process_batch_loop.simps) (simp add: Let_def record_outcome_def)
qed

lemma process_batch_loop_done:
  "batch_end \<le> idx \<Longrightarrow>
   process_batch_loop rt df start_index batch_start batch_end idx acc = Inr (False, acc, None)"
  by (subst process_batch_loop.simps) simp

lemma process_batch_loop_shape:
  assumes "''URL'' \<in> columns df" "0 \<le> batch_start" "batch_end \<le> int (length (rows df))"
    and "batch_start \<le> idx" "idx \<le> batch_end"
  shows "\<exists>blocked m. 0 \<le> m \<and> idx + m \<le> batch_end
     \<and> process_batch_loop rt df start_index batch_start batch_end idx acc
         = Inr (blocked,
                acc @ concat (map (record_rows rt df start_index batch_end) [idx..idx + m - 1]),
                if blocked then Some (idx + m - batch_start) else None)
     \<and> list_all (\<lambda>j. record_outcome rt df start_index batch_end j \<noteq> Blocked) [idx..idx + m - 1]
     \<and> (if blocked then record_outcome rt df start_index batch_end (idx + m) = Blocked
                        \<and> idx + m < batch_end
        else idx + m = batch_end)"
  using assms(4,5)
proof (induction "nat (batch_end - idx)" arbitrary: idx acc)
  case 0
  then have "batch_end \<le> idx" by simp
  then have "process_batch_loop rt df start_index batch_start batch_end idx acc = Inr (False, acc, None)"
    by (rule process_batch_loop_done)
  with 0 show ?case by (intro exI[of _ False] exI[of _ 0]) simp
next
  case (Suc n)
  then have lt: "idx < batch_end" by linarith
  have step: "process_batch_loop rt df start_index batch_start batch_end idx acc =
           (case record_outcome rt df start_index batch_end idx of
              Blocked \<Rightarrow> Inr (True, acc, Some (idx - batch_start))
            | Rows appended \<Rightarrow>
                process_batch_loop rt df start_index batch_start batch_end (idx + 1)
                  (acc @ appended))"
    using assms(1,2) Suc.prems(1) lt assms(3) by (rule process_batch_loop_step)
  show ?case
  proof (cases "record_outcome rt df start_index batch_end idx")
    case Blocked
    with step lt show ?thesis by (intro exI[of _ True] exI[of _ 0]) simp
  next
    case (Rows rs)
    have n: "n = nat (batch_end - (idx + 1))" using Suc.hyps(2) by linarith
    from Suc.hyps(1)[OF n, of "acc @ rs"] Suc.prems lt
    obtain blocked m where m: "0 \<le> m" "idx + 1 + m \<le> batch_end"
      and r: "process_batch_loop rt df start_index batch_start batch_end (idx + 1) (acc @ rs)
         = Inr (blocked,
                (acc @ rs) @ concat (map (record_rows rt df start_index batch_end)
                                       [idx + 1..idx + 1 + m - 1]),
                if blocked then Some (idx + 1 + m - batch_start) else None)"
      and o: "list_all (\<lambda>j. record_outcome rt df start_index batch_end j \<noteq> Blocked)
                [idx + 1..idx + 1 + m - 1]"
      and b: "if blocked then record_outcome rt df start_index batch_end (idx + 1 + m) = Blocked
                        \<and> idx + 1 + m < batch_end
        else idx + 1 + m = batch_end"
      by (auto simp: add.assoc)
    have up: "[idx..idx + m] = idx # [idx + 1..idx + m]"
      using m(1) by (simp add: upto_rec1)
    have rr: "record_rows rt df start_index batch_end idx = rs"
      using Rows by (simp add: record_rows_def)
    have e1: "idx + (m + 1) = idx + 1 + m" by simp
    show ?thesis
      apply (intro exI[of _ blocked] exI[of _ "m + 1"])
      unfolding e1
      using m r o b step Rows rr by (simp add: up)
  qed
qed

lemma process_batch_shape:
  assumes "''URL'' \<in> columns df" "0 \<le> batch_start" "batch_start \<le> batch_end"
    "batch_end \<le> int (length (rows df))"
  shows "\<exists>blocked batch_results blocked_idx m.
       process_batch rt df batch_start batch_end start_index
         = Inr (blocked, batch_results, blocked_idx)
     \<and> 0 \<le> m \<and> m \<le> batch_end - batch_start
     \<and> batch_results = concat (map (record_rows rt df start_index batch_end)
                                  [batch_start..batch_start + m - 1])
     \<and> list_all (\<lambda>j. record_outcome rt df start_index batch_end j \<noteq> Blocked)
          [batch_start..batch_start + m - 1]
     \<and> (if blocked
        then blocked_idx = Some m
             \<and> record_outcome rt df start_index batch_end (batch_start + m) = Blocked
        else blocked_idx = None \<and> m = batch_end - batch_start)"
proof -
  from process_batch_loop_shape[OF assms(1,2,4) order_refl assms(3), of rt start_index "[]"]
  obtain blocked m where m: "0 \<le> m" "batch_start + m \<le> batch_end"
    and r: "process_batch rt df batch_start batch_end start_index
         = Inr (blocked,
                concat (map (record_rows rt df start_index batch_end) [batch_start..batch_start + m - 1]),
                if blocked then Some (batch_start + m - batch_start) else None)"
    and o: "list_all (\<lambda>j. record_outcome rt df start_index batch_end j \<noteq> Blocked)
              [batch_start..batch_start + m - 1]"
    and b: "if blocked then record_outcome rt df start_index batch_end (batch_start + m) = Blocked
                        \<and> batch_start + m < batch_end
        else batch_start + m = batch_end"
    unfolding process_batch_def by auto
  show ?thesis
    apply (intro exI[of _ blocked]
        exI[of _ "concat (map (record_rows rt df start_index batch_end) [batch_start..batch_start + m - 1])"]
        exI[of _ "if blocked then Some m else None"] exI[of _ m])
    using m r o b by (cases blocked) auto
qed

lemma list_all_upto: "list_all P [a..b] \<longleftrightarrow> (\<forall>j. a \<le> j \<and> j \<le> b \<longrightarrow> P j)"
  by (auto simp: list_all_iff)

lemma process_batch_no_block:
  assumes "''URL'' \<in> columns df" "0 \<le> batch_start" "batch_start \<le> batch_end"
    "batch_end \<le> int (length (rows df))"
    and "\<forall>j. batch_start \<le> j \<and> j < batch_end \<longrightarrow> record_outcome rt df start_index batch_end j \<noteq> Blocked"
  shows "process_batch rt df batch_start batch_end start_index =
           Inr (False, concat (map (record_rows rt df start_index batch_end)
                                 [batch_start..batch_end - 1]), None)"
proof -
  from process_batch_shape[OF assms(1-4), of rt start_index]
  obtain blocked res bi m where
    r: "process_batch rt df batch_start batch_end start_index = Inr (blocked, res, bi)"
    and m: "0 \<le> m" "m \<le> batch_end - batch_start"
    and res: "res = concat (map (record_rows rt df start_index batch_end)
                                  [batch_start..batch_start + m - 1])"
    and b: "if blocked
        then bi = Some m
             \<and> record_outcome rt df start_index batch_end (batch_start + m) = Blocked
        else bi = None \<and> m = batch_end - batch_start"
    by blast
  have nb: "\<not> blocked"
  proof
    assume bl: blocked
    with b have x: "record_outcome rt df start_index batch_end (batch_start + m) = Blocked" by simp
    show False
    proof (cases "m = batch_end - batch_start")
      case True
      from process_batch_loop_shape[OF assms(1,2,4) order_refl assms(3), of rt start_index "[]"]
      obtain blocked' m' where m': "0 \<le> m'" "batch_start + m' \<le> batch_end"
        and r': "process_batch rt df batch_start batch_end start_index
           = Inr (blocked',
                concat (map (record_rows rt df start_index batch_end) [batch_start..batch_start + m' - 1]),
                if blocked' then Some (batch_start + m' - batch_start) else None)"
        and b': "if blocked' then record_outcome rt df start_index batch_end (batch_start + m') = Blocked
                        \<and> batch_start + m' < batch_end
        else batch_start + m' = batch_end"
        unfolding process_batch_def by auto
      from r r' bl b have "blocked'" and "m' = m" by (auto split: if_splits)
      with b' True show False by simp
    next
      case False
      with m have "batch_start + m < batch_end" by simp
      with assms(5) m(1) x show False by simp
    qed
  qed
  with b have "m = batch_end - batch_start" and "bi = None" by simp_all
  with r res nb show ?thesis by simp
qed

lemma process_batch_block:
  assumes "''URL'' \<in> columns df" "0 \<le> batch_start" "batch_start \<le> p" "p < batch_end"
    "batch_end \<le> int (length (rows df))"
    and "\<forall>j. batch_start \<le> j \<and> j < p \<longrightarrow> record_outcome rt df start_index batch_end j \<noteq> Blocked"
    and "record_outcome rt df start_index batch_end p = Blocked"
  shows "process_batch rt df batch_start batch_end start_index =
           Inr (True, concat (map (record_rows rt df start_index batch_end) [batch_start..p - 1]),
                Some (p - batch_start))"
proof -
  have le: "batch_start \<le> batch_end" using assms(3,4) by simp
  from process_batch_shape[OF assms(1,2) le assms(5), of rt start_index]
  obtain blocked res bi m where
    r: "process_batch rt df batch_start batch_end start_index = Inr (blocked, res, bi)"
    and m: "0 \<le> m" "m \<le> batch_end - batch_start"
    and res: "res = concat (map (record_rows rt df start_index batch_end)
                                  [batch_start..batch_start + m - 1])"
    and o: "list_all (\<lambda>j. record_outcome rt df start_index batch_end j \<noteq> Blocked)
              [batch_start..batch_start + m - 1]"
    and b: "if blocked
        then bi = Some m
             \<and> record_outcome rt df start_index batch_end (batch_start + m) = Blocked
        else bi = None \<and> m = batch_end - batch_start"
    by blast
  have le_p: "batch_start + m \<le> p"
  proof (rule ccontr)
    assume "\<not> batch_start + m \<le> p"
    then have "batch_start \<le> p \<and> p \<le> batch_start + m - 1" using assms(3) by simp
    with o assms(7) show False unfolding list_all_upto by blast
  qed
  have bl: blocked using b le_p assms(4) by (cases blocked) auto
  with b have x: "record_outcome rt df start_index batch_end (batch_start + m) = Blocked"
    and bi: "bi = Some m" by simp_all
  have "\<not> batch_start + m < p" using assms(6) x m(1) by auto
  with le_p have "p = batch_start + m" by simp
  with r res bl bi show ?thesis by simp
qed

subsection \<open>The files\<close>

lemma save_status_simps:
  "sheets (save_status rt w f b i bl) = sheets w"
  "status_log (save_status rt w f b i bl)
     = status_log w @ [\<lparr>file_path = f, last_batch = b, last_index = i, blocked_url_idx = bl\<rparr>]"
  "status_docs (save_status rt w f b i bl)
     = (status_docs w)(status_path rt \<mapsto>
          \<lparr>file_path = f, last_batch = b, last_index = i, blocked_url_idx = bl\<rparr>)"
  by (simp_all add: save_status_def Let_def)

lemma read_rows_save_status:
  "read_rows (save_status rt w f b i bl) path = read_rows w path"
  by (simp add: read_rows_def read_sheet_def save_status_simps)

lemma save_results_simps:
  "status_log (save_results_to_single_file w rs out) = status_log w"
  "status_docs (save_results_to_single_file w rs out) = status_docs w"
  by (simp_all add: save_results_to_single_file_def Let_def write_sheet_simps split: option.splits)

lemma sheets_save_results_other:
  "path \<noteq> out \<Longrightarrow> sheets (save_results_to_single_file w rs out) path = sheets w path"
  by (simp add: save_results_to_single_file_def Let_def sheets_write_sheet split: option.splits)

lemma read_cell_simps [simp]:
  "read_cell NaN = NaN"
  "read_cell (read_cell c) = read_cell c"
  "read_cell (write_cell c) = read_cell c"
  by (cases c; simp add: read_cell_def write_cell_def isna_def)+

lemma rows_read_to_excel:
  "rows (read_excel (to_excel df))
     = map (\<lambda>r c. if c \<in> columns df then read_cell (r c) else NaN) (rows df)"
  by (simp add: read_excel_def to_excel_def o_def cong: if_cong)

lemma read_new_row:
  assumes "d \<in> set rs"
  shows "(\<lambda>c. if c \<in> cols \<union> \<Union> (set (map dom rs))
               then read_cell (within (\<Union> (set (map dom rs))) (row_of_dict d) c) else NaN)
         = read_dict d"
proof
  fix c
  show "(if c \<in> cols \<union> \<Union> (set (map dom rs))
         then read_cell (within (\<Union> (set (map dom rs))) (row_of_dict d) c) else NaN)
        = read_dict d c"
  proof (cases "c \<in> dom d")
    case True
    with assms have "c \<in> \<Union> (set (map dom rs))" by auto
    then show ?thesis by (simp add: within_def read_dict_def)
  next
    case False
    then have "row_of_dict d c = NaN" by (auto simp: row_of_dict_def split: option.splits)
    then show ?thesis by (simp add: within_def read_dict_def)
  qed
qed

lemma read_new_row_alone:
  assumes "d \<in> set rs"
  shows "(\<lambda>c. if c \<in> \<Union> (set (map dom rs)) then read_cell (row_of_dict d c) else NaN)
         = read_dict d"
  using read_new_row[OF assms, of "{}"] by (simp add: within_def cong: if_cong)

text \<open>
  Appending results to the output store: the rows that the program reads from the store
  afterwards are those it read before, followed by the new rows as they are read back.
\<close>

lemma read_rows_save_results:
  "read_rows (save_results_to_single_file w rs out) out = read_rows w out @ map read_dict rs"
proof (cases "rs = []")
  case True
  then show ?thesis by (simp add: save_results_to_single_file_def)
next
  case False
  show ?thesis
  proof (cases "sheets w out")
    case None
    have "map (\<lambda>r c. if c \<in> \<Union> (set (map dom rs)) then read_cell (r c) else NaN) (map row_of_dict rs)
            = map read_dict rs"
      apply (simp only: map_map o_def)
      apply (rule map_cong[OF refl])
      apply (erule read_new_row_alone)
      done
    moreover have "read_sheet w out = None" using None by (simp add: read_sheet_def)
    ultimately show ?thesis
      using False
      by (simp add: save_results_to_single_file_def Let_def read_rows_def read_sheet_write_sheet
            rows_read_to_excel dataframe_of_dicts_def)
  next
    case (Some sheet)
    let ?old = "columns sheet"
    let ?new = "\<Union> (set (map dom rs))"
    have 1: "map (\<lambda>r c. if c \<in> ?old \<union> ?new then read_cell (r c) else NaN)
               (map (within ?old) (rows (read_excel sheet)))
             = rows (read_excel sheet)"
      by (auto simp: read_excel_def within_def fun_eq_iff)
    have 2: "map (\<lambda>r c. if c \<in> ?old \<union> ?new then read_cell (r c) else NaN)
               (map (within ?new) (map row_of_dict rs))
             = map read_dict rs"
      apply (simp only: map_map o_def)
      apply (rule map_cong[OF refl])
      apply (erule read_new_row)
      done
    have rs: "read_sheet w out = Some (read_excel sheet)"
      using Some by (simp add: read_sheet_def)
    have c: "columns (read_excel sheet) = ?old" by (simp add: read_excel_def)
    show ?thesis
      using False 1 2
      by (simp add: save_results_to_single_file_def Let_def rs read_rows_def
            read_sheet_write_sheet rows_read_to_excel concat_frames_def dataframe_of_dicts_def c)
  qed
qed

lemma length_stored_rows_save_results:
  "length (stored_rows (save_results_to_single_file w rs out) out)
     = length (stored_rows w out) + length rs"
  by (simp add: stored_rows_def save_results_to_single_file_def Let_def sheets_write_sheet
        read_sheet_def to_excel_def concat_frames_def dataframe_of_dicts_def read_excel_def
        split: option.splits)


section \<open>Properties of the run\<close>

lemma batch_end_at_in_batch:
  assumes "0 < bs" "k * bs \<le> j" "j < k * bs + bs"
  shows "batch_end_at df bs j = min (k * bs + bs) (int (length (rows df)))"
proof -
  have "j = bs * k + (j - k * bs)" by (simp add: mult.commute)
  moreover have "0 \<le> j - k * bs" "j - k * bs < bs" using assms by simp_all
  ultimately have "j div bs = k" by (rule int_div_pos_eq)
  then show ?thesis by (simp add: batch_end_at_def)
qed

lemma run_outcome_in_batch:
  assumes "0 < bs" "k * bs \<le> j" "j < k * bs + bs"
  shows "run_outcome rt df start bs j
           = record_outcome rt df start (min (k * bs + bs) (int (length (rows df)))) j"
    and "run_rows rt df start bs j
           = record_rows rt df start (min (k * bs + bs) (int (length (rows df)))) j"
  using batch_end_at_in_batch[OF assms, of df]
  by (simp_all add: run_outcome_def run_rows_def record_rows_def)

lemma record_outcome_rows:
  assumes "record_outcome rt df start be j \<noteq> Blocked"
  shows "record_rows rt df start be j \<noteq> []
       \<and> length (record_rows rt df start be j) \<le> 2
       \<and> list_all (\<lambda>r. r ''ORIGINAL_INDEX'' = Some (Num (start + j))) (record_rows rt df start be j)
       \<and> (wait_error (rt_site rt j) = None \<longrightarrow> length (record_rows rt df start be j) = 1)"
proof -
  from assms obtain rs where rs: "record_outcome rt df start be j = Rows rs"
    by (cases "record_outcome rt df start be j") auto
  from process_url_rows[OF rs[unfolded record_outcome_def Let_def]] rs
  show ?thesis by (auto simp: record_rows_def list_all_iff)
qed

lemma run_outcome_rows:
  assumes "run_outcome rt df start bs j \<noteq> Blocked"
  shows "run_rows rt df start bs j \<noteq> []
       \<and> length (run_rows rt df start bs j) \<le> 2
       \<and> list_all (\<lambda>r. r ''ORIGINAL_INDEX'' = Some (Num (start + j))) (run_rows rt df start bs j)
       \<and> (wait_error (rt_site rt j) = None \<longrightarrow> length (run_rows rt df start bs j) = 1)"
  using record_outcome_rows[of rt df start "batch_end_at df bs j" j] assms
  by (simp add: run_outcome_def run_rows_def record_rows_def)

lemma step_bounds:
  fixes k bs n :: int
  shows "(k + 1) * bs = k * bs + bs"
  by (simp add: algebra_simps)

lemma batch_rows_in_run:
  assumes "0 < bs" "k * bs \<le> a" "b < k * bs + bs"
  shows "concat (map (record_rows rt df start (min (k * bs + bs) (int (length (rows df))))) [a..b])
           = concat (map (run_rows rt df start bs) [a..b])"
proof -
  have "map (record_rows rt df start (min (k * bs + bs) (int (length (rows df))))) [a..b]
          = map (run_rows rt df start bs) [a..b]"
  proof (rule map_cong[OF refl])
    fix j
    assume "j \<in> set [a..b]"
    then have "k * bs \<le> j" "j < k * bs + bs" using assms(2,3) by auto
    from run_outcome_in_batch(2)[OF assms(1) this, of rt df start]
    show "record_rows rt df start (min (k * bs + bs) (int (length (rows df)))) j
            = run_rows rt df start bs j"
      by simp
  qed
  then show ?thesis by (rule arg_cong)
qed

lemma batch_step_no_block:
  assumes "''URL'' \<in> columns df" "0 < bs" "0 \<le> k" "k * bs < int (length (rows df))"
    and "\<forall>j. k * bs \<le> j \<and> j < min (k * bs + bs) (int (length (rows df)))
            \<longrightarrow> run_outcome rt df start bs j \<noteq> Blocked"
  shows "batch_step rt f bs start df out k w =
           Continue (save_status rt
             (save_results_to_single_file (save_status rt w f k (start + k * bs) None)
                (concat (map (run_rows rt df start bs)
                   [k * bs..min (k * bs + bs) (int (length (rows df))) - 1])) out)
             f (k + 1) (start + min (k * bs + bs) (int (length (rows df)))) None)"
proof -
  let ?total = "int (length (rows df))"
  let ?be = "min (k * bs + bs) ?total"
  have ks: "0 \<le> k * bs" using assms(2,3) by simp
  have lt: "k * bs < ?be" using assms(2,4) by simp
  have nb: "\<forall>j. k * bs \<le> j \<and> j < ?be \<longrightarrow> record_outcome rt df start ?be j \<noteq> Blocked"
    using assms(2,5) by (simp add: run_outcome_in_batch(1)[of bs k])
  have "process_batch rt df (k * bs) ?be start =
           Inr (False, concat (map (record_rows rt df start ?be) [k * bs..?be - 1]), None)"
    using assms(1) ks lt nb by (intro process_batch_no_block) auto
  moreover have "concat (map (record_rows rt df start ?be) [k * bs..?be - 1])
                   = concat (map (run_rows rt df start bs) [k * bs..?be - 1])"
    using assms(2) by (intro batch_rows_in_run) auto
  ultimately have pb: "process_batch rt df (k * bs) ?be start =
           Inr (False, concat (map (run_rows rt df start bs) [k * bs..?be - 1]), None)"
    by simp
  have "run_outcome rt df start bs (k * bs) \<noteq> Blocked" using assms(5) lt by simp
  then have "run_rows rt df start bs (k * bs) \<noteq> []" using run_outcome_rows by blast
  moreover have "[k * bs..?be - 1] = k * bs # [k * bs + 1..?be - 1]"
    using lt by (simp add: upto_rec1 del: min_less_iff_conj)
  ultimately have ne: "concat (map (run_rows rt df start bs) [k * bs..?be - 1]) \<noteq> []"
    by simp
  show ?thesis
    unfolding batch_step_def Let_def pb using ne by simp
qed

lemma batch_step_block:
  assumes "''URL'' \<in> columns df" "0 < bs" "0 \<le> k" "k * bs \<le> p" "p < k * bs + bs"
    "p < int (length (rows df))"
    and "\<forall>j. k * bs \<le> j \<and> j < p \<longrightarrow> run_outcome rt df start bs j \<noteq> Blocked"
    and "run_outcome rt df start bs p = Blocked"
  shows "batch_step rt f bs start df out k w =
           Stop (save_status rt
             (save_results_to_single_file (save_status rt w f k (start + k * bs) None)
                (concat (map (run_rows rt df start bs) [k * bs..p - 1])) out)
             f k (start + k * bs) (Some (start + k * bs + (p - k * bs))))"
    and "process_batch rt df (k * bs) (min (k * bs + bs) (int (length (rows df)))) start
           = Inr (True, concat (map (run_rows rt df start bs) [k * bs..p - 1]), Some (p - k * bs))"
proof -
  let ?total = "int (length (rows df))"
  let ?be = "min (k * bs + bs) ?total"
  have ks: "0 \<le> k * bs" using assms(2,3) by simp
  have nb: "\<forall>j. k * bs \<le> j \<and> j < p \<longrightarrow> record_outcome rt df start ?be j \<noteq> Blocked"
    using assms(2,5,7) by (simp add: run_outcome_in_batch(1)[of bs k])
  have bl: "record_outcome rt df start ?be p = Blocked"
    using assms(2,4,5,8) by (simp add: run_outcome_in_batch(1)[of bs k])
  have "process_batch rt df (k * bs) ?be start =
           Inr (True, concat (map (record_rows rt df start ?be) [k * bs..p - 1]), Some (p - k * bs))"
    using assms(1) ks assms(4,5,6) nb bl by (intro process_batch_block) auto
  moreover have "concat (map (record_rows rt df start ?be) [k * bs..p - 1])
                   = concat (map (run_rows rt df start bs) [k * bs..p - 1])"
    using assms(2,5) by (intro batch_rows_in_run) auto
  ultimately show pb: "process_batch rt df (k * bs) ?be start =
           Inr (True, concat (map (run_rows rt df start bs) [k * bs..p - 1]), Some (p - k * bs))"
    by simp
  show "batch_step rt f bs start df out k w =
           Stop (save_status rt
             (save_results_to_single_file (save_status rt w f k (start + k * bs) None)
                (concat (map (run_rows rt df start bs) [k * bs..p - 1])) out)
             f k (start + k * bs) (Some (start + k * bs + (p - k * bs))))"
    unfolding batch_step_def Let_def pb
    by (simp add: save_results_to_single_file_def)
qed

lemma concat_pairs_nth:
  "i < length xs \<Longrightarrow>
     concat (map (\<lambda>x. [a x, b x]) xs) ! (2 * i) = a (xs ! i)
   \<and> concat (map (\<lambda>x. [a x, b x]) xs) ! (2 * i + 1) = b (xs ! i)"
proof (induction xs arbitrary: i)
  case Nil
  then show ?case by simp
next
  case (Cons x xs)
  show ?case
  proof (cases i)
    case 0
    then show ?thesis by simp
  next
    case (Suc i')
    with Cons.prems have "i' < length xs" by simp
    from Cons.IH[OF this] Suc show ?thesis by simp
  qed
qed

text \<open>
  One completed pass of the batch loop: the status document, the log and the store after
  it.
\<close>

lemma completed_pass:
  fixes k :: int
  defines "w1 \<equiv> \<lambda>rt f bs start df out k w.
             save_status rt
               (save_results_to_single_file (save_status rt w f k (start + k * bs) None)
                  (concat (map (run_rows rt df start bs)
                     [k * bs..min (k * bs + bs) (int (length (rows df))) - 1])) out)
               f (k + 1) (start + min (k * bs + bs) (int (length (rows df)))) None"
  shows "status_docs (w1 rt f bs start df out k w)
           = (status_docs w)(status_path rt \<mapsto> post_doc f start bs (int (length (rows df))) k)"
    and "status_log (w1 rt f bs start df out k w)
           = status_log w @ [pre_doc f start bs k, post_doc f start bs (int (length (rows df))) k]"
    and "read_rows (w1 rt f bs start df out k w) out
           = read_rows w out @ map read_dict (concat (map (run_rows rt df start bs)
                     [k * bs..min (k * bs + bs) (int (length (rows df))) - 1]))"
    and "\<forall>path. path \<noteq> out \<longrightarrow> sheets (w1 rt f bs start df out k w) path = sheets w path"
  unfolding w1_def
  by (simp_all add: save_status_simps save_results_simps post_doc_def pre_doc_def step_bounds
        read_rows_save_status read_rows_save_results sheets_save_results_other)

lemma batch_loop_no_block:
  fixes k :: int
  assumes "''URL'' \<in> columns df" "0 < bs" "0 \<le> k" "k * bs < int (length (rows df))"
    and "\<forall>j. k * bs \<le> j \<and> j < int (length (rows df)) \<longrightarrow> run_outcome rt df start bs j \<noteq> Blocked"
  shows "\<exists>w' kl. batch_loop rt f bs start df out av k w = Some (finish_run rt w' out av)
        \<and> k \<le> kl \<and> kl * bs < int (length (rows df)) \<and> int (length (rows df)) \<le> (kl + 1) * bs
        \<and> status_docs w' = (status_docs w)(status_path rt \<mapsto>
                               post_doc f start bs (int (length (rows df))) kl)
        \<and> status_log w' = status_log w @
             concat (map (\<lambda>m. [pre_doc f start bs m, post_doc f start bs (int (length (rows df))) m]) [k..kl])
        \<and> read_rows w' out = read_rows w out @
             map read_dict (concat (map (run_rows rt df start bs) [k * bs..int (length (rows df)) - 1]))
        \<and> (\<forall>path. path \<noteq> out \<longrightarrow> sheets w' path = sheets w path)"
  using assms(3,4,5)
proof (induction "nat (int (length (rows df)) - k * bs)" arbitrary: k w rule: less_induct)
  case less
  let ?n = "int (length (rows df))"
  let ?be = "min (k * bs + bs) ?n"
  let ?w1 = "save_status rt
             (save_results_to_single_file (save_status rt w f k (start + k * bs) None)
                (concat (map (run_rows rt df start bs) [k * bs..?be - 1])) out)
             f (k + 1) (start + ?be) None"
  have nb: "\<forall>j. k * bs \<le> j \<and> j < ?be \<longrightarrow> run_outcome rt df start bs j \<noteq> Blocked"
    using less.prems(3) by simp
  have step: "batch_step rt f bs start df out k w = Continue ?w1"
    using assms(1,2) less.prems(1,2) nb by (rule batch_step_no_block)
  have docs1: "status_docs ?w1 = (status_docs w)(status_path rt \<mapsto> post_doc f start bs ?n k)"
    by (rule completed_pass(1))
  have log1: "status_log ?w1 = status_log w @ [pre_doc f start bs k, post_doc f start bs ?n k]"
    by (rule completed_pass(2))
  have rows1: "read_rows ?w1 out = read_rows w out @
                 map read_dict (concat (map (run_rows rt df start bs) [k * bs..?be - 1]))"
    by (rule completed_pass(3))
  have other1: "\<forall>path. path \<noteq> out \<longrightarrow> sheets ?w1 path = sheets w path"
    by (rule completed_pass(4))
  show ?case
  proof (cases "?n \<le> (k + 1) * bs")
    case True
    then have be: "?be = ?n" by (simp add: step_bounds)
    have "batch_loop rt f bs start df out av k w = Some (finish_run rt ?w1 out av)"
      using less.prems(2) True by (subst batch_loop.simps) (simp add: step)
    moreover have "read_rows ?w1 out = read_rows w out @
             map read_dict (concat (map (run_rows rt df start bs) [k * bs..?n - 1]))"
      using rows1 be by simp
    ultimately show ?thesis
      using True less.prems(2) docs1 log1 other1
      by (intro exI[of _ ?w1] exI[of _ k]) simp
  next
    case False
    then have lt: "(k + 1) * bs < ?n" by simp
    then have be: "?be = (k + 1) * bs" by (simp add: step_bounds)
    have dec: "nat (?n - (k + 1) * bs) < nat (?n - k * bs)"
      using assms(2) less.prems(2) by (simp add: step_bounds)
    have k1: "0 \<le> k + 1" using less.prems(1) by simp
    have nb1: "\<forall>j. (k + 1) * bs \<le> j \<and> j < ?n \<longrightarrow> run_outcome rt df start bs j \<noteq> Blocked"
      using less.prems(3) assms(2) by (simp add: step_bounds)
    from less.hyps[OF dec k1 lt nb1, of ?w1]
    obtain w' kl where
      run: "batch_loop rt f bs start df out av (k + 1) ?w1 = Some (finish_run rt w' out av)"
      and kl: "k + 1 \<le> kl" "kl * bs < ?n" "?n \<le> (kl + 1) * bs"
      and docs: "status_docs w' = (status_docs ?w1)(status_path rt \<mapsto> post_doc f start bs ?n kl)"
      and log: "status_log w' = status_log ?w1 @
             concat (map (\<lambda>m. [pre_doc f start bs m, post_doc f start bs ?n m]) [k + 1..kl])"
      and rws: "read_rows w' out = read_rows ?w1 out @
             map read_dict (concat (map (run_rows rt df start bs) [(k + 1) * bs..?n - 1]))"
      and other: "\<forall>path. path \<noteq> out \<longrightarrow> sheets w' path = sheets ?w1 path"
      by blast
    have "batch_loop rt f bs start df out av k w = Some (finish_run rt w' out av)"
      using less.prems(2) False run by (subst batch_loop.simps) (simp add: step)
    moreover have "k \<le> kl" using kl(1) by simp
    moreover have "status_docs w' = (status_docs w)(status_path rt \<mapsto> post_doc f start bs ?n kl)"
      using docs docs1 by simp
    moreover have "status_log w' = status_log w @
             concat (map (\<lambda>m. [pre_doc f start bs m, post_doc f start bs ?n m]) [k..kl])"
    proof -
      have "[k..kl] = k # [k + 1..kl]" using kl(1) by (simp add: upto_rec1)
      then show ?thesis using log log1 by simp
    qed
    moreover have "read_rows w' out = read_rows w out @
             map read_dict (concat (map (run_rows rt df start bs) [k * bs..?n - 1]))"
    proof -
      have "k * bs \<le> (k + 1) * bs" using assms(2) by (simp add: step_bounds)
      moreover have "(k + 1) * bs \<le> ?n - 1" using lt by simp
      ultimately have "[k * bs..?n - 1] = [k * bs..(k + 1) * bs - 1] @ [(k + 1) * bs..?n - 1]"
        by (rule upto_split1)
      then show ?thesis using rws rows1 be by simp
    qed
    moreover have "\<forall>path. path \<noteq> out \<longrightarrow> sheets w' path = sheets w path"
      using other other1 by simp
    ultimately show ?thesis using kl(2,3) by blast
  qed
qed

lemma batch_loop_block:
  fixes k :: int
  assumes "''URL'' \<in> columns df" "0 < bs" "0 \<le> k" "k \<le> kb" "kb * bs \<le> p" "p < kb * bs + bs"
    "p < int (length (rows df))"
    and "\<forall>j. k * bs \<le> j \<and> j < p \<longrightarrow> run_outcome rt df start bs j \<noteq> Blocked"
    and "run_outcome rt df start bs p = Blocked"
  shows "\<exists>w'. batch_loop rt f bs start df out av k w = Some w'
        \<and> status_docs w' = (status_docs w)(status_path rt \<mapsto> blocked_doc f start bs kb (p - kb * bs))
        \<and> status_log w' = status_log w @
             concat (map (\<lambda>m. [pre_doc f start bs m, post_doc f start bs (int (length (rows df))) m]) [k..kb - 1])
             @ [pre_doc f start bs kb, blocked_doc f start bs kb (p - kb * bs)]
        \<and> read_rows w' out = read_rows w out @
             map read_dict (concat (map (run_rows rt df start bs) [k * bs..p - 1]))
        \<and> (\<forall>path. path \<noteq> out \<longrightarrow> sheets w' path = sheets w path)"
  using assms(3,4,8)
proof (induction "nat (kb - k)" arbitrary: k w)
  case 0
  let ?n = "int (length (rows df))"
  from 0 have kk: "k = kb" by simp
  let ?w1 = "save_status rt
             (save_results_to_single_file (save_status rt w f kb (start + kb * bs) None)
                (concat (map (run_rows rt df start bs) [kb * bs..p - 1])) out)
             f kb (start + kb * bs) (Some (start + kb * bs + (p - kb * bs)))"
  have step: "batch_step rt f bs start df out kb w = Stop ?w1"
    using assms(1,2) 0(2) assms(5,6,7) 0(4) assms(9) unfolding kk by (rule batch_step_block(1))
  have lt: "kb * bs < ?n" using assms(5,7) by simp
  have "batch_loop rt f bs start df out av kb w = Some ?w1"
    using lt by (subst batch_loop.simps) (simp add: step)
  moreover have "status_docs ?w1 = (status_docs w)(status_path rt \<mapsto> blocked_doc f start bs kb (p - kb * bs))"
    by (simp add: save_status_simps save_results_simps blocked_doc_def)
  moreover have "status_log ?w1 = status_log w @ [pre_doc f start bs kb, blocked_doc f start bs kb (p - kb * bs)]"
    by (simp add: save_status_simps save_results_simps blocked_doc_def pre_doc_def)
  moreover have "read_rows ?w1 out = read_rows w out @
                 map read_dict (concat (map (run_rows rt df start bs) [kb * bs..p - 1]))"
    by (simp add: read_rows_save_status read_rows_save_results)
  moreover have "\<forall>path. path \<noteq> out \<longrightarrow> sheets ?w1 path = sheets w path"
    by (simp add: save_status_simps sheets_save_results_other)
  ultimately show ?case unfolding kk by (intro exI[of _ ?w1]) simp
next
  case (Suc d)
  let ?n = "int (length (rows df))"
  let ?be = "min (k * bs + bs) ?n"
  let ?w1 = "save_status rt
             (save_results_to_single_file (save_status rt w f k (start + k * bs) None)
                (concat (map (run_rows rt df start bs) [k * bs..?be - 1])) out)
             f (k + 1) (start + ?be) None"
  from Suc.hyps(2) have klt: "k + 1 \<le> kb" by linarith
  then have "(k + 1) * bs \<le> kb * bs" using assms(2) by (intro mult_right_mono) simp_all
  then have le_p: "(k + 1) * bs \<le> p" using assms(5) by linarith
  then have lt_n: "(k + 1) * bs < ?n" using assms(7) by linarith
  then have be: "?be = (k + 1) * bs" by (simp add: step_bounds)
  have kn: "k * bs < ?n" using lt_n assms(2) by (simp add: step_bounds)
  have nb: "\<forall>j. k * bs \<le> j \<and> j < ?be \<longrightarrow> run_outcome rt df start bs j \<noteq> Blocked"
    using Suc.prems(3) le_p unfolding be by auto
  have step: "batch_step rt f bs start df out k w = Continue ?w1"
    using assms(1,2) Suc.prems(1) kn nb by (rule batch_step_no_block)
  have docs1: "status_docs ?w1 = (status_docs w)(status_path rt \<mapsto> post_doc f start bs ?n k)"
    by (rule completed_pass(1))
  have log1: "status_log ?w1 = status_log w @ [pre_doc f start bs k, post_doc f start bs ?n k]"
    by (rule completed_pass(2))
  have rows1: "read_rows ?w1 out = read_rows w out @
                 map read_dict (concat (map (run_rows rt df start bs) [k * bs..?be - 1]))"
    by (rule completed_pass(3))
  have other1: "\<forall>path. path \<noteq> out \<longrightarrow> sheets ?w1 path = sheets w path"
    by (rule completed_pass(4))
  have d: "d = nat (kb - (k + 1))" using Suc.hyps(2) by linarith
  have k1: "0 \<le> k + 1" using Suc.prems(1) by simp
  have nb1: "\<forall>j. (k + 1) * bs \<le> j \<and> j < p \<longrightarrow> run_outcome rt df start bs j \<noteq> Blocked"
    using Suc.prems(3) assms(2) by (simp add: step_bounds)
  from Suc.hyps(1)[OF d k1 klt nb1, of ?w1]
  obtain w' where
    run: "batch_loop rt f bs start df out av (k + 1) ?w1 = Some w'"
    and docs: "status_docs w' = (status_docs ?w1)(status_path rt \<mapsto> blocked_doc f start bs kb (p - kb * bs))"
    and log: "status_log w' = status_log ?w1 @
             concat (map (\<lambda>m. [pre_doc f start bs m, post_doc f start bs ?n m]) [k + 1..kb - 1])
             @ [pre_doc f start bs kb, blocked_doc f start bs kb (p - kb * bs)]"
    and rws: "read_rows w' out = read_rows ?w1 out @
             map read_dict (concat (map (run_rows rt df start bs) [(k + 1) * bs..p - 1]))"
    and other: "\<forall>path. path \<noteq> out \<longrightarrow> sheets w' path = sheets ?w1 path"
    by blast
  have "batch_loop rt f bs start df out av k w = Some w'"
    using kn lt_n run by (subst batch_loop.simps) (simp add: step)
  moreover have "status_docs w' = (status_docs w)(status_path rt \<mapsto> blocked_doc f start bs kb (p - kb * bs))"
    using docs docs1 by simp
  moreover have "status_log w' = status_log w @
             concat (map (\<lambda>m. [pre_doc f start bs m, post_doc f start bs ?n m]) [k..kb - 1])
             @ [pre_doc f start bs kb, blocked_doc f start bs kb (p - kb * bs)]"
  proof -
    have "[k..kb - 1] = k # [k + 1..kb - 1]" using klt by (simp add: upto_rec1)
    then show ?thesis using log log1 by simp
  qed
  moreover have "read_rows w' out = read_rows w out @
             map read_dict (concat (map (run_rows rt df start bs) [k * bs..p - 1]))"
  proof -
    have "k * bs \<le> (k + 1) * bs" using assms(2) by (simp add: step_bounds)
    moreover have "(k + 1) * bs \<le> p - 1 + 1" using le_p by simp
    ultimately have "[k * bs..p - 1] = [k * bs..(k + 1) * bs - 1] @ [(k + 1) * bs..p - 1]"
      using upto_split1[of "k * bs" "(k + 1) * bs" "p - 1"] le_p
      by (cases "(k + 1) * bs \<le> p - 1") (auto simp: upto_rec1)
    then show ?thesis using rws rows1 be by simp
  qed
  moreover have "\<forall>path. path \<noteq> out \<longrightarrow> sheets w' path = sheets w path"
    using other other1 by simp
  ultimately show ?case by blast
qed

text \<open>
  In a run without block, the loop reaches every batch of the window: before batch \<open>m\<close>
  the files are those left by the \<open>m\<close> completed passes before it.
\<close>

lemma batch_loop_reaches:
  assumes "''URL'' \<in> columns df" "0 < bs"
    and "\<forall>j. 0 \<le> j \<and> j < int (length (rows df)) \<longrightarrow> run_outcome rt df start bs j \<noteq> Blocked"
    and "int m * bs < int (length (rows df))"
  shows "\<exists>wm. after_batches rt f bs start df out m w = Some wm
       \<and> batch_loop rt f bs start df out av 0 w = batch_loop rt f bs start df out av (int m) wm"
  using assms(4)
proof (induction m)
  case 0
  then show ?case by simp
next
  case (Suc m)
  let ?n = "int (length (rows df))"
  have s: "int (Suc m) * bs = (int m + 1) * bs" by simp
  have lt: "(int m + 1) * bs < ?n" using Suc.prems unfolding s .
  then have kn: "int m * bs < ?n" using assms(2) by (simp add: step_bounds)
  from Suc.IH[OF kn] obtain wm where
    a: "after_batches rt f bs start df out m w = Some wm"
    and l: "batch_loop rt f bs start df out av 0 w = batch_loop rt f bs start df out av (int m) wm"
    by blast
  have nb: "\<forall>j. int m * bs \<le> j \<and> j < min (int m * bs + bs) ?n
              \<longrightarrow> run_outcome rt df start bs j \<noteq> Blocked"
  proof -
    have "0 \<le> int m * bs" using assms(2) by simp
    with assms(3) show ?thesis by auto
  qed
  from batch_step_no_block[OF assms(1,2) _ kn nb, of f out wm]
  obtain w1 where step: "batch_step rt f bs start df out (int m) wm = Continue w1" by auto
  have "after_batches rt f bs start df out (Suc m) w = Some w1"
    using a step by simp
  moreover have "batch_loop rt f bs start df out av (int m) wm
                   = batch_loop rt f bs start df out av (int m + 1) w1"
    using kn lt by (subst batch_loop.simps) (simp add: step)
  ultimately show ?case using l by (simp add: add.commute)
qed

lemma validate_keeps_status:
  "status_docs (fst (snd (validate_and_recrawl rt w f b))) = status_docs w"
  "status_log (fst (snd (validate_and_recrawl rt w f b))) = status_log w"
  by (simp_all add: validate_and_recrawl_def Let_def write_sheet_simps
        split: option.splits sum.splits)

lemma reset_status_simps:
  "status_log (reset_status rt w) = status_log w"
  "sheets (reset_status rt w) = sheets w"
  "p \<noteq> in_cwd rt STATUS_FILE \<Longrightarrow> status_docs (reset_status rt w) p = status_docs w p"
  by (simp_all add: reset_status_def)

lemma finish_run_status:
  "status_log (finish_run rt w out av) = status_log w"
  "p \<noteq> in_cwd rt STATUS_FILE \<Longrightarrow> status_docs (finish_run rt w out av) p = status_docs w p"
  by (simp_all add: finish_run_def Let_def validate_keeps_status reset_status_simps)

lemma process_urls_unfold:
  assumes "read_sheet w xlsx = Some df" "''URL'' \<in> columns df"
  shows "process_urls rt cfg w xlsx batch_size start_index end_index auto_restart auto_validate =
           batch_loop rt xlsx (resolve_batch_size cfg batch_size)
             (window_start rt w xlsx start_index auto_restart)
             (window df (window_start rt w xlsx start_index auto_restart) end_index)
             (output_path rt cfg) auto_validate 0 w"
  using assms by (simp add: process_urls_def Let_def window_start_def window_def)

lemma columns_window: "columns (window df s e) = columns df"
  by (simp add: window_def Let_def)


lemma length_read_rows: "length (read_rows w path) = length (stored_rows w path)"
  by (simp add: read_rows_def stored_rows_def read_sheet_def read_excel_def split: option.splits)

lemma concat_singletons:
  assumes "\<forall>j \<in> set js. \<exists>r. f j = [r] \<and> g r = h j"
  shows "map g (concat (map f js)) = map h js"
  using assms by (induction js) auto

lemma run_checkpoints:
  assumes "read_sheet w xlsx = Some df" and "''URL'' \<in> columns df"
    and "bs = resolve_batch_size cfg batch_size" and "0 < bs"
    and "start = window_start rt w xlsx start_index auto_restart"
    and "win = window df start end_index"
    and "n = int (length (rows win))"
    and "list_all (\<lambda>j. run_outcome rt win start bs j \<noteq> Blocked) [0..n - 1]"
    and "0 \<le> k" and "k * bs < n"
  shows "\<exists>w0 wk w'.
         after_batches rt xlsx bs start win (output_path rt cfg) (nat k) w = Some w0
       \<and> batch_step rt xlsx bs start win (output_path rt cfg) k w0 = Continue wk
       \<and> load_status rt wk = Some (post_doc xlsx start bs n k)
       \<and> process_urls rt cfg w xlsx batch_size start_index end_index auto_restart auto_validate
           = (if n \<le> (k + 1) * bs
              then Some (finish_run rt wk (output_path rt cfg) auto_validate)
              else batch_loop rt xlsx bs start win (output_path rt cfg) auto_validate (k + 1) wk)
       \<and> process_urls rt cfg w xlsx batch_size start_index end_index auto_restart auto_validate
           = Some w'
       \<and> status_log w' ! (length (status_log w) + 2 * nat k) = pre_doc xlsx start bs k
       \<and> status_log w' ! (length (status_log w) + 2 * nat k + 1) = post_doc xlsx start bs n k"
proof -
  let ?out = "output_path rt cfg"
  have url: "''URL'' \<in> columns win" using assms(2,6) by (simp add: columns_window)
  have n0: "0 * bs < int (length (rows win))" using assms(4,7,9,10)
    by (smt (verit) mult_nonneg_nonneg mult_zero_left)
  have nb: "\<forall>j. 0 \<le> j \<and> j < int (length (rows win)) \<longrightarrow> run_outcome rt win start bs j \<noteq> Blocked"
    using assms(8) unfolding assms(7) list_all_upto by simp
  then have nb0: "\<forall>j. 0 * bs \<le> j \<and> j < int (length (rows win)) \<longrightarrow> run_outcome rt win start bs j \<noteq> Blocked"
    by simp
  have pu: "process_urls rt cfg w xlsx batch_size start_index end_index auto_restart auto_validate
              = batch_loop rt xlsx bs start win ?out auto_validate 0 w"
    using process_urls_unfold[OF assms(1,2)] assms(3,5,6) by simp
  have kn: "int (nat k) * bs < int (length (rows win))" using assms(7,9,10) by simp
  from batch_loop_reaches[OF url assms(4) nb kn, of xlsx ?out w auto_validate]
  obtain w0 where
    a: "after_batches rt xlsx bs start win ?out (nat k) w = Some w0"
    and l: "batch_loop rt xlsx bs start win ?out auto_validate 0 w
              = batch_loop rt xlsx bs start win ?out auto_validate k w0"
    using assms(9) by auto
  let ?wk = "save_status rt
             (save_results_to_single_file (save_status rt w0 xlsx k (start + k * bs) None)
                (concat (map (run_rows rt win start bs)
                   [k * bs..min (k * bs + bs) (int (length (rows win))) - 1])) ?out)
             xlsx (k + 1) (start + min (k * bs + bs) (int (length (rows win)))) None"
  have nbk: "\<forall>j. k * bs \<le> j \<and> j < min (k * bs + bs) (int (length (rows win)))
               \<longrightarrow> run_outcome rt win start bs j \<noteq> Blocked"
  proof -
    have "0 \<le> k * bs" using assms(4,9) by simp
    with nb show ?thesis by auto
  qed
  have step: "batch_step rt xlsx bs start win ?out k w0 = Continue ?wk"
    using url assms(4,9) _ nbk by (rule batch_step_no_block) (use assms(7,10) in simp)
  have ls: "load_status rt ?wk = Some (post_doc xlsx start bs n k)"
    by (simp add: load_status_def completed_pass(1) assms(7))
  have cont: "batch_loop rt xlsx bs start win ?out auto_validate k w0
                = (if n \<le> (k + 1) * bs
                   then Some (finish_run rt ?wk ?out auto_validate)
                   else batch_loop rt xlsx bs start win ?out auto_validate (k + 1) ?wk)"
    using assms(7,10) by (subst batch_loop.simps) (simp add: step)
  from batch_loop_no_block[OF url assms(4) order_refl n0 nb0, of xlsx ?out auto_validate w]
  obtain w' kl where
    run: "batch_loop rt xlsx bs start win ?out auto_validate 0 w
            = Some (finish_run rt w' ?out auto_validate)"
    and kl: "0 \<le> kl" "kl * bs < n" "n \<le> (kl + 1) * bs"
    and log: "status_log w' = status_log w @
             concat (map (\<lambda>m. [pre_doc xlsx start bs m, post_doc xlsx start bs n m]) [0..kl])"
    unfolding assms(7) by blast
  have kkl: "k \<le> kl"
  proof (rule ccontr)
    assume "\<not> k \<le> kl"
    then have "kl + 1 \<le> k" by simp
    then have "(kl + 1) * bs \<le> k * bs" using assms(4) by (intro mult_right_mono) simp_all
    with kl(3) assms(10) show False by linarith
  qed
  have len: "nat k < length [0..kl]" using kkl assms(9) by simp
  have nth: "[0..kl] ! nat k = k" using kkl assms(9) by simp
  from concat_pairs_nth[OF len, of "pre_doc xlsx start bs" "post_doc xlsx start bs n"] nth
  have c: "concat (map (\<lambda>m. [pre_doc xlsx start bs m, post_doc xlsx start bs n m]) [0..kl]) ! (2 * nat k)
             = pre_doc xlsx start bs k"
     "concat (map (\<lambda>m. [pre_doc xlsx start bs m, post_doc xlsx start bs n m]) [0..kl]) ! (2 * nat k + 1)
             = post_doc xlsx start bs n k"
    by simp_all
  let ?w = "finish_run rt w' ?out auto_validate"
  have 1: "process_urls rt cfg w xlsx batch_size start_index end_index auto_restart auto_validate = Some ?w"
    using pu run by simp
  have 2: "status_log ?w ! (length (status_log w) + 2 * nat k) = pre_doc xlsx start bs k"
    using c(1) by (simp add: finish_run_status log nth_append)
  have 3: "status_log ?w ! (length (status_log w) + 2 * nat k + 1) = post_doc xlsx start bs n k"
    using c(2) by (simp add: finish_run_status log nth_append add.assoc)
  have 4: "process_urls rt cfg w xlsx batch_size start_index end_index auto_restart auto_validate
           = (if n \<le> (k + 1) * bs
              then Some (finish_run rt ?wk ?out auto_validate)
              else batch_loop rt xlsx bs start win ?out auto_validate (k + 1) ?wk)"
    using pu l cont by simp
  from a step ls 4 1 2 3 show ?thesis by blast
qed

lemma run_completed_status:
  assumes "read_sheet w xlsx = Some df" and "''URL'' \<in> columns df"
    and "bs = resolve_batch_size cfg batch_size" and "0 < bs"
    and "start = window_start rt w xlsx start_index auto_restart"
    and "win = window df start end_index"
    and "n = int (length (rows win))" and "0 < n"
    and "list_all (\<lambda>j. run_outcome rt win start bs j \<noteq> Blocked) [0..n - 1]"
    and "status_path rt \<noteq> in_cwd rt STATUS_FILE"
  shows "\<exists>w' kl. process_urls rt cfg w xlsx batch_size start_index end_index auto_restart auto_validate
             = Some w'
       \<and> kl * bs < n \<and> n \<le> (kl + 1) * bs
       \<and> load_status rt w' = Some \<lparr>file_path = xlsx, last_batch = kl + 1, last_index = start + n,
                                     blocked_url_idx = None\<rparr>
       \<and> (\<not> auto_validate \<longrightarrow>
            (\<forall>path. path \<noteq> output_path rt cfg \<longrightarrow> sheets w' path = sheets w path))"
proof -
  have url: "''URL'' \<in> columns win" using assms(2,6) by (simp add: columns_window)
  have n0: "0 * bs < int (length (rows win))" using assms(7,8) by simp
  have nb: "\<forall>j. 0 * bs \<le> j \<and> j < int (length (rows win)) \<longrightarrow> run_outcome rt win start bs j \<noteq> Blocked"
    using assms(9) unfolding assms(7) list_all_upto by simp
  from batch_loop_no_block[OF url assms(4) order_refl n0 nb, of xlsx "output_path rt cfg" auto_validate w]
  obtain w' kl where
    run: "batch_loop rt xlsx bs start win (output_path rt cfg) auto_validate 0 w
            = Some (finish_run rt w' (output_path rt cfg) auto_validate)"
    and kl: "0 \<le> kl" "kl * bs < n" "n \<le> (kl + 1) * bs"
    and docs: "status_docs w' = (status_docs w)(status_path rt \<mapsto> post_doc xlsx start bs n kl)"
    and other: "\<forall>path. path \<noteq> output_path rt cfg \<longrightarrow> sheets w' path = sheets w path"
    unfolding assms(7) by blast
  let ?w = "finish_run rt w' (output_path rt cfg) auto_validate"
  have "process_urls rt cfg w xlsx batch_size start_index end_index auto_restart auto_validate = Some ?w"
    using process_urls_unfold[OF assms(1,2)] run assms(3,5,6) by simp
  moreover have "\<not> auto_validate \<longrightarrow>
            (\<forall>path. path \<noteq> output_path rt cfg \<longrightarrow> sheets ?w path = sheets w path)"
    using other by (simp add: finish_run_def reset_status_simps)
  moreover have "load_status rt ?w = Some (post_doc xlsx start bs n kl)"
    using assms(10) docs by (simp add: load_status_def finish_run_status)
  moreover have "post_doc xlsx start bs n kl
                   = \<lparr>file_path = xlsx, last_batch = kl + 1, last_index = start + n, blocked_url_idx = None\<rparr>"
    using kl(3) by (simp add: post_doc_def min_def)
  ultimately show ?thesis using kl(2,3) by auto
qed

lemma run_blocked:
  assumes "read_sheet w xlsx = Some df" and "''URL'' \<in> columns df"
    and "bs = resolve_batch_size cfg batch_size"
    and "start = window_start rt w xlsx start_index auto_restart"
    and "win = window df start end_index"
    and "n = int (length (rows win))"
    and "0 \<le> k" and "0 \<le> i" and "i < bs" and "k * bs + i < n"
    and "list_all (\<lambda>j. run_outcome rt win start bs j \<noteq> Blocked) [0..k * bs + i - 1]"
    and "run_outcome rt win start bs (k * bs + i) = Blocked"
  shows "\<exists>w'. process_urls rt cfg w xlsx batch_size start_index end_index auto_restart auto_validate
             = Some w'
       \<and> process_batch rt win (k * bs) (min (k * bs + bs) n) start
           = Inr (True, concat (map (run_rows rt win start bs) [k * bs..k * bs + i - 1]), Some i)
       \<and> load_status rt w' = Some (blocked_doc xlsx start bs k i)
       \<and> status_log w' = status_log w
           @ concat (map (\<lambda>m. [pre_doc xlsx start bs m, post_doc xlsx start bs n m]) [0..k - 1])
           @ [pre_doc xlsx start bs k, blocked_doc xlsx start bs k i]
       \<and> read_rows w' (output_path rt cfg) = read_rows w (output_path rt cfg)
           @ map read_dict (concat (map (run_rows rt win start bs) [0..k * bs + i - 1]))
       \<and> length (stored_rows w' (output_path rt cfg))
           = length (stored_rows w (output_path rt cfg))
             + length (concat (map (run_rows rt win start bs) [0..k * bs + i - 1]))
       \<and> list_all (\<lambda>j. run_rows rt win start bs j \<noteq> []
                       \<and> length (run_rows rt win start bs j) \<le> 2
                       \<and> list_all (\<lambda>r. r ''ORIGINAL_INDEX'' = Some (Num (start + j)))
                            (run_rows rt win start bs j)
                       \<and> (wait_error (rt_site rt j) = None
                            \<longrightarrow> length (run_rows rt win start bs j) = 1))
            [0..k * bs + i - 1]
       \<and> (list_all (\<lambda>j. wait_error (rt_site rt j) = None) [0..k * bs + i - 1] \<longrightarrow>
            map (\<lambda>r. r ''ORIGINAL_INDEX'')
                (concat (map (run_rows rt win start bs) [0..k * bs + i - 1]))
              = map (\<lambda>j. Some (Num (start + j))) [0..k * bs + i - 1])"
proof -
  let ?p = "k * bs + i"
  let ?out = "output_path rt cfg"
  have bs: "0 < bs" using assms(8,9) by simp
  have url: "''URL'' \<in> columns win" using assms(2,5) by (simp add: columns_window)
  have kb: "0 \<le> k * bs" using assms(7) bs by simp
  have p1: "k * bs \<le> ?p" using assms(8) by simp
  have p2: "?p < k * bs + bs" using assms(9) by simp
  have p3: "?p < int (length (rows win))" using assms(10,6) by simp
  have nb: "\<forall>j. 0 \<le> j \<and> j < ?p \<longrightarrow> run_outcome rt win start bs j \<noteq> Blocked"
    using assms(11) unfolding list_all_upto by simp
  then have nb0: "\<forall>j. 0 * bs \<le> j \<and> j < ?p \<longrightarrow> run_outcome rt win start bs j \<noteq> Blocked"
    by simp
  from batch_loop_block[OF url bs order_refl assms(7) p1 p2 p3 nb0 assms(12),
         of xlsx ?out auto_validate w]
  obtain w' where
    run: "batch_loop rt xlsx bs start win ?out auto_validate 0 w = Some w'"
    and docs: "status_docs w' = (status_docs w)(status_path rt \<mapsto> blocked_doc xlsx start bs k (?p - k * bs))"
    and log: "status_log w' = status_log w @
             concat (map (\<lambda>m. [pre_doc xlsx start bs m, post_doc xlsx start bs (int (length (rows win))) m]) [0..k - 1])
             @ [pre_doc xlsx start bs k, blocked_doc xlsx start bs k (?p - k * bs)]"
    and rws: "read_rows w' ?out = read_rows w ?out @
             map read_dict (concat (map (run_rows rt win start bs) [0 * bs..?p - 1]))"
    by blast
  have pu: "process_urls rt cfg w xlsx batch_size start_index end_index auto_restart auto_validate = Some w'"
    using process_urls_unfold[OF assms(1,2)] run assms(3,4,5) by simp
  have nbk: "\<forall>j. k * bs \<le> j \<and> j < ?p \<longrightarrow> run_outcome rt win start bs j \<noteq> Blocked"
    using nb kb by auto
  have pb: "process_batch rt win (k * bs) (min (k * bs + bs) n) start
           = Inr (True, concat (map (run_rows rt win start bs) [k * bs..?p - 1]), Some (?p - k * bs))"
    unfolding assms(6)
    using url bs assms(7) p1 p2 p3 nbk assms(12) by (rule batch_step_block(2))
  have len: "length (stored_rows w' ?out)
           = length (stored_rows w ?out)
             + length (concat (map (run_rows rt win start bs) [0..?p - 1]))"
  proof -
    have "length (read_rows w' ?out)
            = length (read_rows w ?out)
              + length (map read_dict (concat (map (run_rows rt win start bs) [0..?p - 1])))"
      unfolding rws by simp
    then show ?thesis by (simp add: length_read_rows)
  qed
  have each: "run_rows rt win start bs j \<noteq> []
                       \<and> length (run_rows rt win start bs j) \<le> 2
                       \<and> list_all (\<lambda>r. r ''ORIGINAL_INDEX'' = Some (Num (start + j)))
                            (run_rows rt win start bs j)
                       \<and> (wait_error (rt_site rt j) = None
                            \<longrightarrow> length (run_rows rt win start bs j) = 1)"
    if "0 \<le> j" "j < ?p" for j
    using nb that by (intro run_outcome_rows) simp
  then have all: "list_all (\<lambda>j. run_rows rt win start bs j \<noteq> []
                       \<and> length (run_rows rt win start bs j) \<le> 2
                       \<and> list_all (\<lambda>r. r ''ORIGINAL_INDEX'' = Some (Num (start + j)))
                            (run_rows rt win start bs j)
                       \<and> (wait_error (rt_site rt j) = None
                            \<longrightarrow> length (run_rows rt win start bs j) = 1))
            [0..?p - 1]"
    unfolding list_all_upto by simp
  have idx: "map (\<lambda>r. r ''ORIGINAL_INDEX'')
                (concat (map (run_rows rt win start bs) [0..?p - 1]))
              = map (\<lambda>j. Some (Num (start + j))) [0..?p - 1]"
    if nw: "list_all (\<lambda>j. wait_error (rt_site rt j) = None) [0..?p - 1]"
  proof (rule concat_singletons, rule ballI)
    fix j
    assume "j \<in> set [0..?p - 1]"
    then have j: "0 \<le> j" "j < ?p" by simp_all
    with nw have "wait_error (rt_site rt j) = None" unfolding list_all_upto by simp
    with each[OF j] obtain r where "run_rows rt win start bs j = [r]"
      and "r ''ORIGINAL_INDEX'' = Some (Num (start + j))"
      by (cases "run_rows rt win start bs j") auto
    then show "\<exists>r. run_rows rt win start bs j = [r] \<and> r ''ORIGINAL_INDEX'' = Some (Num (start + j))"
      by blast
  qed
  from pu pb docs log rws len all idx show ?thesis
    by (simp add: load_status_def assms(6))
qed


subsection \<open>The sample run\<close>

lemma goto_loop_good: "goto_loop good_goto 0 = Inr response_200"
  by (subst goto_loop.simps) (simp add: attempt_goto_def good_goto_def response_200_def)

lemma good_page_not_blocked:
  "\<not> detect_block id Map.empty good_page (Some response_200)"
  by (simp add: detect_block_unfold status_blocked_def response_200_def good_page_def
        block_patterns_def pattern_found_iff block_indicators_def default_block_indicators_def
        counted_missing_def all_counts_def title_suspicious_def title_keywords_def)

lemma good_visit_row:
  assumes "rt_lower rt = id" "rt_selectors rt = Map.empty"
  shows "process_url rt good_visit wt url oi pid
           = Rows [extract_product_info rt good_findings url (Num oi) pid]"
  using good_page_not_blocked assms
  by (simp add: process_url_def good_visit_def goto_loop_good response_200_def Let_def)

lemma blocked_page_blocked:
  "detect_block id Map.empty (loaded_page blocked_visit) (Some response_200)"
  by (simp add: detect_block_unfold status_blocked_def response_200_def blocked_visit_def
        block_patterns_def)

lemma blocked_visit_blocked:
  assumes "rt_lower rt = id" "rt_selectors rt = Map.empty"
  shows "process_url rt blocked_visit wt url oi pid = Blocked"
  using blocked_page_blocked assms
  by (simp add: process_url_def blocked_visit_def goto_loop_good response_200_def)

lemma sample_start: "window_start sample_runtime start_world ''urls.xlsx'' 0 True = 0"
  by (simp add: window_start_def resolve_start_index_def load_status_def status_path_def
        sample_runtime_def start_world_def STATUS_FILE_def initial_status_def)

lemma blocking_start: "window_start blocking_runtime start_world ''urls.xlsx'' 0 True = 0"
  by (simp add: window_start_def resolve_start_index_def load_status_def status_path_def
        sample_runtime_def blocking_runtime_def start_world_def STATUS_FILE_def initial_status_def)

lemma window_of_read: "window (read_excel sheet) 0 None = read_excel sheet"
  by (simp add: window_def py_slice_def read_excel_def Let_def)

lemma sample_record_outcomes:
  "record_outcome sample_runtime df 0 be j \<noteq> Blocked"
  unfolding record_outcome_def Let_def
  by (simp add: sample_runtime_def all_good_def good_visit_row)


lemma sample_outcomes: "run_outcome sample_runtime df 0 bs j \<noteq> Blocked"
  by (simp add: run_outcome_def sample_record_outcomes)

lemma blocking_record_outcomes:
  "j \<noteq> 3 \<Longrightarrow> record_outcome blocking_runtime df 0 be j \<noteq> Blocked"
  "record_outcome blocking_runtime df 0 be 3 = Blocked"
  unfolding record_outcome_def Let_def
  by (simp_all add: blocking_runtime_def sample_runtime_def block_at_3_def good_visit_row
        blocked_visit_blocked)

lemma blocking_outcomes:
  "j \<noteq> 3 \<Longrightarrow> run_outcome blocking_runtime df 0 bs j \<noteq> Blocked"
  "run_outcome blocking_runtime df 0 bs 3 = Blocked"
  by (simp_all add: run_outcome_def blocking_record_outcomes)

lemma read_urls_sheet:
  "read_sheet start_world ''urls.xlsx'' = Some (read_excel urls_sheet)"
  "''URL'' \<in> columns (read_excel urls_sheet)"
  "int (length (rows (read_excel urls_sheet))) = 5"
  by (simp_all add: read_sheet_def start_world_def read_excel_def urls_sheet_def)

text \<open>
  Claim C5: in a run in which no record of the window trips block detection (with a
  positive batch size, so that the run returns), the run reaches every batch \<open>k\<close> of the
  window and completes it; the status document that load\_status reads right after the
  pass of batch \<open>k\<close> is the checkpoint with last\_batch \<open>k + 1\<close> and last\_index equal to the
  resolved start index plus \<open>(k + 1) * batch_size\<close>, clamped to the length of the window;
  the run goes on from there with batch \<open>k + 1\<close>, or finishes when batch \<open>k\<close> was the last.
  In the log of the calls of save\_status this checkpoint is the second one of batch \<open>k\<close>.
\<close>

theorem checkpoint_after_completed_batch:
  assumes "read_sheet w xlsx = Some df" and "''URL'' \<in> columns df"
    and "bs = resolve_batch_size cfg batch_size" and "0 < bs"
    and "start = window_start rt w xlsx start_index auto_restart"
    and "win = window df start end_index"
    and "n = int (length (rows win))"
    and "list_all (\<lambda>j. run_outcome rt win start bs j \<noteq> Blocked) [0..n - 1]"
    and "0 \<le> k" and "k * bs < n"
  shows "\<exists>w0 wk w'.
         after_batches rt xlsx bs start win (output_path rt cfg) (nat k) w = Some w0
       \<and> batch_step rt xlsx bs start win (output_path rt cfg) k w0 = Continue wk
       \<and> load_status rt wk
           = Some \<lparr>file_path = xlsx, last_batch = k + 1,
                   last_index = start + min ((k + 1) * bs) n, blocked_url_idx = None\<rparr>
       \<and> process_urls rt cfg w xlsx batch_size start_index end_index auto_restart auto_validate
           = (if n \<le> (k + 1) * bs
              then Some (finish_run rt wk (output_path rt cfg) auto_validate)
              else batch_loop rt xlsx bs start win (output_path rt cfg) auto_validate (k + 1) wk)
       \<and> process_urls rt cfg w xlsx batch_size start_index end_index auto_restart auto_validate
           = Some w'
       \<and> status_log w' ! (length (status_log w) + 2 * nat k + 1)
           = \<lparr>file_path = xlsx, last_batch = k + 1,
              last_index = start + min ((k + 1) * bs) n, blocked_url_idx = None\<rparr>"
  using run_checkpoints[OF assms, of auto_validate] unfolding post_doc_def by blast

theorem checkpoint_after_completed_batch_witness:
  "read_sheet start_world ''urls.xlsx'' = Some (read_excel urls_sheet)
   \<and> ''URL'' \<in> columns (read_excel urls_sheet)
   \<and> 0 < resolve_batch_size sample_config None
   \<and> list_all (\<lambda>j. run_outcome sample_runtime (read_excel urls_sheet) 0 2 j \<noteq> Blocked) [0..4]
   \<and> (\<exists>w0 wk.
         after_batches sample_runtime ''urls.xlsx'' 2 0 (read_excel urls_sheet)
           (output_path sample_runtime sample_config) 2 start_world = Some w0
       \<and> batch_step sample_runtime ''urls.xlsx'' 2 0 (read_excel urls_sheet)
           (output_path sample_runtime sample_config) 2 w0 = Continue wk
       \<and> load_status sample_runtime wk
           = Some \<lparr>file_path = ''urls.xlsx'', last_batch = 3, last_index = 5, blocked_url_idx = None\<rparr>
       \<and> process_urls sample_runtime sample_config start_world ''urls.xlsx'' None 0 None True False
           = Some (finish_run sample_runtime wk (output_path sample_runtime sample_config) False))"
proof -
  note a = read_urls_sheet(1) and b = read_urls_sheet(2)
  have c: "(2::int) = resolve_batch_size sample_config None"
    by (simp add: resolve_batch_size_def sample_config_def)
  have d: "(0::int) = window_start sample_runtime start_world ''urls.xlsx'' 0 True"
    by (simp add: sample_start)
  have e: "read_excel urls_sheet = window (read_excel urls_sheet) 0 None"
    by (simp add: window_of_read)
  have f: "(5::int) = int (length (rows (read_excel urls_sheet)))"
    by (simp add: read_urls_sheet(3))
  have g: "list_all (\<lambda>j. run_outcome sample_runtime (read_excel urls_sheet) 0 2 j \<noteq> Blocked) [0..5 - 1]"
    by (simp add: list_all_iff sample_outcomes)
  from checkpoint_after_completed_batch[OF a b c _ d e f g, of 2 False]
  have "\<exists>w0 wk.
         after_batches sample_runtime ''urls.xlsx'' 2 0 (read_excel urls_sheet)
           (output_path sample_runtime sample_config) 2 start_world = Some w0
       \<and> batch_step sample_runtime ''urls.xlsx'' 2 0 (read_excel urls_sheet)
           (output_path sample_runtime sample_config) 2 w0 = Continue wk
       \<and> load_status sample_runtime wk
           = Some \<lparr>file_path = ''urls.xlsx'', last_batch = 3, last_index = 5, blocked_url_idx = None\<rparr>
       \<and> process_urls sample_runtime sample_config start_world ''urls.xlsx'' None 0 None True False
           = Some (finish_run sample_runtime wk (output_path sample_runtime sample_config) False)"
    by auto
  with a b c g show ?thesis by simp
qed

text \<open>
  Claim C3: if block detection fires at relative position \<open>i\<close> of batch \<open>k\<close> (whose first record
  sits at window offset \<open>k * batch_size\<close>) and at no earlier record of the run, then the batch
  returns the rows of the records before the blocking one and the relative index \<open>i\<close>; the
  run returns, the checkpoint it leaves has blocked\_url\_idx equal to the resolved start
  index plus \<open>k * batch_size + i\<close>; that checkpoint is the last one written, right after the
  checkpoint that announced batch \<open>k\<close>, so no further batch is started; and the rows appended
  to the output store are those of the window positions before the blocking record: read
  back from the store, they follow the rows that were there; every position before the
  blocking record contributes at least one row and at most two (exactly one when the wait
  after the record does not raise), all with the original index of the position, and the
  blocking record and the positions after it contribute none.
\<close>

theorem block_stops_the_run:
  assumes "read_sheet w xlsx = Some df" and "''URL'' \<in> columns df"
    and "bs = resolve_batch_size cfg batch_size"
    and "start = window_start rt w xlsx start_index auto_restart"
    and "win = window df start end_index"
    and "n = int (length (rows win))"
    and "0 \<le> k" and "0 \<le> i" and "i < bs" and "k * bs + i < n"
    and "list_all (\<lambda>j. run_outcome rt win start bs j \<noteq> Blocked) [0..k * bs + i - 1]"
    and "run_outcome rt win start bs (k * bs + i) = Blocked"
  shows "\<exists>w'. process_urls rt cfg w xlsx batch_size start_index end_index auto_restart auto_validate
             = Some w'
       \<and> process_batch rt win (k * bs) (min (k * bs + bs) n) start
           = Inr (True, concat (map (run_rows rt win start bs) [k * bs..k * bs + i - 1]), Some i)
       \<and> load_status rt w'
           = Some \<lparr>file_path = xlsx, last_batch = k, last_index = start + k * bs,
                   blocked_url_idx = Some (start + k * bs + i)\<rparr>
       \<and> status_log w' = status_log w
           @ concat (map (\<lambda>m. [pre_doc xlsx start bs m, post_doc xlsx start bs n m]) [0..k - 1])
           @ [pre_doc xlsx start bs k,
              \<lparr>file_path = xlsx, last_batch = k, last_index = start + k * bs,
               blocked_url_idx = Some (start + k * bs + i)\<rparr>]
       \<and> read_rows w' (output_path rt cfg) = read_rows w (output_path rt cfg)
           @ map read_dict (concat (map (run_rows rt win start bs) [0..k * bs + i - 1]))
       \<and> length (stored_rows w' (output_path rt cfg))
           = length (stored_rows w (output_path rt cfg))
             + length (concat (map (run_rows rt win start bs) [0..k * bs + i - 1]))
       \<and> list_all (\<lambda>j. run_rows rt win start bs j \<noteq> []
                       \<and> length (run_rows rt win start bs j) \<le> 2
                       \<and> list_all (\<lambda>r. r ''ORIGINAL_INDEX'' = Some (Num (start + j)))
                            (run_rows rt win start bs j)
                       \<and> (wait_error (rt_site rt j) = None
                            \<longrightarrow> length (run_rows rt win start bs j) = 1))
            [0..k * bs + i - 1]
       \<and> (list_all (\<lambda>j. wait_error (rt_site rt j) = None) [0..k * bs + i - 1] \<longrightarrow>
            map (\<lambda>r. r ''ORIGINAL_INDEX'')
                (concat (map (run_rows rt win start bs) [0..k * bs + i - 1]))
              = map (\<lambda>j. Some (Num (start + j))) [0..k * bs + i - 1])"
  using run_blocked[OF assms, of auto_validate] unfolding blocked_doc_def by blast

theorem block_stops_the_run_witness:
  "read_sheet start_world ''urls.xlsx'' = Some (read_excel urls_sheet)
   \<and> ''URL'' \<in> columns (read_excel urls_sheet)
   \<and> list_all (\<lambda>j. run_outcome blocking_runtime (read_excel urls_sheet) 0 2 j \<noteq> Blocked) [0..2]
   \<and> run_outcome blocking_runtime (read_excel urls_sheet) 0 2 3 = Blocked
   \<and> list_all (\<lambda>j. wait_error (rt_site blocking_runtime j) = None) [0..2]
   \<and> (\<exists>w'. process_urls blocking_runtime sample_config start_world ''urls.xlsx'' None 0 None True True
             = Some w'
         \<and> load_status blocking_runtime w'
             = Some \<lparr>file_path = ''urls.xlsx'', last_batch = 1, last_index = 2,
                     blocked_url_idx = Some 3\<rparr>
         \<and> length (status_log w') = 4
         \<and> length (stored_rows w' (output_path blocking_runtime sample_config)) = 3
         \<and> map (\<lambda>r. r ''ORIGINAL_INDEX'') (read_rows w' (output_path blocking_runtime sample_config))
             = [Num 0, Num 1, Num 2])"
proof -
  note a = read_urls_sheet(1) and b = read_urls_sheet(2)
  have c: "(2::int) = resolve_batch_size sample_config None"
    by (simp add: resolve_batch_size_def sample_config_def)
  have d: "(0::int) = window_start blocking_runtime start_world ''urls.xlsx'' 0 True"
    by (simp add: blocking_start)
  have e: "read_excel urls_sheet = window (read_excel urls_sheet) 0 None"
    by (simp add: window_of_read)
  have f: "(5::int) = int (length (rows (read_excel urls_sheet)))"
    by (simp add: read_urls_sheet(3))
  have g: "list_all (\<lambda>j. run_outcome blocking_runtime (read_excel urls_sheet) 0 2 j \<noteq> Blocked)
             [0..1 * 2 + 1 - 1]"
    by (simp add: list_all_iff blocking_outcomes)
  have h: "run_outcome blocking_runtime (read_excel urls_sheet) 0 2 (1 * 2 + 1) = Blocked"
    by (simp add: blocking_outcomes)
  have nw: "list_all (\<lambda>j. wait_error (rt_site blocking_runtime j) = None) [0..1 * 2 + 1 - 1]"
    by (simp add: list_all_iff blocking_runtime_def sample_runtime_def block_at_3_def
          good_visit_def blocked_visit_def)
  let ?rows = "concat (map (run_rows blocking_runtime (read_excel urls_sheet) 0 2) [0..1 * 2 + 1 - 1])"
  from block_stops_the_run[OF a b c d e f _ _ _ _ g h, of True] nw
  obtain w' where
    1: "process_urls blocking_runtime sample_config start_world ''urls.xlsx'' None 0 None True True
             = Some w'"
    and 2: "load_status blocking_runtime w'
             = Some \<lparr>file_path = ''urls.xlsx'', last_batch = 1, last_index = 2,
                     blocked_url_idx = Some 3\<rparr>"
    and 3: "status_log w' = status_log start_world
           @ concat (map (\<lambda>m. [pre_doc ''urls.xlsx'' 0 2 m, post_doc ''urls.xlsx'' 0 2 5 m]) [0..1 - 1])
           @ [pre_doc ''urls.xlsx'' 0 2 1,
              \<lparr>file_path = ''urls.xlsx'', last_batch = 1, last_index = 0 + 1 * 2,
               blocked_url_idx = Some (0 + 1 * 2 + 1)\<rparr>]"
    and 4: "read_rows w' (output_path blocking_runtime sample_config)
           = read_rows start_world (output_path blocking_runtime sample_config) @ map read_dict ?rows"
    and 5: "length (stored_rows w' (output_path blocking_runtime sample_config))
           = length (stored_rows start_world (output_path blocking_runtime sample_config))
             + length ?rows"
    and 6: "map (\<lambda>r. r ''ORIGINAL_INDEX'') ?rows = map (\<lambda>j. Some (Num (0 + j))) [0..1 * 2 + 1 - 1]"
    by auto
  have up: "[0..2] = [0, 1, (2::int)]" by (simp add: upto_rec1)
  have none: "sheets start_world (output_path blocking_runtime sample_config) = None"
    by (simp add: start_world_def output_path_def)
  have "length ?rows = length (map (\<lambda>r. r ''ORIGINAL_INDEX'') ?rows)" by simp
  also have "\<dots> = 3" by (subst 6) (simp add: up)
  finally have l: "length ?rows = 3" .
  have "length (status_log w') = 4"
    unfolding 3 by (simp add: start_world_def)
  moreover have "length (stored_rows w' (output_path blocking_runtime sample_config)) = 3"
    using 5 l by (simp add: stored_rows_def none)
  moreover have "map (\<lambda>r. r ''ORIGINAL_INDEX'') (read_rows w' (output_path blocking_runtime sample_config))
             = [Num 0, Num 1, Num 2]"
  proof -
    have "map (\<lambda>r. r ''ORIGINAL_INDEX'') (map read_dict ?rows)
            = map (\<lambda>x. read_cell (case x of None \<Rightarrow> NaN | Some v \<Rightarrow> v))
                (map (\<lambda>r. r ''ORIGINAL_INDEX'') ?rows)"
      by (simp add: read_dict_def row_of_dict_def o_def)
    also have "\<dots> = [Num 0, Num 1, Num 2]"
      by (subst 6) (simp add: up read_cell_def)
    finally show ?thesis
      unfolding 4 by (simp add: read_rows_def read_sheet_def none)
  qed
  moreover have "list_all (\<lambda>j. run_outcome blocking_runtime (read_excel urls_sheet) 0 2 j \<noteq> Blocked) [0..2]"
    using g by simp
  moreover have "run_outcome blocking_runtime (read_excel urls_sheet) 0 2 3 = Blocked"
    using h by simp
  moreover have "list_all (\<lambda>j. wait_error (rt_site blocking_runtime j) = None) [0..2]"
    using nw by simp
  ultimately show ?thesis using a b 1 2 by - (intro conjI exI[of _ w']; assumption)
qed






text \<open>The row that the crawl stores for a record visited by \<open>good_visit\<close>.\<close>

lemma good_visit_crawled_row:
  "process_url sample_runtime good_visit wt (Str ''https://shop.example/a'') 0 PyNone
     = Rows [crawled_row]"
proof -
  have "extract_product_info sample_runtime good_findings (Str ''https://shop.example/a'') (Num 0) PyNone
          = crawled_row"
    by (simp add: extract_product_info_def extract_loop_first_pass extract_price_info_def
          extract_product_name_def add_prod_id_def good_findings_def crawled_row_def
          sample_runtime_def Let_def fun_eq_iff)
  then show ?thesis
    by (simp add: good_visit_row sample_runtime_def)
qed




text \<open>
  Claim C6 fails on the code. In the sample run (five records, batches of two, no block,
  the process started in the directory of \<^verbatim>\<open>crawler.py\<close>) the run completes, and the status
  document that load\_status reads still holds the checkpoint written after the last batch,
  not the empty state: the reset is written to the bare file name \<^verbatim>\<open>crawler_status.json\<close> in
  the working directory, and only if that file exists. The next run on the same file
  resolves its start index to 5, gets an empty window and does nothing.
\<close>

theorem completed_run_keeps_checkpoint:
  "\<exists>w'. process_urls sample_runtime sample_config start_world ''urls.xlsx'' None 0 None True False
            = Some w'
      \<and> load_status sample_runtime w'
          = Some \<lparr>file_path = ''urls.xlsx'', last_batch = 3, last_index = 5, blocked_url_idx = None\<rparr>
      \<and> load_status sample_runtime w' \<noteq> Some initial_status
      \<and> window_start sample_runtime w' ''urls.xlsx'' 0 True = 5
      \<and> read_sheet w' ''urls.xlsx'' = Some (read_excel urls_sheet)
      \<and> rows (window (read_excel urls_sheet) 5 None) = []
      \<and> process_urls sample_runtime sample_config w' ''urls.xlsx'' None 0 None True False = Some w'"
proof -
  note a = read_urls_sheet(1) and b = read_urls_sheet(2)
  have c: "(2::int) = resolve_batch_size sample_config None"
    by (simp add: resolve_batch_size_def sample_config_def)
  have d: "(0::int) = window_start sample_runtime start_world ''urls.xlsx'' 0 True"
    by (simp add: sample_start)
  have e: "read_excel urls_sheet = window (read_excel urls_sheet) 0 None"
    by (simp add: window_of_read)
  have f: "(5::int) = int (length (rows (read_excel urls_sheet)))"
    by (simp add: read_urls_sheet(3))
  have g: "list_all (\<lambda>j. run_outcome sample_runtime (read_excel urls_sheet) 0 2 j \<noteq> Blocked) [0..5 - 1]"
    by (simp add: list_all_iff sample_outcomes)
  have h: "status_path sample_runtime \<noteq> in_cwd sample_runtime STATUS_FILE"
    by (simp add: status_path_def in_cwd_def sample_runtime_def STATUS_FILE_def)
  from run_completed_status[OF a b c _ d e f _ g h, of False]
  obtain w' kl where
    1: "process_urls sample_runtime sample_config start_world ''urls.xlsx'' None 0 None True False
            = Some w'"
    and kl: "kl * 2 < 5" "5 \<le> (kl + 1) * 2"
    and 2: "load_status sample_runtime w'
          = Some \<lparr>file_path = ''urls.xlsx'', last_batch = kl + 1, last_index = 0 + 5,
                  blocked_url_idx = None\<rparr>"
    and 3: "\<forall>path. path \<noteq> output_path sample_runtime sample_config
               \<longrightarrow> sheets w' path = sheets start_world path"
    by auto
  from kl have "kl = 2" by presburger
  with 2 have 2: "load_status sample_runtime w'
          = Some \<lparr>file_path = ''urls.xlsx'', last_batch = 3, last_index = 5, blocked_url_idx = None\<rparr>"
    by simp
  then have 4: "load_status sample_runtime w' \<noteq> Some initial_status"
    by (simp add: initial_status_def)
  from 2 have 5: "window_start sample_runtime w' ''urls.xlsx'' 0 True = 5"
    by (simp add: window_start_def resolve_start_index_def)
  have 6: "rows (window (read_excel urls_sheet) 5 None) = []"
    by (simp add: window_def py_slice_def read_excel_def urls_sheet_def Let_def)
  from 3 a have s: "read_sheet w' ''urls.xlsx'' = Some (read_excel urls_sheet)"
    by (simp add: output_path_def read_sheet_def)
  have "process_urls sample_runtime sample_config w' ''urls.xlsx'' None 0 None True False = Some w'"
    unfolding process_urls_unfold[OF s b] 5
    by (subst batch_loop.simps) (simp add: 6)
  with 1 2 4 5 s 6 show ?thesis by blast
qed


end
